theory Spec2Isabelle
  imports Complex_Main "HOL-Library.Monad_Syntax" "HOL-Library.AList"
begin

section \<open>Conventions of the embedding\<close>

text \<open>
  The program is the class \<open>TaskManager\<close> of \<open>app.js\<close>. Its methods are embedded as HOL
  functions that keep the names of the source. The conventions are these.

  \<^item> A coordinate or a distance is a \<open>real\<close>, and the value \<open>NaN\<close> is \<open>None\<close> wherever
    the source tests for it; rounding to IEEE doubles is not represented there. The
    numbers that \<open>parseInt\<close> reads from the ids of the sequences, and their
    differences, are doubles (the type \<open>number\<close>).
  \<^item> A string is a \<open>string\<close> (a list of 8-bit characters).
  \<^item> An array is a list; a \<open>Map\<close> is an association list in insertion order; an object
    used as a dictionary is a map \<open>string \<rightharpoonup> 'v\<close>.
  \<^item> An exception is the \<open>Inl\<close> of a sum; a call that may not return is an \<open>option\<close>
    whose \<open>None\<close> stands for not returning.
  \<^item> Functions of the host (\<open>JSON.parse\<close>, \<open>parseFloat\<close>, \<open>toFixed\<close>,
    \<open>localeCompare\<close>, \<open>Math.random\<close>, the clock) are parameters of the functions that
    call them, so every theorem holds for whatever the host computes.
  \<^item> Calls that only write to the page or to storage (\<open>renderCurrentTask\<close>,
    \<open>updateSummary\<close>, \<open>saveToStorage\<close>, progress callbacks, \<open>setTimeout\<close> yields) have
    no effect on the values modelled and are left out.
\<close>

section \<open>Values of the host language\<close>

text \<open>
  The value of a feature property: \<open>null\<close>, a boolean, a number or a string. Numbers are
  restricted to integers (below \<open>10^21\<close> in magnitude, where \<open>String\<close> prints them in
  decimal); nested arrays and objects are not represented. A property that is absent reads
  as \<open>undefined\<close>, which is \<open>None\<close>.

  \<open>truthy\<close> is the conversion to a boolean that \<open>||\<close> applies, \<open>orElse a b\<close> is \<open>a || b\<close>
  on values, and \<open>ToString\<close> is \<open>String(v)\<close>.
\<close>

datatype jsval = JNull | JBool bool | JNum int | JStr string

fun truthy :: "jsval option \<Rightarrow> bool" where
  "truthy None = False"
| "truthy (Some JNull) = False"
| "truthy (Some (JBool b)) = b"
| "truthy (Some (JNum n)) = (n \<noteq> 0)"
| "truthy (Some (JStr s)) = (s \<noteq> [])"

definition orElse :: "jsval option \<Rightarrow> jsval option \<Rightarrow> jsval option" where
  "orElse a b = (if truthy a then a else b)"

definition digit_char :: "nat \<Rightarrow> char" where
  "digit_char d = ''0123456789'' ! d"

fun string_of_nat :: "nat \<Rightarrow> string" where
  "string_of_nat n =
     (if n < 10 then [digit_char n] else string_of_nat (n div 10) @ [digit_char (n mod 10)])"

declare string_of_nat.simps [simp del]

definition string_of_int :: "int \<Rightarrow> string" where
  "string_of_int i = (if i < 0 then CHR ''-'' # string_of_nat (nat (- i)) else string_of_nat (nat i))"

fun ToString :: "jsval option \<Rightarrow> string" where
  "ToString None = ''undefined''"
| "ToString (Some JNull) = ''null''"
| "ToString (Some (JBool b)) = (if b then ''true'' else ''false'')"
| "ToString (Some (JNum n)) = string_of_int n"
| "ToString (Some (JStr s)) = s"

text \<open>
  A number, as far as \<open>parseInt\<close> and the comparator of the sequences produce them: an
  integer that a double holds exactly, an infinity, or \<open>NaN\<close>. Negative zero is not told
  from zero: the sort only asks for the sign of a number.

  \<open>to_double n\<close> is the double nearest to the integer \<open>n\<close>: \<open>round53\<close> keeps the 53
  leading bits of a natural number and rounds the rest to nearest, ties to even, and a
  result of \<open>2^1024\<close> or more is an infinity. \<open>minus_number\<close> is the operator \<open>-\<close> on these
  numbers, which rounds the exact difference.
\<close>

datatype number = Finite int | PlusInfinity | MinusInfinity | NaN

fun bit_length :: "nat \<Rightarrow> nat" where
  "bit_length n = (if n = 0 then 0 else Suc (bit_length (n div 2)))"

declare bit_length.simps [simp del]

definition round53 :: "nat \<Rightarrow> nat" where
  "round53 n =
     (let e = bit_length n - 53; q = n div 2 ^ e; r = n mod 2 ^ e
      in if 2 ^ e < 2 * r \<or> (2 * r = 2 ^ e \<and> odd q) then (q + 1) * 2 ^ e else q * 2 ^ e)"

definition to_double :: "int \<Rightarrow> number" where
  "to_double n =
     (let m = round53 (nat \<bar>n\<bar>)
      in if 2 ^ 1024 \<le> m then (if n < 0 then MinusInfinity else PlusInfinity)
         else Finite (if n < 0 then - int m else int m))"

fun isNaN :: "number \<Rightarrow> bool" where
  "isNaN NaN = True"
| "isNaN x = False"

fun minus_number :: "number \<Rightarrow> number \<Rightarrow> number" where
  "minus_number (Finite a) (Finite b) = to_double (a - b)"
| "minus_number NaN y = NaN"
| "minus_number x NaN = NaN"
| "minus_number PlusInfinity PlusInfinity = NaN"
| "minus_number MinusInfinity MinusInfinity = NaN"
| "minus_number PlusInfinity y = PlusInfinity"
| "minus_number MinusInfinity y = MinusInfinity"
| "minus_number (Finite a) PlusInfinity = MinusInfinity"
| "minus_number (Finite a) MinusInfinity = PlusInfinity"

text \<open>
  \<open>parseInt(s)\<close> with no radix: leading white space is skipped, then an optional sign, then
  an optional \<open>0x\<close> prefix that selects radix 16, then the longest run of digits of the
  radix; no digit at all gives \<open>NaN\<close>, and else the result is the double nearest to the
  integer that the digits denote. The white space characters are those of ASCII. (For more
  than 20 significant decimal digits the language standard lets an implementation read the
  digits after the 20th as zeros; here all digits are read.)
\<close>

definition is_space :: "char \<Rightarrow> bool" where
  "is_space c = (c \<in> set [CHR 0x09, CHR 0x0A, CHR 0x0B, CHR 0x0C, CHR 0x0D, CHR '' ''])"

definition digit_value :: "nat \<Rightarrow> char \<Rightarrow> nat option" where
  "digit_value radix c =
     (let n = of_char c :: nat;
          v = (if 48 \<le> n \<and> n \<le> 57 then Some (n - 48)
               else if 97 \<le> n \<and> n \<le> 122 then Some (n - 87)
               else if 65 \<le> n \<and> n \<le> 90 then Some (n - 55)
               else None)
      in case v of None \<Rightarrow> None | Some d \<Rightarrow> if d < radix then Some d else None)"

definition digits_value :: "nat \<Rightarrow> string \<Rightarrow> nat" where
  "digits_value radix ds = fold (\<lambda>c acc. acc * radix + (case digit_value radix c of Some d \<Rightarrow> d | None \<Rightarrow> 0)) ds 0"

definition parseInt :: "string \<Rightarrow> number" where
  "parseInt inputString =
     (let S = dropWhile is_space inputString;
          negative = (take 1 S = ''-'');
          S1 = (if take 1 S = ''-'' \<or> take 1 S = ''+'' then drop 1 S else S);
          hex = (take 2 S1 = ''0x'' \<or> take 2 S1 = ''0X'');
          R = (if hex then 16 else 10);
          S2 = (if hex then drop 2 S1 else S1);
          Z = takeWhile (\<lambda>c. digit_value R c \<noteq> None) S2
      in if Z = [] then NaN
         else to_double ((if negative then - 1 else 1) * int (digits_value R Z)))"

text \<open>\<open>str_includes s sub\<close> is \<open>s.includes(sub)\<close>.\<close>

fun str_includes :: "string \<Rightarrow> string \<Rightarrow> bool" where
  "str_includes [] sub = (sub = [])"
| "str_includes (c # cs) sub = (take (length sub) (c # cs) = sub \<or> str_includes cs sub)"

section \<open>Features and their statistics\<close>

text \<open>
  A coordinate is the array \<open>[lon, lat]\<close>. A geometry carries its \<open>type\<close> as the
  constructor and its \<open>coordinates\<close> as the argument, nested as GeoJSON nests them; a
  \<open>type\<close> the program does not know is \<open>GeometryOther\<close>. A feature may lack its
  \<open>geometry\<close> and its \<open>properties\<close>.
\<close>

type_synonym coord = "real \<times> real"

datatype geometry =
    Point coord
  | LineString "coord list"
  | Polygon "coord list list"
  | MultiLineString "coord list list"
  | MultiPolygon "coord list list list"
  | GeometryOther string

record feature =
  geometry :: "geometry option"
  properties :: "(string \<Rightarrow> jsval option) option"

text \<open>
  \<open>calculateStats\<close>: \<open>countFeature\<close> is the body of its \<open>forEach\<close>, on the pair
  \<open>(nodes, ways)\<close>. On well-typed coordinates the tests of the source read as follows:
  \<open>Array.isArray(coordinates[0])\<close> holds exactly when the array is not empty, and
  \<open>coordinates[0]\<close> is truthy exactly when the array is not empty (an array is truthy even
  when it is empty itself).
\<close>

record stats =
  features :: nat
  nodes :: nat
  ways :: nat

definition countFeature :: "feature \<Rightarrow> nat \<times> nat \<Rightarrow> nat \<times> nat" where
  "countFeature feature acc =
     (let nodes = fst acc; ways = snd acc in
      case geometry feature of
        None \<Rightarrow> (nodes, ways)
      | Some (Point c) \<Rightarrow> (nodes + 1, ways)
      | Some (LineString cs) \<Rightarrow> (if cs \<noteq> [] then nodes + length cs else nodes + 1, ways + 1)
      | Some (MultiLineString ls) \<Rightarrow> (if ls \<noteq> [] then nodes + length ls else nodes + 1, ways + 1)
      | Some (Polygon rs) \<Rightarrow> (case rs of [] \<Rightarrow> nodes | r # _ \<Rightarrow> nodes + length r, ways + 1)
      | Some (MultiPolygon ps) \<Rightarrow> (case ps of [] \<Rightarrow> nodes | p # _ \<Rightarrow> nodes + length p, ways + 1)
      | Some (GeometryOther t) \<Rightarrow> (nodes, ways))"

definition calculateStats :: "feature list \<Rightarrow> stats" where
  "calculateStats fs =
     (let acc = fold countFeature fs (0, 0)
      in \<lparr>features = length fs, nodes = fst acc, ways = snd acc\<rparr>)"

section \<open>Sequence aggregation\<close>

text \<open>
  A \<open>group\<close> is an entry of \<open>sequenceMap\<close>; a \<open>sequence\<close> is a group with its statistics,
  an element of \<open>this.sequences\<close>. A status that is \<open>undefined\<close> is \<open>None\<close>.

  The environment \<open>env\<close> holds what the host supplies during a call: \<open>random k\<close> is the
  string that the \<open>k\<close>-th evaluation of \<open>Math.random().toString(36).substr(2, 9)\<close> yields,
  \<open>today\<close> is \<open>new Date().toLocaleDateString()\<close>, \<open>nowISO\<close> is
  \<open>new Date().toISOString()\<close>, and \<open>localeCompare\<close> is the string comparison of the
  host's locale.

  The \<open>state\<close> holds the fields of the \<open>TaskManager\<close> that the aggregation reads or writes.
\<close>

record group =
  seq_id :: string
  seq_features :: "feature list"
  status :: "string option"
  date :: string

record sequence = group +
  featureCount :: nat
  nodeCount :: nat
  wayCount :: nat

record env =
  random :: "nat \<Rightarrow> string"
  today :: string
  nowISO :: string
  localeCompare :: "string \<Rightarrow> string \<Rightarrow> int"

record state =
  sequences :: "sequence list"
  currentIndex :: int
  currentView :: string
  geojsonData :: "feature list option"

datatype error = InvalidGeoJSON | CsvTooShort | CsvNoCoordinateColumns

text \<open>
  \<open>getProp feature k\<close> is \<open>feature.properties?.k\<close>. \<open>sequenceId_of r feature\<close> is the
  expression that derives the key of a feature, where \<open>r\<close> is the random string that the
  last alternative would draw. \<open>keyed\<close> says that one of the five properties is truthy, in
  which case \<open>||\<close> does not reach the random draw.
\<close>

definition getProp :: "feature \<Rightarrow> string \<Rightarrow> jsval option" where
  "getProp feature k = (case properties feature of None \<Rightarrow> None | Some ps \<Rightarrow> ps k)"

definition sequenceId_of :: "string \<Rightarrow> feature \<Rightarrow> string" where
  "sequenceId_of r feature =
     ToString
       (orElse (getProp feature ''sequence_id'')
       (orElse (getProp feature ''sequenceId'')
       (orElse (getProp feature ''sequence'')
       (orElse (getProp feature ''id'')
       (orElse (getProp feature ''seq'')
         (Some (JStr (''sequence_'' @ ToString (orElse (getProp feature ''id'') (Some (JStr r)))))))))))"

definition keyed :: "feature \<Rightarrow> bool" where
  "keyed feature =
     (truthy (getProp feature ''sequence_id'') \<or> truthy (getProp feature ''sequenceId'') \<or>
      truthy (getProp feature ''sequence'') \<or> truthy (getProp feature ''id'') \<or>
      truthy (getProp feature ''seq''))"

text \<open>
  \<open>existingStatusMap\<close> is the \<open>Map\<close> of that name. \<open>sequenceMap\<close> is an association list
  in insertion order: \<open>AList.update\<close> is \<open>Map.set\<close>, and \<open>AList.map_entry\<close> is the
  in-place \<open>push\<close> on the entry that \<open>Map.get\<close> returns. \<open>groupFeature\<close> is the body of the
  loop over the features; it also counts the draws of \<open>Math.random\<close>.
\<close>

definition existingStatusMap :: "sequence list \<Rightarrow> string \<Rightarrow> string option" where
  "existingStatusMap seqs =
     fold (\<lambda>seq m. case status seq of None \<Rightarrow> m | Some s \<Rightarrow> m(seq_id seq \<mapsto> s)) seqs Map.empty"

definition Map_has :: "('k \<times> 'v) list \<Rightarrow> 'k \<Rightarrow> bool" where
  "Map_has m k = (map_of m k \<noteq> None)"

definition groupFeature ::
  "env \<Rightarrow> (string \<Rightarrow> string option) \<Rightarrow> feature \<Rightarrow>
   nat \<times> (string \<times> group) list \<Rightarrow> nat \<times> (string \<times> group) list" where
  "groupFeature e esm feature acc =
     (let calls = fst acc; sequenceMap = snd acc;
          sequenceId = sequenceId_of (random e calls) feature;
          calls' = (if keyed feature then calls else calls + 1);
          sequenceMap' =
            (if \<not> Map_has sequenceMap sequenceId
             then AList.update sequenceId
                    \<lparr>seq_id = sequenceId, seq_features = [],
                     status = Some (case esm sequenceId of Some s \<Rightarrow> s | None \<Rightarrow> []),
                     date = today e\<rparr> sequenceMap
             else sequenceMap)
      in (calls',
          AList.map_entry sequenceId (\<lambda>g. g\<lparr>seq_features := seq_features g @ [feature]\<rparr>)
            sequenceMap'))"

text \<open>\<open>withStats\<close> is the object \<open>{...seq, featureCount, nodeCount, wayCount}\<close>.\<close>

definition withStats :: "group \<Rightarrow> sequence" where
  "withStats seq =
     (let stats = calculateStats (seq_features seq)
      in \<lparr>seq_id = seq_id seq, seq_features = seq_features seq, status = status seq,
          date = date seq,
          featureCount = features stats, nodeCount = nodes stats, wayCount = ways stats\<rparr>)"

text \<open>
  The comparator passed to \<open>sort\<close>; the result of \<open>localeCompare\<close> is an integer.
  \<open>Array.prototype.sort\<close> is a stable insertion sort: an element stays in front of a
  later one unless the comparator is positive (a \<open>NaN\<close> from the comparator counts as
  zero). For a comparator that orders the elements consistently this is the order that
  the language standard prescribes; for any other it leaves the order to the
  implementation, and this is one such order.
\<close>

definition compareSequences :: "env \<Rightarrow> sequence \<Rightarrow> sequence \<Rightarrow> number" where
  "compareSequences e a b =
     (let aNum = parseInt (seq_id a); bNum = parseInt (seq_id b)
      in if \<not> isNaN aNum \<and> \<not> isNaN bNum then minus_number aNum bNum
         else Finite (localeCompare e (seq_id a) (seq_id b)))"

fun is_positive :: "number \<Rightarrow> bool" where
  "is_positive (Finite n) = (0 < n)"
| "is_positive PlusInfinity = True"
| "is_positive x = False"


fun sort_insert :: "('a \<Rightarrow> 'a \<Rightarrow> number) \<Rightarrow> 'a \<Rightarrow> 'a list \<Rightarrow> 'a list" where
  "sort_insert cmp x [] = [x]"
| "sort_insert cmp x (y # ys) =
     (if is_positive (cmp x y) then y # sort_insert cmp x ys else x # y # ys)"

definition js_sort :: "('a \<Rightarrow> 'a \<Rightarrow> number) \<Rightarrow> 'a list \<Rightarrow> 'a list" where
  "js_sort cmp xs = foldr (sort_insert cmp) xs []"

text \<open>The views, and the reset of \<open>currentIndex\<close> to the first sequence of the current view.\<close>

definition getActiveSequences :: "state \<Rightarrow> sequence list" where
  "getActiveSequences st = filter (\<lambda>seq. status seq = None \<or> status seq = Some []) (sequences st)"

definition getDoneSequences :: "state \<Rightarrow> sequence list" where
  "getDoneSequences st = filter (\<lambda>seq. status seq = Some ''done'') (sequences st)"

definition getSkippedSequences :: "state \<Rightarrow> sequence list" where
  "getSkippedSequences st = filter (\<lambda>seq. status seq = Some ''skipped'') (sequences st)"

definition getCurrentViewSequences :: "state \<Rightarrow> sequence list" where
  "getCurrentViewSequences st =
     (if currentView st = ''all'' then sequences st
      else if currentView st = ''done'' then getDoneSequences st
      else if currentView st = ''skipped'' then getSkippedSequences st
      else getActiveSequences st)"

fun findIndex :: "('a \<Rightarrow> bool) \<Rightarrow> 'a list \<Rightarrow> int" where
  "findIndex P [] = - 1"
| "findIndex P (x # xs) = (if P x then 0 else (let i = findIndex P xs in if i < 0 then - 1 else i + 1))"

definition resetIndex :: "state \<Rightarrow> state" where
  "resetIndex st =
     (case getCurrentViewSequences st of
        [] \<Rightarrow> st\<lparr>currentIndex := 0\<rparr>
      | firstSequence # _ \<Rightarrow>
          st\<lparr>currentIndex := findIndex (\<lambda>seq. seq_id seq = seq_id firstSequence) (sequences st)\<rparr>)"

text \<open>
  \<open>processGeoJSON\<close>. The argument is \<open>geojson.features\<close>, \<open>None\<close> when it is missing or not
  an array, in which case the method throws.
\<close>

definition processGeoJSON :: "env \<Rightarrow> state \<Rightarrow> feature list option \<Rightarrow> error + state" where
  "processGeoJSON e st geojson =
     (case geojson of
        None \<Rightarrow> Inl InvalidGeoJSON
      | Some fs \<Rightarrow>
          let esm = existingStatusMap (sequences st);
              sequenceMap = snd (fold (groupFeature e esm) fs (0, []));
              seqs = map withStats (map snd sequenceMap);
              st1 = st\<lparr>sequences := js_sort (compareSequences e) seqs\<rparr>;
              st2 = resetIndex st1
          in Inr (st2\<lparr>geojsonData := Some fs\<rparr>))"

text \<open>
  The chunked loops of the asynchronous methods all have the shape
  \<^verbatim>\<open>for (let start = a; start < n; start += chunkSize) {
    const end = Math.min(start + chunkSize, n);
    for (let i = start; i < end; i++) { body(i) }
    await ...
  }\<close>
  with a constant \<open>chunkSize\<close> of 50 or 100. \<open>chunked_for\<close> is this loop; the test
  \<open>0 < chunkSize\<close> only makes the definition total.
\<close>

function chunked_for :: "nat \<Rightarrow> nat \<Rightarrow> nat \<Rightarrow> (nat \<Rightarrow> 's \<Rightarrow> 's) \<Rightarrow> 's \<Rightarrow> 's" where
  "chunked_for chunkSize start n body s =
     (if start < n \<and> 0 < chunkSize then
        let end = min (start + chunkSize) n
        in chunked_for chunkSize (start + chunkSize) n body (fold body [start ..< end] s)
      else s)"
  by pat_completeness auto
termination
  by (relation "measure (\<lambda>(chunkSize, start, n, body, s). n - start)") auto

declare chunked_for.simps [simp del]

text \<open>
  \<open>processGeoJSONAsync\<close>, which logs and returns when \<open>geojson.features\<close> is missing, leaving
  the state as it was.
\<close>

definition processGeoJSONAsync :: "env \<Rightarrow> state \<Rightarrow> feature list option \<Rightarrow> state" where
  "processGeoJSONAsync e st geojson =
     (case geojson of
        None \<Rightarrow> st
      | Some fs \<Rightarrow>
          let esm = existingStatusMap (sequences st);
              totalFeatures = length fs;
              sequenceMap =
                snd (chunked_for 100 0 totalFeatures (\<lambda>i. groupFeature e esm (fs ! i)) (0, []));
              sequences = map snd sequenceMap;
              processedSequences =
                chunked_for 50 0 (length sequences)
                  (\<lambda>i processed. processed @ [withStats (sequences ! i)]) [];
              st1 = st\<lparr>sequences := js_sort (compareSequences e) processedSequences,
                       geojsonData := Some fs\<rparr>
          in resetIndex st1)"

text \<open>\<open>updateStatus\<close>: the first sequence with the given id gets the new status.\<close>

definition updateStatus :: "state \<Rightarrow> string \<Rightarrow> string \<Rightarrow> state" where
  "updateStatus st sequenceId newStatus =
     (case find (\<lambda>s. seq_id s = sequenceId) (sequences st) of
        None \<Rightarrow> st
      | Some found \<Rightarrow>
          let i = nat (findIndex (\<lambda>s. seq_id s = sequenceId) (sequences st));
              st1 = st\<lparr>sequences := (sequences st)[i := found\<lparr>status := Some newStatus\<rparr>]\<rparr>
          in if currentView st1 = ''all'' then st1
             else let viewSequences = getCurrentViewSequences st1
                  in if find (\<lambda>seq. seq_id seq = sequenceId) viewSequences = None
                        \<and> viewSequences \<noteq> []
                     then st1\<lparr>currentIndex :=
                            findIndex (\<lambda>seq. seq_id seq = seq_id (hd viewSequences)) (sequences st1)\<rparr>
                     else st1)"

text \<open>
  The end of \<open>handleFileUpload\<close>, once the files are parsed into \<open>newFeatures\<close>: nothing
  happens when there are none; otherwise they are appended to the features stored so far
  and the whole list is regrouped, by the chunked method when it has more than 50
  features.
\<close>

definition uploadFeatures :: "env \<Rightarrow> state \<Rightarrow> feature list \<Rightarrow> state" where
  "uploadFeatures e st newFeatures =
     (if newFeatures = [] then st
      else
        let existingFeatures = (case geojsonData st of None \<Rightarrow> [] | Some fs \<Rightarrow> fs);
            allFeatures = existingFeatures @ newFeatures;
            st1 = st\<lparr>geojsonData := Some allFeatures\<rparr>
        in if length allFeatures > 50 then processGeoJSONAsync e st1 (Some allFeatures)
           else (case processGeoJSON e st1 (Some allFeatures) of
                   Inl err \<Rightarrow> st1
                 | Inr st2 \<Rightarrow> st2))"

subsection \<open>The chunked loops are the plain loops\<close>

lemma upt_split: "a \<le> m \<Longrightarrow> m \<le> n \<Longrightarrow> [a ..< n] = [a ..< m] @ [m ..< n]"
  using upt_add_eq_append[of a m "n - m"] by simp

lemma chunked_for_fold:
  "0 < chunkSize \<Longrightarrow> chunked_for chunkSize start n body s = fold body [start ..< n] s"
proof (induction chunkSize start n body s rule: chunked_for.induct)
  case (1 chunkSize start n body s)
  show ?case
  proof (cases "start < n")
    case False
    then show ?thesis by (simp add: chunked_for.simps)
  next
    case True
    let ?end = "min (start + chunkSize) n"
    have split: "[start ..< n] = [start ..< ?end] @ [?end ..< n]"
      using True by (intro upt_split) simp_all
    have rest: "[start + chunkSize ..< n] = [?end ..< n]"
      by (simp add: min_def)
    have "chunked_for chunkSize start n body s =
          chunked_for chunkSize (start + chunkSize) n body (fold body [start ..< ?end] s)"
      using True "1.prems" by (subst chunked_for.simps) (simp add: Let_def)
    also have "\<dots> = fold body [start + chunkSize ..< n] (fold body [start ..< ?end] s)"
      using "1.IH"[OF _ refl "1.prems"] True "1.prems" by simp
    finally show ?thesis by (simp only: rest split fold_append comp_def)
  qed
qed

lemma fold_index:
  "fold (\<lambda>i. f (xs ! i)) [0 ..< length xs] s = fold f xs s"
proof -
  have "fold f (map ((!) xs) [0 ..< length xs]) s = fold (\<lambda>i. f (xs ! i)) [0 ..< length xs] s"
    by (simp add: fold_map comp_def)
  then show ?thesis by (simp add: map_nth)
qed

lemma fold_snoc_map: "fold (\<lambda>x acc. acc @ [g x]) xs acc = acc @ map g xs"
  by (induction xs arbitrary: acc) simp_all

lemma chunked_index:
  "0 < c \<Longrightarrow> chunked_for c 0 (length xs) (\<lambda>i. f (xs ! i)) s = fold f xs s"
  by (simp add: chunked_for_fold fold_index)

lemma chunked_push:
  "0 < c \<Longrightarrow> chunked_for c 0 (length xs) (\<lambda>i processed. processed @ [g (xs ! i)]) [] = map g xs"
  using chunked_index[of c xs "\<lambda>x acc. acc @ [g x]" "[]"] by (simp add: fold_snoc_map)

lemma resetIndex_geojsonData:
  "resetIndex (st\<lparr>geojsonData := x\<rparr>) = (resetIndex st)\<lparr>geojsonData := x\<rparr>"
  by (simp add: resetIndex_def getCurrentViewSequences_def getActiveSequences_def
        getDoneSequences_def getSkippedSequences_def split: list.splits)

lemma processGeoJSON_async_sync:
  "processGeoJSON e st (Some fs) = Inr (processGeoJSONAsync e st (Some fs))"
  by (simp add: processGeoJSON_def processGeoJSONAsync_def Let_def chunked_index chunked_push
        resetIndex_geojsonData)

subsection \<open>Sorting keeps the elements\<close>

lemma sequences_resetIndex: "sequences (resetIndex st) = sequences st"
  by (simp add: resetIndex_def split: list.splits)

lemma set_sort_insert: "set (sort_insert cmp x ys) = insert x (set ys)"
  by (induction ys) auto

lemma set_js_sort: "set (js_sort cmp xs) = set xs"
  by (induction xs) (simp_all add: js_sort_def set_sort_insert)

lemma distinct_sort_insert:
  "distinct (map f (sort_insert cmp x ys)) = (f x \<notin> f ` set ys \<and> distinct (map f ys))"
  by (induction ys) (auto simp: set_sort_insert)

lemma distinct_js_sort: "distinct (map f (js_sort cmp xs)) = distinct (map f xs)"
  by (induction xs) (simp_all add: js_sort_def distinct_sort_insert set_js_sort [unfolded js_sort_def])



subsection \<open>Statuses of the regrouped sequences\<close>

lemma esm_notin:
  "K \<notin> seq_id ` set seqs \<Longrightarrow>
   fold (\<lambda>seq m. case status seq of None \<Rightarrow> m | Some s \<Rightarrow> m(seq_id seq \<mapsto> s)) seqs m K = m K"
  by (induction seqs arbitrary: m) (auto split: option.splits)

lemma esm_in:
  "distinct (map seq_id seqs) \<Longrightarrow> p \<in> set seqs \<Longrightarrow> status p = Some s \<Longrightarrow>
   fold (\<lambda>seq m. case status seq of None \<Rightarrow> m | Some s \<Rightarrow> m(seq_id seq \<mapsto> s)) seqs m (seq_id p)
     = Some s"
proof (induction seqs arbitrary: m)
  case Nil
  then show ?case by simp
next
  case (Cons x xs)
  show ?case
  proof (cases "p = x")
    case True
    have "seq_id x \<notin> seq_id ` set xs" using Cons.prems(1) by simp
    from esm_notin[OF this] True Cons.prems(3) show ?thesis by simp
  next
    case False
    with Cons.prems have "p \<in> set xs" "distinct (map seq_id xs)" by simp_all
    from Cons.IH[OF this(2) this(1) Cons.prems(3)] show ?thesis by simp
  qed
qed

lemma existingStatusMap_in:
  "distinct (map seq_id seqs) \<Longrightarrow> p \<in> set seqs \<Longrightarrow> status p = Some s \<Longrightarrow>
   existingStatusMap seqs (seq_id p) = Some s"
  unfolding existingStatusMap_def by (rule esm_in)

lemma existingStatusMap_notin:
  "K \<notin> seq_id ` set seqs \<Longrightarrow> existingStatusMap seqs K = None"
  unfolding existingStatusMap_def by (simp add: esm_notin)

text \<open>
  The invariant of the grouping loop: keys are distinct, every entry is stored under its
  own id, and its status is the one recorded for that id, or blank.
\<close>

definition grouped_ok :: "(string \<Rightarrow> string option) \<Rightarrow> (string \<times> group) list \<Rightarrow> bool" where
  "grouped_ok esm m =
     (distinct (map fst m) \<and>
      (\<forall>(k, g) \<in> set m. seq_id g = k \<and>
          status g = Some (case esm k of Some s \<Rightarrow> s | None \<Rightarrow> [])))"

lemma map_entry_keys: "map fst (AList.map_entry k f m) = map fst m"
  by (induction m) auto

lemma map_entry_set:
  "(k', g') \<in> set (AList.map_entry k f m) \<Longrightarrow> \<exists>g. (k', g) \<in> set m \<and> (g' = g \<or> g' = f g)"
  by (induction m) (auto split: if_splits)

lemma update_fresh: "map_of m k = None \<Longrightarrow> AList.update k v m = m @ [(k, v)]"
  by (induction m) (auto split: if_splits)

lemma grouped_ok_step:
  assumes "grouped_ok esm (snd acc)"
  shows "grouped_ok esm (snd (groupFeature e esm feature acc))"
proof -
  let ?k = "sequenceId_of (random e (fst acc)) feature"
  let ?new = "\<lparr>seq_id = ?k, seq_features = [],
               status = Some (case esm ?k of Some s \<Rightarrow> s | None \<Rightarrow> []), date = today e\<rparr>"
  let ?m' = "if \<not> Map_has (snd acc) ?k then AList.update ?k ?new (snd acc) else snd acc"
  have m': "grouped_ok esm ?m'"
  proof (cases "Map_has (snd acc) ?k")
    case True
    then show ?thesis using assms by simp
  next
    case False
    then have none: "map_of (snd acc) ?k = None" by (simp add: Map_has_def)
    then have "?k \<notin> fst ` set (snd acc)" by (simp add: map_of_eq_None_iff)
    then show ?thesis
      using assms False by (auto simp: grouped_ok_def update_fresh[OF none])
  qed
  have "grouped_ok esm (AList.map_entry ?k (\<lambda>g. g\<lparr>seq_features := seq_features g @ [feature]\<rparr>) ?m')"
    unfolding grouped_ok_def
  proof (intro conjI)
    show "distinct (map fst (AList.map_entry ?k (\<lambda>g. g\<lparr>seq_features := seq_features g @ [feature]\<rparr>) ?m'))"
      using m' by (simp only: map_entry_keys grouped_ok_def)
    show "\<forall>(k, g)\<in>set (AList.map_entry ?k (\<lambda>g. g\<lparr>seq_features := seq_features g @ [feature]\<rparr>) ?m').
            seq_id g = k \<and> status g = Some (case esm k of None \<Rightarrow> [] | Some s \<Rightarrow> s)"
    proof (clarify)
      fix k g
      assume "(k, g) \<in> set (AList.map_entry ?k (\<lambda>g. g\<lparr>seq_features := seq_features g @ [feature]\<rparr>) ?m')"
      from map_entry_set[OF this] obtain g0 where
        "(k, g0) \<in> set ?m'" "g = g0 \<or> g = g0\<lparr>seq_features := seq_features g0 @ [feature]\<rparr>"
        by blast
      with m' show "seq_id g = k \<and> status g = Some (case esm k of None \<Rightarrow> [] | Some s \<Rightarrow> s)"
        unfolding grouped_ok_def by fastforce
    qed
  qed
  then show ?thesis by (simp add: groupFeature_def Let_def)
qed

lemma grouped_ok_fold:
  "grouped_ok esm (snd acc) \<Longrightarrow> grouped_ok esm (snd (fold (groupFeature e esm) fs acc))"
  by (induction fs arbitrary: acc) (simp_all add: grouped_ok_step)

lemma sequences_async:
  "sequences (processGeoJSONAsync e st (Some fs)) =
     js_sort (compareSequences e)
       (map withStats (map snd (snd (fold (groupFeature e (existingStatusMap (sequences st))) fs (0, [])))))"
  by (simp add: processGeoJSONAsync_def Let_def chunked_index chunked_push sequences_resetIndex)

lemma withStats_fields [simp]:
  "seq_id (withStats g) = seq_id g" "status (withStats g) = status g"
  "seq_features (withStats g) = seq_features g"
  by (simp_all add: withStats_def Let_def)

lemma async_status:
  assumes "q \<in> set (sequences (processGeoJSONAsync e st (Some fs)))"
  shows "status q = Some (case existingStatusMap (sequences st) (seq_id q) of Some s \<Rightarrow> s | None \<Rightarrow> [])"
proof -
  let ?m = "snd (fold (groupFeature e (existingStatusMap (sequences st))) fs (0, []))"
  have ok: "grouped_ok (existingStatusMap (sequences st)) ?m"
    by (rule grouped_ok_fold) (simp add: grouped_ok_def)
  from assms obtain k g where "(k, g) \<in> set ?m" "q = withStats g"
    by (auto simp: sequences_async set_js_sort)
  with ok show ?thesis by (fastforce simp: grouped_ok_def)
qed

lemma async_distinct:
  "distinct (map seq_id (sequences (processGeoJSONAsync e st (Some fs))))"
proof -
  let ?m = "snd (fold (groupFeature e (existingStatusMap (sequences st))) fs (0, []))"
  have ok: "grouped_ok (existingStatusMap (sequences st)) ?m"
    by (rule grouped_ok_fold) (simp add: grouped_ok_def)
  then have "map seq_id (map withStats (map snd ?m)) = map fst ?m"
    by (auto simp: grouped_ok_def)
  with ok show ?thesis
    by (simp add: sequences_async distinct_js_sort grouped_ok_def del: map_map)
qed

subsection \<open>An environment for concrete runs\<close>

text \<open>
  A comparison by character codes stands in for \<open>localeCompare\<close> where a concrete run
  needs one, and \<open>r0, r1, \<dots>\<close> for the random strings.
\<close>

fun codeunit_compare :: "string \<Rightarrow> string \<Rightarrow> int" where
  "codeunit_compare [] [] = 0"
| "codeunit_compare [] (y # ys) = - 1"
| "codeunit_compare (x # xs) [] = 1"
| "codeunit_compare (x # xs) (y # ys) =
     (if (of_char x :: nat) < of_char y then - 1
      else if (of_char y :: nat) < of_char x then 1
      else codeunit_compare xs ys)"

definition env0 :: env where
  "env0 = \<lparr>random = (\<lambda>k. ''r'' @ string_of_nat k), today = ''1/1/2025'',
           nowISO = ''2025-01-01T00:00:00.000Z'', localeCompare = codeunit_compare\<rparr>"

subsection \<open>Statistics\<close>

text \<open>
  The node count as the specification words it: one per Point, all vertices of the lines
  of a LineString or MultiLineString, and the vertices of the first ring of each polygon.
\<close>

definition spec_vertices :: "geometry \<Rightarrow> nat" where
  "spec_vertices g =
     (case g of
        Point c \<Rightarrow> 1
      | LineString cs \<Rightarrow> length cs
      | MultiLineString ls \<Rightarrow> sum_list (map length ls)
      | Polygon rs \<Rightarrow> (case rs of [] \<Rightarrow> 0 | r # _ \<Rightarrow> length r)
      | MultiPolygon ps \<Rightarrow> sum_list (map (\<lambda>p. case p of [] \<Rightarrow> 0 | r # _ \<Rightarrow> length r) ps)
      | GeometryOther t \<Rightarrow> 0)"

definition spec_nodeCount :: "feature list \<Rightarrow> nat" where
  "spec_nodeCount fs =
     sum_list (map (\<lambda>f. case geometry f of None \<Rightarrow> 0 | Some g \<Rightarrow> spec_vertices g) fs)"

text \<open>
  \<open>is_way\<close>: the geometry is of a line or polygon type. \<open>simple_geometry\<close>: the geometry is
  absent, a Point, a non-empty LineString, a Polygon or of an unknown type.
\<close>

definition is_way :: "feature \<Rightarrow> bool" where
  "is_way f =
     (case geometry f of
        Some (LineString cs) \<Rightarrow> True
      | Some (MultiLineString ls) \<Rightarrow> True
      | Some (Polygon rs) \<Rightarrow> True
      | Some (MultiPolygon ps) \<Rightarrow> True
      | _ \<Rightarrow> False)"

definition simple_geometry :: "feature \<Rightarrow> bool" where
  "simple_geometry f =
     (case geometry f of
        Some (LineString cs) \<Rightarrow> cs \<noteq> []
      | Some (MultiLineString ls) \<Rightarrow> False
      | Some (MultiPolygon ps) \<Rightarrow> False
      | _ \<Rightarrow> True)"

text \<open>
  The key as the specification words it: the first of the five properties that is present,
  whatever its value.
\<close>

definition claimed_sequenceId :: "feature \<Rightarrow> string option" where
  "claimed_sequenceId feature =
     (case filter (\<lambda>v. v \<noteq> None)
             (map (getProp feature) [''sequence_id'', ''sequenceId'', ''sequence'', ''id'', ''seq'']) of
        [] \<Rightarrow> None
      | v # _ \<Rightarrow> Some (ToString v))"

lemma fold_countFeature:
  "fold countFeature fs (n, w) =
     (n + fst (fold countFeature fs (0, 0)), w + snd (fold countFeature fs (0, 0)))"
proof (induction fs arbitrary: n w)
  case Nil
  then show ?case by simp
next
  case (Cons f fs)
  obtain n1 w1 where step: "countFeature f (n, w) = (n1, w1)" by force
  obtain n0 w0 where step0: "countFeature f (0, 0) = (n0, w0)" by force
  have rel: "n1 = n + n0 \<and> w1 = w + w0"
    using step step0
    by (auto simp: countFeature_def Let_def split: option.splits geometry.splits list.splits if_splits)
  show ?case
    using Cons.IH[of n1 w1] Cons.IH[of n0 w0] rel by (simp add: step step0)
qed

lemma calculateStats_Cons:
  "calculateStats (f # fs) =
     \<lparr>features = Suc (features (calculateStats fs)),
      nodes = fst (countFeature f (0, 0)) + nodes (calculateStats fs),
      ways = snd (countFeature f (0, 0)) + ways (calculateStats fs)\<rparr>"
proof -
  obtain n0 w0 where step0: "countFeature f (0, 0) = (n0, w0)" by force
  show ?thesis
    using fold_countFeature[of fs n0 w0] by (simp add: calculateStats_def step0 Let_def)
qed

lemma calculateStats_counts:
  "features (calculateStats fs) = length fs \<and>
   ways (calculateStats fs) = length (filter is_way fs) \<and>
   (list_all simple_geometry fs \<longrightarrow> nodes (calculateStats fs) = spec_nodeCount fs)"
proof (induction fs)
  case Nil
  then show ?case by (simp add: calculateStats_def spec_nodeCount_def)
next
  case (Cons f fs)
  have w: "snd (countFeature f (0, 0)) = (if is_way f then 1 else 0)"
    by (simp add: countFeature_def is_way_def split: option.splits geometry.splits list.splits)
  have n: "simple_geometry f \<Longrightarrow>
           fst (countFeature f (0, 0)) = (case geometry f of None \<Rightarrow> 0 | Some g \<Rightarrow> spec_vertices g)"
    by (simp add: countFeature_def simple_geometry_def spec_vertices_def
          split: option.splits geometry.splits list.splits)
  show ?case
    using Cons.IH w n by (simp add: calculateStats_Cons spec_nodeCount_def)
qed

lemma calculateStats_example:
  "calculateStats
     [\<lparr>geometry = Some (Point (103, 1)), properties = None\<rparr>,
      \<lparr>geometry = Some (LineString [(103, 1), (104, 1), (105, 1), (106, 1)]), properties = None\<rparr>]
   = \<lparr>features = 2, nodes = 5, ways = 1\<rparr>"
  by (simp add: calculateStats_def countFeature_def)

text \<open>
  Claim C3. The feature count and the way count are as claimed for every feature list, and
  so is the node count on simple geometries (\<open>calculateStats_counts\<close>), the example of the
  specification included (\<open>calculateStats_example\<close>). The node count is not the number of
  vertices in general: a MultiLineString adds the number of its lines, a MultiPolygon the
  number of rings of its first polygon, and an empty LineString adds one. The theorem
  evaluates the source on one input of each kind, next to the count that the claim
  prescribes.
\<close>

theorem calculateStats_multi_geometry:
  "nodes (calculateStats
     [\<lparr>geometry = Some (MultiLineString [[(0, 0), (1, 1), (2, 2)]]), properties = None\<rparr>]) = 1 \<and>
   spec_nodeCount
     [\<lparr>geometry = Some (MultiLineString [[(0, 0), (1, 1), (2, 2)]]), properties = None\<rparr>] = 3 \<and>
   nodes (calculateStats
     [\<lparr>geometry = Some (MultiPolygon [[[(0, 0), (1, 0), (1, 1), (0, 0)]]]), properties = None\<rparr>]) = 1 \<and>
   spec_nodeCount
     [\<lparr>geometry = Some (MultiPolygon [[[(0, 0), (1, 0), (1, 1), (0, 0)]]]), properties = None\<rparr>] = 4 \<and>
   nodes (calculateStats [\<lparr>geometry = Some (LineString []), properties = None\<rparr>]) = 1 \<and>
   spec_nodeCount [\<lparr>geometry = Some (LineString []), properties = None\<rparr>] = 0"
  by (simp add: calculateStats_def countFeature_def spec_nodeCount_def spec_vertices_def)

subsection \<open>Key derivation\<close>

text \<open>
  Claim C4, as stated, fails: a property that is present with a falsy value (an empty
  string, \<open>0\<close>, \<open>false\<close>, \<open>null\<close>) is passed over. The feature below has an empty
  \<open>sequence_id\<close> and the \<open>id\<close> \<open>7\<close>: the first property present gives the key \<open>''''\<close>, the
  source gives \<open>7\<close>.
\<close>

theorem sequenceId_presence_counterexample:
  "claimed_sequenceId
     \<lparr>geometry = None, properties = Some [''sequence_id'' \<mapsto> JStr [], ''id'' \<mapsto> JStr ''7'']\<rparr>
     = Some [] \<and>
   sequenceId_of ''k3j9x0q2a''
     \<lparr>geometry = None, properties = Some [''sequence_id'' \<mapsto> JStr [], ''id'' \<mapsto> JStr ''7'']\<rparr>
     = ''7''"
  by (simp add: claimed_sequenceId_def sequenceId_of_def getProp_def orElse_def)

text \<open>
  Claim C4, amended. The key is the string of the first of \<open>sequence_id\<close>, \<open>sequenceId\<close>,
  \<open>sequence\<close>, \<open>id\<close>, \<open>seq\<close> whose value is truthy. When one is truthy the key does not
  depend on the random draw, so it is a function of the feature alone. When none is, the
  key is \<open>sequence_\<close> followed by the random string (the \<open>id\<close> inside the template is falsy
  at that point, so it never contributes).
\<close>

theorem sequenceId_first_truthy:
  "sequenceId_of r feature =
     (case filter truthy
             (map (getProp feature) [''sequence_id'', ''sequenceId'', ''sequence'', ''id'', ''seq'']) of
        [] \<Rightarrow> ''sequence_'' @ r
      | v # _ \<Rightarrow> ToString v) \<and>
   (keyed feature \<longrightarrow> sequenceId_of r feature = sequenceId_of r' feature) \<and>
   (\<not> keyed feature \<longrightarrow> sequenceId_of r feature = ''sequence_'' @ r)"
  by (simp add: sequenceId_of_def keyed_def orElse_def)

theorem sequenceId_first_truthy_witness:
  "sequenceId_of ''k3j9x0q2a''
     \<lparr>geometry = None, properties = Some [''sequence_id'' \<mapsto> JStr [], ''id'' \<mapsto> JStr ''7'']\<rparr>
     = ''7'' \<and>
   sequenceId_of ''zzz''
     \<lparr>geometry = None, properties = Some [''sequence_id'' \<mapsto> JStr [], ''id'' \<mapsto> JStr ''7'']\<rparr>
     = ''7'' \<and>
   sequenceId_of ''k3j9x0q2a''
     \<lparr>geometry = None, properties = Some [''sequence_id'' \<mapsto> JStr [], ''id'' \<mapsto> JNum 0]\<rparr>
     = ''sequence_k3j9x0q2a''"
  using sequenceId_first_truthy[of "''k3j9x0q2a''"
      "\<lparr>geometry = None, properties = Some [''sequence_id'' \<mapsto> JStr [], ''id'' \<mapsto> JStr ''7'']\<rparr>"
      "''zzz''", THEN conjunct1]
    sequenceId_first_truthy[of "''zzz''"
      "\<lparr>geometry = None, properties = Some [''sequence_id'' \<mapsto> JStr [], ''id'' \<mapsto> JStr ''7'']\<rparr>"
      "''zzz''", THEN conjunct1]
    sequenceId_first_truthy[of "''k3j9x0q2a''"
      "\<lparr>geometry = None, properties = Some [''sequence_id'' \<mapsto> JStr [], ''id'' \<mapsto> JNum 0]\<rparr>"
      "''zzz''", THEN conjunct1]
  by (simp add: getProp_def)

subsection \<open>Status is kept across re-aggregation\<close>

lemma find_findIndex:
  "find P xs = Some x \<Longrightarrow>
   \<exists>i. findIndex P xs = int i \<and> i < length xs \<and> xs ! i = x \<and> P x"
proof (induction xs)
  case Nil
  then show ?case by simp
next
  case (Cons y ys)
  show ?case
  proof (cases "P y")
    case True
    with Cons.prems show ?thesis by auto
  next
    case False
    with Cons.prems have "find P ys = Some x" by simp
    from Cons.IH[OF this] obtain i where
      "findIndex P ys = int i" "i < length ys" "ys ! i = x" "P x" by blast
    then show ?thesis using False by (intro exI[of _ "Suc i"]) (simp add: Let_def)
  qed
qed

lemma sequences_updateStatus:
  "sequences (updateStatus st K s) =
     (case find (\<lambda>q. seq_id q = K) (sequences st) of
        None \<Rightarrow> sequences st
      | Some found \<Rightarrow>
          (sequences st)[nat (findIndex (\<lambda>q. seq_id q = K) (sequences st)) :=
             found\<lparr>status := Some s\<rparr>])"
  by (simp add: updateStatus_def Let_def split: option.splits)

lemma updateStatus_effect:
  assumes d: "distinct (map seq_id (sequences st))"
  shows "map seq_id (sequences (updateStatus st K s)) = map seq_id (sequences st) \<and>
         (\<forall>q \<in> set (sequences (updateStatus st K s)).
            (seq_id q = K \<longrightarrow> status q = Some s) \<and>
            (seq_id q \<noteq> K \<longrightarrow> q \<in> set (sequences st)))"
proof (cases "find (\<lambda>q. seq_id q = K) (sequences st)")
  case None
  then have "\<forall>q \<in> set (sequences st). seq_id q \<noteq> K"
    by (simp add: find_None_iff)
  with None show ?thesis by (simp add: sequences_updateStatus)
next
  case (Some found)
  let ?xs = "sequences st"
  from find_findIndex[OF Some] obtain i where
    i: "findIndex (\<lambda>q. seq_id q = K) ?xs = int i" "i < length ?xs" "?xs ! i = found"
       "seq_id found = K"
    by blast
  let ?y = "found\<lparr>status := Some s\<rparr>"
  have new: "sequences (updateStatus st K s) = ?xs[i := ?y]"
    by (simp add: sequences_updateStatus Some i(1))
  have ids: "map seq_id (?xs[i := ?y]) = map seq_id ?xs"
    using i by (simp add: map_update list_update_same_conv)
  have "(seq_id q = K \<longrightarrow> status q = Some s) \<and> (seq_id q \<noteq> K \<longrightarrow> q \<in> set ?xs)"
    if q: "q \<in> set (?xs[i := ?y])" for q
  proof -
    from q obtain j where j: "j < length ?xs" "?xs[i := ?y] ! j = q"
      by (metis in_set_conv_nth length_list_update)
    show ?thesis
    proof (cases "j = i")
      case True
      with j i have "q = ?y" by simp
      then show ?thesis using i(4) by simp
    next
      case False
      with j have qj: "q = ?xs ! j" by simp
      have "seq_id (?xs ! j) \<noteq> seq_id (?xs ! i)"
        using d False j(1) i(2) by (simp add: distinct_conv_nth)
      with qj i j show ?thesis by simp
    qed
  qed
  then show ?thesis by (simp add: new ids)
qed

lemma sequenceId_keyed:
  "keyed feature \<Longrightarrow> sequenceId_of r feature = sequenceId_of r' feature"
  by (auto simp: sequenceId_of_def keyed_def orElse_def)

lemma update_keys: "fst ` set (AList.update k v m) = insert k (fst ` set m)"
  by (induction m) auto

lemma groupFeature_keys:
  "fst ` set (snd (groupFeature e esm f acc)) =
     insert (sequenceId_of (random e (fst acc)) f) (fst ` set (snd acc))"
proof -
  let ?k = "sequenceId_of (random e (fst acc)) f"
  have keys: "fst ` set (AList.map_entry ?k g m) = fst ` set m" for g and m :: "(string \<times> group) list"
    using map_entry_keys[of ?k g m] by (metis set_map)
  show ?thesis
  proof (cases "Map_has (snd acc) ?k")
    case True
    then have "?k \<in> fst ` set (snd acc)"
      by (auto simp: Map_has_def map_of_eq_None_iff)
    with True show ?thesis
      by (auto simp: groupFeature_def Let_def keys)
  next
    case False
    then show ?thesis
      by (simp add: groupFeature_def Let_def keys update_keys)
  qed
qed

lemma fold_groupFeature_keys_mono:
  "fst ` set (snd acc) \<subseteq> fst ` set (snd (fold (groupFeature e esm) fs acc))"
proof (induction fs arbitrary: acc)
  case Nil
  then show ?case by simp
next
  case (Cons f fs)
  have "fst ` set (snd acc) \<subseteq> fst ` set (snd (groupFeature e esm f acc))"
    by (auto simp: groupFeature_keys)
  also have "\<dots> \<subseteq> fst ` set (snd (fold (groupFeature e esm) fs (groupFeature e esm f acc)))"
    by (rule Cons.IH)
  finally show ?case by simp
qed

lemma fold_groupFeature_keyed:
  "f \<in> set fs \<Longrightarrow> keyed f \<Longrightarrow>
   sequenceId_of r f \<in> fst ` set (snd (fold (groupFeature e esm) fs acc))"
proof (induction fs arbitrary: acc)
  case Nil
  then show ?case by simp
next
  case (Cons x fs)
  show ?case
  proof (cases "f = x")
    case True
    have "sequenceId_of r f = sequenceId_of (random e (fst acc)) f"
      using Cons.prems(2) by (rule sequenceId_keyed)
    then have "sequenceId_of r f \<in> fst ` set (snd (groupFeature e esm x acc))"
      using True by (simp add: groupFeature_keys)
    then show ?thesis
      using fold_groupFeature_keys_mono[of "groupFeature e esm x acc" e esm fs] by auto
  next
    case False
    with Cons.prems have "f \<in> set fs" by simp
    from Cons.IH[OF this Cons.prems(2)] show ?thesis by simp
  qed
qed

lemma async_ids:
  "seq_id ` set (sequences (processGeoJSONAsync e st (Some fs))) =
     fst ` set (snd (fold (groupFeature e (existingStatusMap (sequences st))) fs (0, [])))"
proof -
  let ?m = "snd (fold (groupFeature e (existingStatusMap (sequences st))) fs (0, []))"
  have ok: "grouped_ok (existingStatusMap (sequences st)) ?m"
    by (rule grouped_ok_fold) (simp add: grouped_ok_def)
  then have "map seq_id (map withStats (map snd ?m)) = map fst ?m"
    by (auto simp: grouped_ok_def)
  then have "seq_id ` set (map withStats (map snd ?m)) = fst ` set ?m"
    by (metis set_map)
  then show ?thesis by (simp add: sequences_async set_js_sort)
qed

lemma async_keeps_keyed:
  assumes "f \<in> set fs" "keyed f"
  shows "\<exists>q \<in> set (sequences (processGeoJSONAsync e st (Some fs))). seq_id q = sequenceId_of r f"
proof -
  from fold_groupFeature_keyed[OF assms, of r e "existingStatusMap (sequences st)" "(0, [])"]
  have "sequenceId_of r f \<in> seq_id ` set (sequences (processGeoJSONAsync e st (Some fs)))"
    by (simp add: async_ids)
  then show ?thesis by auto
qed

lemma sequences_uploadFeatures:
  "newFeatures \<noteq> [] \<Longrightarrow>
   sequences (uploadFeatures e st newFeatures) =
     sequences (processGeoJSONAsync e st
        (Some ((case geojsonData st of None \<Rightarrow> [] | Some fs \<Rightarrow> fs) @ newFeatures)))"
  by (simp add: uploadFeatures_def Let_def processGeoJSON_async_sync sequences_async)

lemma upload_keeps_keyed_status:
  assumes d: "distinct (map seq_id (sequences st))"
      and p: "p \<in> set (sequences st)" "status p = Some s"
      and f: "geojsonData st = Some fs" "f \<in> set fs" "keyed f" "sequenceId_of r f = seq_id p"
  shows "\<exists>q \<in> set (sequences (uploadFeatures e st newFeatures)).
           seq_id q = seq_id p \<and> status q = Some s"
proof (cases "newFeatures = []")
  case True
  then show ?thesis using p by (auto simp: uploadFeatures_def)
next
  case False
  let ?all = "fs @ newFeatures"
  have "f \<in> set ?all" using f(2) by simp
  from async_keeps_keyed[OF this f(3), of e st r] obtain q where
    q: "q \<in> set (sequences (processGeoJSONAsync e st (Some ?all)))" "seq_id q = seq_id p"
    using f(4) by auto
  have "status q = Some s"
    using async_status[OF q(1)] existingStatusMap_in[OF d p] q(2) by simp
  with q show ?thesis
    using sequences_uploadFeatures[OF False, of e st] f(1) by auto
qed

text \<open>A state with two sequences, \<open>A\<close> done and \<open>B\<close> skipped, for a concrete run.\<close>

definition feature_of :: "string \<Rightarrow> coord \<Rightarrow> feature" where
  "feature_of k c = \<lparr>geometry = Some (Point c), properties = Some [''sequence_id'' \<mapsto> JStr k]\<rparr>"

definition state0 :: state where
  "state0 =
     \<lparr>sequences =
        [\<lparr>seq_id = ''A'', seq_features = [feature_of ''A'' (103, 1)], status = Some ''done'',
          date = ''1/1/2025'', featureCount = 1, nodeCount = 1, wayCount = 0\<rparr>,
         \<lparr>seq_id = ''B'', seq_features = [feature_of ''B'' (104, 1)], status = Some ''skipped'',
          date = ''1/1/2025'', featureCount = 1, nodeCount = 1, wayCount = 0\<rparr>],
      currentIndex = 0, currentView = ''all'',
      geojsonData = Some [feature_of ''A'' (103, 1), feature_of ''B'' (104, 1)]\<rparr>"

lemma reaggregation_example:
  "map (\<lambda>q. (seq_id q, status q, featureCount q))
     (sequences (processGeoJSONAsync env0 state0
        (Some [feature_of ''C'' (105, 1), feature_of ''A'' (103, 1), feature_of ''A'' (103, 2)])))
   = [(''A'', Some ''done'', 2), (''C'', Some [], 1)]"
  by (simp add: sequences_async state0_def feature_of_def existingStatusMap_def
        groupFeature_def sequenceId_of_def getProp_def orElse_def keyed_def Map_has_def
        js_sort_def compareSequences_def parseInt_def is_space_def digit_value_def
        withStats_def calculateStats_def countFeature_def env0_def Let_def)

text \<open>
  A state whose only sequence holds a feature without any key property, under the
  synthetic key that was drawn for it, marked done.
\<close>

definition keyless :: feature where
  "keyless = \<lparr>geometry = Some (Point (103, 1)), properties = Some Map.empty\<rparr>"

definition state1 :: state where
  "state1 =
     \<lparr>sequences =
        [\<lparr>seq_id = ''sequence_k3j9x0q2a'', seq_features = [keyless], status = Some ''done'',
          date = ''1/1/2025'', featureCount = 1, nodeCount = 1, wayCount = 0\<rparr>],
      currentIndex = 0, currentView = ''all'', geojsonData = Some [keyless]\<rparr>"

text \<open>
  Claim C2, as stated, fails: a key that existed before has a status afterwards only if
  some feature of the regrouped list derives that key. Here a keyed feature is uploaded to
  \<open>state1\<close>. The stored keyless feature is regrouped with it and draws a new key, so the
  key that was marked done is gone and the same feature sits in a sequence with the blank
  status.
\<close>

theorem reaggregation_drops_key_counterexample:
  "map (\<lambda>q. (seq_id q, status q, seq_features q)) (sequences state1) =
     [(''sequence_k3j9x0q2a'', Some ''done'', [keyless])] \<and>
   geojsonData state1 = Some [keyless] \<and>
   map (\<lambda>q. (seq_id q, status q, seq_features q))
     (sequences (uploadFeatures env0 state1 [feature_of ''A'' (104, 1)])) =
     [(''A'', Some [], [feature_of ''A'' (104, 1)]), (''sequence_r0'', Some [], [keyless])]"
  by (simp add: sequences_uploadFeatures sequences_async state1_def keyless_def feature_of_def
        existingStatusMap_def groupFeature_def sequenceId_of_def getProp_def orElse_def keyed_def
        Map_has_def js_sort_def compareSequences_def parseInt_def is_space_def digit_value_def
        withStats_def calculateStats_def countFeature_def env0_def string_of_nat.simps
        digit_char_def Let_def)

text \<open>
  Claim C2, amended. After re-aggregation of any feature list, by either method, every
  sequence of the result has the status that \<open>existingStatusMap\<close> recorded for its id, or
  the blank status when its id was not recorded: with distinct ids before, a sequence whose
  id existed with status \<open>s\<close> has status \<open>s\<close>, and a sequence whose id did not exist has the
  blank status. The ids of the result are distinct, and the key of every feature of the
  list that has a truthy key property is among them. Hence an upload keeps, with its
  status, every sequence whose key is that of a stored feature with a truthy key property.
  \<open>updateStatus\<close> keeps the order and the ids of the sequences, gives the new status to
  the sequence with the given id and leaves every other sequence as it was.
\<close>

theorem reaggregation_keeps_status:
  "(\<forall>q \<in> set (sequences (processGeoJSONAsync e st (Some fs))).
       status q = Some (case existingStatusMap (sequences st) (seq_id q) of
                          Some s \<Rightarrow> s | None \<Rightarrow> []) \<and>
       (distinct (map seq_id (sequences st)) \<longrightarrow>
          (\<forall>p \<in> set (sequences st). \<forall>s.
              seq_id p = seq_id q \<and> status p = Some s \<longrightarrow> status q = Some s)) \<and>
       (seq_id q \<notin> seq_id ` set (sequences st) \<longrightarrow> status q = Some [])) \<and>
   (\<forall>f \<in> set fs. keyed f \<longrightarrow>
       (\<exists>q \<in> set (sequences (processGeoJSONAsync e st (Some fs))). seq_id q = sequenceId_of r f)) \<and>
   processGeoJSON e st (Some fs) = Inr (processGeoJSONAsync e st (Some fs)) \<and>
   distinct (map seq_id (sequences (processGeoJSONAsync e st (Some fs)))) \<and>
   (distinct (map seq_id (sequences st)) \<longrightarrow>
      (\<forall>p \<in> set (sequences st). \<forall>s f old.
          status p = Some s \<and> geojsonData st = Some old \<and> f \<in> set old \<and> keyed f \<and>
          sequenceId_of r f = seq_id p \<longrightarrow>
          (\<exists>q \<in> set (sequences (uploadFeatures e st newFeatures)).
              seq_id q = seq_id p \<and> status q = Some s)) \<and>
      map seq_id (sequences (updateStatus st K s')) = map seq_id (sequences st) \<and>
      (\<forall>q \<in> set (sequences (updateStatus st K s')).
          (seq_id q = K \<longrightarrow> status q = Some s') \<and>
          (seq_id q \<noteq> K \<longrightarrow> q \<in> set (sequences st))))"
proof -
  have A: "status q = Some (case existingStatusMap (sequences st) (seq_id q) of
                              Some s \<Rightarrow> s | None \<Rightarrow> [])"
    if "q \<in> set (sequences (processGeoJSONAsync e st (Some fs)))" for q
    using that by (rule async_status)
  have B: "status q = Some s"
    if "q \<in> set (sequences (processGeoJSONAsync e st (Some fs)))"
      "distinct (map seq_id (sequences st))"
      "p \<in> set (sequences st)" "seq_id p = seq_id q" "status p = Some s" for q p s
    using A[OF that(1)] existingStatusMap_in[OF that(2) that(3) that(5)] that(4) by simp
  have C: "status q = Some []"
    if "q \<in> set (sequences (processGeoJSONAsync e st (Some fs)))"
      "seq_id q \<notin> seq_id ` set (sequences st)" for q
    using A[OF that(1)] existingStatusMap_notin[OF that(2)] by simp
  have D: "\<exists>q \<in> set (sequences (processGeoJSONAsync e st (Some fs))). seq_id q = sequenceId_of r f"
    if "f \<in> set fs" "keyed f" for f
    using that by (rule async_keeps_keyed)
  have E: "\<exists>q \<in> set (sequences (uploadFeatures e st newFeatures)).
              seq_id q = seq_id p \<and> status q = Some s"
    if "distinct (map seq_id (sequences st))" "p \<in> set (sequences st)" "status p = Some s"
      "geojsonData st = Some old" "f \<in> set old" "keyed f" "sequenceId_of r f = seq_id p"
    for p s f old
    using that by (rule upload_keeps_keyed_status)
  have F: "map seq_id (sequences (updateStatus st K s')) = map seq_id (sequences st) \<and>
      (\<forall>q \<in> set (sequences (updateStatus st K s')).
          (seq_id q = K \<longrightarrow> status q = Some s') \<and>
          (seq_id q \<noteq> K \<longrightarrow> q \<in> set (sequences st)))"
    if "distinct (map seq_id (sequences st))"
    using that by (rule updateStatus_effect)
  have first: "\<forall>q \<in> set (sequences (processGeoJSONAsync e st (Some fs))).
       status q = Some (case existingStatusMap (sequences st) (seq_id q) of
                          Some s \<Rightarrow> s | None \<Rightarrow> []) \<and>
       (distinct (map seq_id (sequences st)) \<longrightarrow>
          (\<forall>p \<in> set (sequences st). \<forall>s.
              seq_id p = seq_id q \<and> status p = Some s \<longrightarrow> status q = Some s)) \<and>
       (seq_id q \<notin> seq_id ` set (sequences st) \<longrightarrow> status q = Some [])"
    using A B C by blast
  have last: "distinct (map seq_id (sequences st)) \<longrightarrow>
      (\<forall>p \<in> set (sequences st). \<forall>s f old.
          status p = Some s \<and> geojsonData st = Some old \<and> f \<in> set old \<and> keyed f \<and>
          sequenceId_of r f = seq_id p \<longrightarrow>
          (\<exists>q \<in> set (sequences (uploadFeatures e st newFeatures)).
              seq_id q = seq_id p \<and> status q = Some s)) \<and>
      map seq_id (sequences (updateStatus st K s')) = map seq_id (sequences st) \<and>
      (\<forall>q \<in> set (sequences (updateStatus st K s')).
          (seq_id q = K \<longrightarrow> status q = Some s') \<and>
          (seq_id q \<noteq> K \<longrightarrow> q \<in> set (sequences st)))"
    using E F by blast
  show ?thesis
    using first D last processGeoJSON_async_sync[of e st fs] async_distinct[of e st fs]
    by blast
qed

lemma upload_example:
  "map (\<lambda>q. (seq_id q, status q))
     (sequences (uploadFeatures env0 state0 [feature_of ''C'' (105, 1)])) =
     [(''A'', Some ''done''), (''B'', Some ''skipped''), (''C'', Some [])]"
  by (simp add: sequences_uploadFeatures sequences_async state0_def feature_of_def
        existingStatusMap_def groupFeature_def sequenceId_of_def getProp_def orElse_def keyed_def
        Map_has_def js_sort_def compareSequences_def parseInt_def is_space_def digit_value_def
        withStats_def calculateStats_def countFeature_def env0_def Let_def)

theorem reaggregation_keeps_status_witness:
  "distinct (map seq_id (sequences state0)) \<and>
   map (\<lambda>q. (seq_id q, status q, featureCount q))
     (sequences (processGeoJSONAsync env0 state0
        (Some [feature_of ''C'' (105, 1), feature_of ''A'' (103, 1), feature_of ''A'' (103, 2)])))
   = [(''A'', Some ''done'', 2), (''C'', Some [], 1)] \<and>
   processGeoJSON env0 state0
        (Some [feature_of ''C'' (105, 1), feature_of ''A'' (103, 1), feature_of ''A'' (103, 2)])
   = Inr (processGeoJSONAsync env0 state0
        (Some [feature_of ''C'' (105, 1), feature_of ''A'' (103, 1), feature_of ''A'' (103, 2)])) \<and>
   map (\<lambda>q. (seq_id q, status q))
     (sequences (uploadFeatures env0 state0 [feature_of ''C'' (105, 1)])) =
     [(''A'', Some ''done''), (''B'', Some ''skipped''), (''C'', Some [])] \<and>
   map (\<lambda>q. (seq_id q, status q)) (sequences (updateStatus state0 ''B'' ''done''))
   = [(''A'', Some ''done''), (''B'', Some ''done'')]"
proof -
  have d: "distinct (map seq_id (sequences state0))"
    by (simp add: state0_def)
  have u: "map (\<lambda>q. (seq_id q, status q)) (sequences (updateStatus state0 ''B'' ''done''))
             = [(''A'', Some ''done''), (''B'', Some ''done'')]"
    by (simp add: sequences_updateStatus state0_def Let_def)
  show ?thesis
    using reaggregation_keeps_status[of env0 state0
        "[feature_of ''C'' (105, 1), feature_of ''A'' (103, 1), feature_of ''A'' (103, 2)]"
        "''x''" "[feature_of ''C'' (105, 1)]" "''B''" "''done''"]
    by (simp add: d u reaggregation_example upload_example)
qed

subsection \<open>The comparator and the sort\<close>






paragraph \<open>The nearest double\<close>


lemma bit_length_upper: "n < 2 ^ bit_length n"
proof (induction n rule: bit_length.induct)
  case (1 n)
  show ?case
  proof (cases "n = 0")
    case True
    then show ?thesis by simp
  next
    case False
    from "1.IH"[OF False] have ih: "n div 2 < 2 ^ bit_length (n div 2)" .
    have bl: "bit_length n = Suc (bit_length (n div 2))"
      using False by (subst bit_length.simps) simp
    have "n < 2 * (n div 2 + 1)" by simp
    also have "\<dots> \<le> 2 * 2 ^ bit_length (n div 2)" using ih by simp
    finally show ?thesis by (simp add: bl)
  qed
qed





lemma digit_char_mem: "d < 10 \<Longrightarrow> digit_char d \<in> set ''0123456789''"
  unfolding digit_char_def by (rule nth_mem) simp

lemma string_of_nat_digits: "set (string_of_nat n) \<subseteq> set ''0123456789''"
proof (induction n rule: string_of_nat.induct)
  case (1 n)
  show ?case
  proof (cases "n < 10")
    case True
    then show ?thesis using digit_char_mem[OF True] by (subst string_of_nat.simps) simp
  next
    case False
    have "n mod 10 < 10" by simp
    from digit_char_mem[OF this] "1.IH"[OF False] False
    show ?thesis by (subst string_of_nat.simps) simp
  qed
qed
























section \<open>Export to OSM XML\<close>

text \<open>
  \<open>extractCoordinates\<close> flattens a geometry: a Point is its own coordinate, a Polygon gives
  its first ring, a MultiLineString all its lines, a MultiPolygon the first ring of each
  polygon; a geometry of an unknown type gives nothing.
\<close>

fun extractCoordinates :: "geometry \<Rightarrow> coord list" where
  "extractCoordinates (Point c) = [c]"
| "extractCoordinates (LineString cs) = cs"
| "extractCoordinates (Polygon rs) = (case rs of [] \<Rightarrow> [] | r # _ \<Rightarrow> r)"
| "extractCoordinates (MultiLineString ls) = concat ls"
| "extractCoordinates (MultiPolygon ps) = concat (map (\<lambda>polygon. case polygon of [] \<Rightarrow> [] | r # _ \<Rightarrow> r) ps)"
| "extractCoordinates (GeometryOther t) = []"

definition featureCoords :: "feature \<Rightarrow> coord list option" where
  "featureCoords feature = map_option extractCoordinates (geometry feature)"

text \<open>
  The values of \<open>nodeMap\<close> and the ways that the second loop writes. \<open>coordKey\<close> is the
  key \<^verbatim>\<open>`${lat.toFixed(7)},${lon.toFixed(7)}`\<close>; the parameter \<open>fix7\<close> stands for
  \<open>toFixed(7)\<close>.
\<close>

record osm_node =
  node_id :: int
  lat :: real
  lon :: real

record osm_way =
  way_id :: int
  refs :: "int list"
  highway :: string

definition coordKey :: "(real \<Rightarrow> string) \<Rightarrow> coord \<Rightarrow> string" where
  "coordKey fix7 coord = (let lon = fst coord; lat = snd coord in fix7 lat @ '','' @ fix7 lon)"

text \<open>
  The first loop: \<open>addNode\<close> is its body for one coordinate, on the pair
  \<open>(nodeId, nodeMap)\<close>; \<open>addFeatureNodes\<close> runs it over the coordinates of a feature that
  has a geometry; \<open>buildNodeMap\<close> runs that over the features, from \<open>(-1000, {})\<close>.
\<close>

definition addNode ::
  "(real \<Rightarrow> string) \<Rightarrow> coord \<Rightarrow> int \<times> (string \<times> osm_node) list \<Rightarrow> int \<times> (string \<times> osm_node) list" where
  "addNode fix7 coord acc =
     (let nodeId = fst acc; nodeMap = snd acc; key = coordKey fix7 coord
      in if \<not> Map_has nodeMap key
         then (nodeId - 1,
               AList.update key \<lparr>node_id = nodeId, lat = snd coord, lon = fst coord\<rparr> nodeMap)
         else (nodeId, nodeMap))"

definition addFeatureNodes ::
  "(real \<Rightarrow> string) \<Rightarrow> feature \<Rightarrow> int \<times> (string \<times> osm_node) list \<Rightarrow> int \<times> (string \<times> osm_node) list" where
  "addFeatureNodes fix7 feature acc =
     (case geometry feature of
        None \<Rightarrow> acc
      | Some g \<Rightarrow> fold (addNode fix7) (extractCoordinates g) acc)"

definition buildNodeMap :: "(real \<Rightarrow> string) \<Rightarrow> feature list \<Rightarrow> (string \<times> osm_node) list" where
  "buildNodeMap fix7 fs = snd (fold (addFeatureNodes fix7) fs (- 1000, []))"

text \<open>
  The second loop: \<open>ndRefs\<close> are the \<open>ref\<close>s written for the coordinates of a feature (a
  coordinate whose key is not in \<open>nodeMap\<close> writes none), \<open>addWay\<close> is the body for one
  feature, on the pair of \<open>wayId\<close> and the ways written so far.
\<close>

definition ndRefs :: "(real \<Rightarrow> string) \<Rightarrow> (string \<times> osm_node) list \<Rightarrow> coord list \<Rightarrow> int list" where
  "ndRefs fix7 nodeMap coords =
     concat (map (\<lambda>coord. case map_of nodeMap (coordKey fix7 coord) of
                              Some node \<Rightarrow> [node_id node]
                            | None \<Rightarrow> []) coords)"

definition addWay ::
  "(real \<Rightarrow> string) \<Rightarrow> (string \<times> osm_node) list \<Rightarrow> feature \<Rightarrow> int \<times> osm_way list \<Rightarrow> int \<times> osm_way list" where
  "addWay fix7 nodeMap feature acc =
     (case geometry feature of
        None \<Rightarrow> acc
      | Some g \<Rightarrow>
          let coords = extractCoordinates g; wayId = fst acc
          in if length coords < 2 then acc
             else (wayId - 1,
                   snd acc @
                   [\<lparr>way_id = wayId, refs = ndRefs fix7 nodeMap coords,
                     highway = ToString (orElse (getProp feature ''highway'')
                                           (Some (JStr ''unclassified'')))\<rparr>]))"

definition buildWays :: "(real \<Rightarrow> string) \<Rightarrow> (string \<times> osm_node) list \<Rightarrow> feature list \<Rightarrow> osm_way list" where
  "buildWays fix7 nodeMap fs = snd (fold (addWay fix7 nodeMap) fs (- 1000, []))"

text \<open>
  The text of the document. \<open>replaceAll c r\<close> is \<open>.replace(/c/g, r)\<close> for a single
  character \<open>c\<close>; the characters \<open>"\<close> and \<open>'\<close> are \<open>CHR 0x22\<close> and \<open>CHR 0x27\<close>, a line feed
  is \<open>CHR 0x0A\<close>. The source appends the text of each way as it goes through the features;
  here the ways are collected first and written in the same order.
\<close>

definition replaceAll :: "char \<Rightarrow> string \<Rightarrow> string \<Rightarrow> string" where
  "replaceAll c r s = concat (map (\<lambda>x. if x = c then r else [x]) s)"

definition escapeXml :: "string \<Rightarrow> string" where
  "escapeXml text =
     replaceAll (CHR 0x27) ''&apos;''
       (replaceAll (CHR 0x22) ''&quot;''
         (replaceAll CHR ''>'' ''&gt;''
           (replaceAll CHR ''<'' ''&lt;''
             (replaceAll CHR ''&'' ''&amp;'' text))))"

definition renderNode :: "(real \<Rightarrow> string) \<Rightarrow> osm_node \<Rightarrow> string" where
  "renderNode fix7 node =
     ''  <node id='' @ [CHR 0x22] @ string_of_int (node_id node) @ [CHR 0x22] @
     '' lat='' @ [CHR 0x22] @ fix7 (lat node) @ [CHR 0x22] @
     '' lon='' @ [CHR 0x22] @ fix7 (lon node) @ [CHR 0x22] @
     '' version='' @ [CHR 0x22] @ ''1'' @ [CHR 0x22] @ '' />'' @ [CHR 0x0A]"

definition renderWay :: "osm_way \<Rightarrow> string" where
  "renderWay way =
     ''  <way id='' @ [CHR 0x22] @ string_of_int (way_id way) @ [CHR 0x22] @
     '' version='' @ [CHR 0x22] @ ''1'' @ [CHR 0x22] @ ''>'' @ [CHR 0x0A] @
     concat (map (\<lambda>r. ''    <nd ref='' @ [CHR 0x22] @ string_of_int r @ [CHR 0x22] @ '' />'' @ [CHR 0x0A])
               (refs way)) @
     ''    <tag k='' @ [CHR 0x22] @ ''highway'' @ [CHR 0x22] @ '' v='' @ [CHR 0x22] @
       escapeXml (highway way) @ [CHR 0x22] @ '' />'' @ [CHR 0x0A] @
     ''  </way>'' @ [CHR 0x0A]"

definition osmHeader :: "env \<Rightarrow> sequence \<Rightarrow> string" where
  "osmHeader e sequence =
     ''<?xml version='' @ [CHR 0x22] @ ''1.0'' @ [CHR 0x22] @ '' encoding='' @ [CHR 0x22] @ ''UTF-8'' @
       [CHR 0x22] @ ''?>'' @ [CHR 0x0A] @
     ''<osm version='' @ [CHR 0x22] @ ''0.6'' @ [CHR 0x22] @ '' generator='' @ [CHR 0x22] @
       ''OSMAGIC Task Manager'' @ [CHR 0x22] @ ''>'' @ [CHR 0x0A] @
     ''  <!-- Sequence ID: '' @ seq_id sequence @ '' -->'' @ [CHR 0x0A] @
     ''  <!-- Features: '' @ string_of_nat (featureCount sequence) @ '' -->'' @ [CHR 0x0A] @
     ''  <!-- Generated: '' @ nowISO e @ '' -->'' @ [CHR 0x0A, CHR 0x0A]"

definition generateJOSM :: "env \<Rightarrow> (real \<Rightarrow> string) \<Rightarrow> sequence \<Rightarrow> string" where
  "generateJOSM e fix7 sequence =
     (let nodeMap = buildNodeMap fix7 (seq_features sequence);
          ways = buildWays fix7 nodeMap (seq_features sequence)
      in osmHeader e sequence @
         concat (map (renderNode fix7) (map snd nodeMap)) @
         [CHR 0x0A] @
         concat (map renderWay ways) @
         ''</osm>'')"

text \<open>
  \<open>toFixed(7)\<close> on a real number, as the language standard defines it for a finite number
  below \<open>10^21\<close> in magnitude: with \<open>n\<close> the integer nearest to \<open>|x| * 10^7\<close> (the larger
  one on a tie), the digits of \<open>n\<close> with a point before the last seven, and a minus sign
  when \<open>x < 0\<close>. It is used for concrete runs.
\<close>

definition toFixed7 :: "real \<Rightarrow> string" where
  "toFixed7 x =
     (let n = nat \<lfloor>\<bar>x\<bar> * 10 ^ 7 + 1 / 2\<rfloor>;
          frac = string_of_nat (n mod 10 ^ 7)
      in (if x < 0 then ''-'' else []) @ string_of_nat (n div 10 ^ 7) @ ''.'' @
         replicate (7 - length frac) CHR ''0'' @ frac)"

subsection \<open>Nodes and ways that the export writes\<close>

text \<open>
  The nodes and the ways that \<open>generateJOSM\<close> writes for a sequence, and notions to state
  properties of them: the coordinates of a feature (none without geometry), whether a way
  is written for it, the key of a node, and the id of the node stored under the key of a
  coordinate.
\<close>

definition osmNodes :: "(real \<Rightarrow> string) \<Rightarrow> sequence \<Rightarrow> osm_node list" where
  "osmNodes fix7 sequence = map snd (buildNodeMap fix7 (seq_features sequence))"

definition osmWays :: "(real \<Rightarrow> string) \<Rightarrow> sequence \<Rightarrow> osm_way list" where
  "osmWays fix7 sequence =
     buildWays fix7 (buildNodeMap fix7 (seq_features sequence)) (seq_features sequence)"

definition coordsOf :: "feature \<Rightarrow> coord list" where
  "coordsOf feature = (case geometry feature of None \<Rightarrow> [] | Some g \<Rightarrow> extractCoordinates g)"

definition hasWay :: "feature \<Rightarrow> bool" where
  "hasWay feature = (2 \<le> length (coordsOf feature))"

definition nodeKey :: "(real \<Rightarrow> string) \<Rightarrow> osm_node \<Rightarrow> string" where
  "nodeKey fix7 node = coordKey fix7 (lon node, lat node)"

definition nodeIdOf :: "(real \<Rightarrow> string) \<Rightarrow> sequence \<Rightarrow> coord \<Rightarrow> int" where
  "nodeIdOf fix7 sequence coord =
     (case map_of (buildNodeMap fix7 (seq_features sequence)) (coordKey fix7 coord) of
        Some node \<Rightarrow> node_id node
      | None \<Rightarrow> 0)"

text \<open>
  The invariant of the first loop: keys are distinct, every node is stored under the key
  of its own coordinate, the ids count down from \<open>-1000\<close> in insertion order, and
  \<open>nodeId\<close> is the next id.
\<close>

definition nodes_ok :: "(real \<Rightarrow> string) \<Rightarrow> int \<times> (string \<times> osm_node) list \<Rightarrow> bool" where
  "nodes_ok fix7 acc =
     (distinct (map fst (snd acc)) \<and>
      (\<forall>(k, n) \<in> set (snd acc). k = nodeKey fix7 n) \<and>
      map (node_id \<circ> snd) (snd acc) = map (\<lambda>i. - 1000 - int i) [0 ..< length (snd acc)] \<and>
      fst acc = - 1000 - int (length (snd acc)))"

lemma update_fresh': "map_of m k = None \<Longrightarrow> AList.update k v m = m @ [(k, v)]"
  by (induction m) (auto split: if_splits)

lemma addNode_ok:
  assumes "nodes_ok fix7 acc"
  shows "nodes_ok fix7 (addNode fix7 c acc)"
proof (cases "Map_has (snd acc) (coordKey fix7 c)")
  case True
  then show ?thesis using assms by (simp add: addNode_def Let_def)
next
  case False
  then have none: "map_of (snd acc) (coordKey fix7 c) = None" by (simp add: Map_has_def)
  then have fresh: "coordKey fix7 c \<notin> fst ` set (snd acc)" by (simp add: map_of_eq_None_iff)
  have step: "addNode fix7 c acc =
      (fst acc - 1, snd acc @ [(coordKey fix7 c, \<lparr>node_id = fst acc, lat = snd c, lon = fst c\<rparr>)])"
    using False by (simp add: addNode_def Let_def update_fresh'[OF none])
  show ?thesis
    using assms fresh unfolding step nodes_ok_def
    by (simp add: nodeKey_def coordKey_def Let_def)
qed

lemma addNode_keys:
  "fst ` set (snd (addNode fix7 c acc)) = insert (coordKey fix7 c) (fst ` set (snd acc))"
proof (cases "Map_has (snd acc) (coordKey fix7 c)")
  case True
  then have "coordKey fix7 c \<in> fst ` set (snd acc)"
    by (auto simp: Map_has_def map_of_eq_None_iff)
  with True show ?thesis by (auto simp: addNode_def Let_def)
next
  case False
  then have none: "map_of (snd acc) (coordKey fix7 c) = None" by (simp add: Map_has_def)
  show ?thesis using False by (simp add: addNode_def Let_def update_fresh'[OF none])
qed

lemma fold_addNode_ok:
  "nodes_ok fix7 acc \<Longrightarrow> nodes_ok fix7 (fold (addNode fix7) cs acc)"
  by (induction cs arbitrary: acc) (simp_all add: addNode_ok)

lemma fold_addNode_keys:
  "fst ` set (snd (fold (addNode fix7) cs acc)) = coordKey fix7 ` set cs \<union> fst ` set (snd acc)"
  by (induction cs arbitrary: acc) (auto simp: addNode_keys)

lemma addFeatureNodes_ok:
  "nodes_ok fix7 acc \<Longrightarrow> nodes_ok fix7 (addFeatureNodes fix7 f acc)"
  by (simp add: addFeatureNodes_def fold_addNode_ok split: option.splits)

lemma addFeatureNodes_keys:
  "fst ` set (snd (addFeatureNodes fix7 f acc)) = coordKey fix7 ` set (coordsOf f) \<union> fst ` set (snd acc)"
  by (simp add: addFeatureNodes_def coordsOf_def fold_addNode_keys split: option.splits)

lemma fold_addFeatureNodes_ok:
  "nodes_ok fix7 acc \<Longrightarrow> nodes_ok fix7 (fold (addFeatureNodes fix7) fs acc)"
  by (induction fs arbitrary: acc) (simp_all add: addFeatureNodes_ok)

lemma fold_addFeatureNodes_keys:
  "fst ` set (snd (fold (addFeatureNodes fix7) fs acc)) =
     (\<Union>f \<in> set fs. coordKey fix7 ` set (coordsOf f)) \<union> fst ` set (snd acc)"
  by (induction fs arbitrary: acc) (auto simp: addFeatureNodes_keys)

lemma buildNodeMap_ok:
  "nodes_ok fix7 (fold (addFeatureNodes fix7) fs (- 1000, []))"
  by (rule fold_addFeatureNodes_ok) (simp add: nodes_ok_def)

lemma buildNodeMap_distinct: "distinct (map fst (buildNodeMap fix7 fs))"
  using buildNodeMap_ok[of fix7 fs] by (simp add: nodes_ok_def buildNodeMap_def)

lemma buildNodeMap_key:
  "(k, n) \<in> set (buildNodeMap fix7 fs) \<Longrightarrow> k = nodeKey fix7 n"
  using buildNodeMap_ok[of fix7 fs] by (auto simp: nodes_ok_def buildNodeMap_def)

lemma buildNodeMap_ids:
  "map (node_id \<circ> snd) (buildNodeMap fix7 fs) =
     map (\<lambda>i. - 1000 - int i) [0 ..< length (buildNodeMap fix7 fs)]"
  using buildNodeMap_ok[of fix7 fs] by (simp add: nodes_ok_def buildNodeMap_def)

lemma buildNodeMap_keys:
  "fst ` set (buildNodeMap fix7 fs) = (\<Union>f \<in> set fs. coordKey fix7 ` set (coordsOf f))"
  by (simp add: buildNodeMap_def fold_addFeatureNodes_keys)

lemma buildNodeMap_found:
  assumes "f \<in> set fs" "c \<in> set (coordsOf f)"
  shows "\<exists>n. map_of (buildNodeMap fix7 fs) (coordKey fix7 c) = Some n \<and>
             n \<in> snd ` set (buildNodeMap fix7 fs) \<and> nodeKey fix7 n = coordKey fix7 c"
proof -
  have "coordKey fix7 c \<in> fst ` set (buildNodeMap fix7 fs)"
    using assms by (auto simp: buildNodeMap_keys)
  then obtain n where n: "map_of (buildNodeMap fix7 fs) (coordKey fix7 c) = Some n"
    by (metis map_of_eq_None_iff not_Some_eq)
  then have mem: "(coordKey fix7 c, n) \<in> set (buildNodeMap fix7 fs)"
    by (rule map_of_SomeD)
  from buildNodeMap_key[OF mem] mem n show ?thesis by force
qed

lemma ndRefs_found:
  assumes "\<forall>c \<in> set cs. map_of m (coordKey fix7 c) \<noteq> None"
  shows "ndRefs fix7 m cs =
           map (\<lambda>c. case map_of m (coordKey fix7 c) of Some node \<Rightarrow> node_id node | None \<Rightarrow> 0) cs"
  using assms by (induction cs) (auto simp: ndRefs_def)

lemma addWay_skip: "\<not> hasWay f \<Longrightarrow> addWay fix7 m f acc = acc"
  by (auto simp: addWay_def hasWay_def coordsOf_def Let_def split: option.splits)

lemma addWay_emit:
  "hasWay f \<Longrightarrow> addWay fix7 m f acc =
     (fst acc - 1,
      snd acc @ [\<lparr>way_id = fst acc, refs = ndRefs fix7 m (coordsOf f),
                  highway = ToString (orElse (getProp f ''highway'')
                                        (Some (JStr ''unclassified'')))\<rparr>])"
  by (auto simp: addWay_def hasWay_def coordsOf_def Let_def split: option.splits)

lemma fold_addWay_refs:
  "map refs (snd (fold (addWay fix7 m) fs acc)) =
     map refs (snd acc) @ map (\<lambda>f. ndRefs fix7 m (coordsOf f)) (filter hasWay fs)"
proof (induction fs arbitrary: acc)
  case Nil
  then show ?case by simp
next
  case (Cons f fs)
  show ?case
  proof (cases "hasWay f")
    case False
    then show ?thesis using Cons.IH[of acc] by (simp add: addWay_skip)
  next
    case True
    then show ?thesis
      using Cons.IH[of "addWay fix7 m f acc"] by (simp add: addWay_emit)
  qed
qed

lemma shift_ids: "map (\<lambda>i. w - 1 - int i) [0 ..< n] = map (\<lambda>i. w - int i) [Suc 0 ..< Suc n]"
proof -
  have "map (\<lambda>i. w - int i) [Suc 0 ..< Suc n] = map (\<lambda>i. w - int i) (map Suc [0 ..< n])"
    by (simp only: map_Suc_upt)
  also have "\<dots> = map (\<lambda>i. w - 1 - int i) [0 ..< n]"
    by simp
  finally show ?thesis by simp
qed

lemma fold_addWay_ids:
  "map way_id (snd (fold (addWay fix7 m) fs acc)) =
     map way_id (snd acc) @ map (\<lambda>i. fst acc - int i) [0 ..< length (filter hasWay fs)]"
proof (induction fs arbitrary: acc)
  case Nil
  then show ?case by simp
next
  case (Cons f fs)
  show ?case
  proof (cases "hasWay f")
    case False
    then show ?thesis using Cons.IH[of acc] by (simp add: addWay_skip)
  next
    case True
    let ?n = "length (filter hasWay fs)"
    have "map way_id (snd (fold (addWay fix7 m) (f # fs) acc)) =
          map way_id (snd acc) @ fst acc # map (\<lambda>i. fst acc - 1 - int i) [0 ..< ?n]"
      using True Cons.IH[of "addWay fix7 m f acc"] by (simp add: addWay_emit)
    also have "fst acc # map (\<lambda>i. fst acc - 1 - int i) [0 ..< ?n] =
               map (\<lambda>i. fst acc - int i) [0 ..< Suc ?n]"
      by (simp only: shift_ids) (simp add: upt_rec)
    finally show ?thesis using True by simp
  qed
qed

lemma osmWays_refs:
  "map refs (osmWays fix7 sequence) =
     map (\<lambda>f. map (nodeIdOf fix7 sequence) (coordsOf f)) (filter hasWay (seq_features sequence))"
proof -
  let ?fs = "seq_features sequence"
  let ?m = "buildNodeMap fix7 ?fs"
  have found: "ndRefs fix7 ?m (coordsOf f) = map (nodeIdOf fix7 sequence) (coordsOf f)"
    if "f \<in> set ?fs" for f
  proof -
    have "\<forall>c \<in> set (coordsOf f). map_of ?m (coordKey fix7 c) \<noteq> None"
      using buildNodeMap_found[OF that, of _ fix7] by fastforce
    from ndRefs_found[OF this] show ?thesis by (simp add: nodeIdOf_def)
  qed
  have "map refs (osmWays fix7 sequence) =
        map (\<lambda>f. ndRefs fix7 ?m (coordsOf f)) (filter hasWay ?fs)"
    by (simp add: osmWays_def buildWays_def fold_addWay_refs)
  also have "\<dots> = map (\<lambda>f. map (nodeIdOf fix7 sequence) (coordsOf f)) (filter hasWay ?fs)"
    by (rule map_cong) (auto simp: found)
  finally show ?thesis .
qed

lemma osmWays_ids:
  "map way_id (osmWays fix7 sequence) =
     map (\<lambda>i. - 1000 - int i) [0 ..< length (osmWays fix7 sequence)]"
proof -
  have "map way_id (osmWays fix7 sequence) =
        map (\<lambda>i. - 1000 - int i) [0 ..< length (filter hasWay (seq_features sequence))]"
    by (simp add: osmWays_def buildWays_def fold_addWay_ids)
  moreover have "length (osmWays fix7 sequence) = length (filter hasWay (seq_features sequence))"
    using arg_cong[OF osmWays_refs[of fix7 sequence], of length] by simp
  ultimately show ?thesis by simp
qed

lemma nodeIdOf_in_nodes:
  assumes "f \<in> set (seq_features sequence)" "c \<in> set (coordsOf f)"
  shows "\<exists>n \<in> set (osmNodes fix7 sequence).
           nodeKey fix7 n = coordKey fix7 c \<and> nodeIdOf fix7 sequence c = node_id n"
  using buildNodeMap_found[OF assms, of fix7]
  by (auto simp: osmNodes_def nodeIdOf_def)

lemma filter_key_single:
  assumes "distinct (map fst m)" "\<forall>(k, n) \<in> set m. k = key n" "(k0, n0) \<in> set m"
  shows "filter (\<lambda>n. key n = k0) (map snd m) = [n0]"
  using assms
proof (induction m)
  case Nil
  then show ?case by simp
next
  case (Cons x m)
  obtain k n where x: "x = (k, n)" by force
  show ?case
  proof (cases "(k0, n0) = x")
    case True
    then have "k = k0" "n = n0" using x by simp_all
    moreover have "key n0 = k0" using Cons.prems(2) True by auto
    moreover have "filter (\<lambda>n. key n = k0) (map snd m) = []"
    proof -
      have "k0 \<notin> fst ` set m" using Cons.prems(1) x \<open>k = k0\<close> by simp
      moreover have "\<forall>(k, n) \<in> set m. k = key n" using Cons.prems(2) by simp
      ultimately show ?thesis by (auto simp: filter_empty_conv) force
    qed
    ultimately show ?thesis using x by simp
  next
    case False
    with Cons.prems have in_m: "(k0, n0) \<in> set m" by simp
    then have "k \<noteq> k0" using Cons.prems(1) x by (auto simp: image_iff)
    moreover have "key n = k" using Cons.prems(2) x by simp
    ultimately show ?thesis
      using Cons.IH[OF _ _ in_m] Cons.prems x by simp
  qed
qed

lemma single_node_for_key:
  assumes "f \<in> set (seq_features sequence)" "c \<in> set (coordsOf f)"
  shows "\<exists>n. filter (\<lambda>n. nodeKey fix7 n = coordKey fix7 c) (osmNodes fix7 sequence) = [n] \<and>
             nodeIdOf fix7 sequence c = node_id n"
proof -
  let ?m = "buildNodeMap fix7 (seq_features sequence)"
  from buildNodeMap_found[OF assms, of fix7] obtain n where
    n: "map_of ?m (coordKey fix7 c) = Some n" by blast
  then have mem: "(coordKey fix7 c, n) \<in> set ?m" by (rule map_of_SomeD)
  have keys: "\<forall>(k, n) \<in> set ?m. k = nodeKey fix7 n"
    using buildNodeMap_key[of _ _ fix7 "seq_features sequence"] by auto
  from filter_key_single[OF buildNodeMap_distinct keys mem]
  show ?thesis using n by (auto simp: osmNodes_def nodeIdOf_def)
qed

lemma nodeIdOf_key:
  "coordKey fix7 c = coordKey fix7 d \<Longrightarrow> nodeIdOf fix7 sequence c = nodeIdOf fix7 sequence d"
  by (simp add: nodeIdOf_def)

lemma osmNodes_ids:
  "map node_id (osmNodes fix7 sequence) =
     map (\<lambda>i. - 1000 - int i) [0 ..< length (osmNodes fix7 sequence)]"
  using buildNodeMap_ids[of fix7 "seq_features sequence"] by (simp add: osmNodes_def)

subsection \<open>A concrete export\<close>

text \<open>
  Two LineStrings that share the coordinate \<open>[103.1, 1.1]\<close>, and a Point on the end of the
  second.
\<close>

definition osm_example :: sequence where
  "osm_example =
     \<lparr>seq_id = ''42'',
      seq_features =
        [\<lparr>geometry = Some (LineString [(103, 1), (103.1, 1.1)]),
          properties = Some [''highway'' \<mapsto> JStr ''residential'']\<rparr>,
         \<lparr>geometry = Some (LineString [(103.1, 1.1), (103.2, 1.2)]), properties = None\<rparr>,
         \<lparr>geometry = Some (Point (103.2, 1.2)), properties = None\<rparr>],
      status = Some [], date = ''1/1/2025'',
      featureCount = 3, nodeCount = 5, wayCount = 2\<rparr>"

lemma toFixed7_1: "toFixed7 1 = ''1.0000000''"
  by (simp add: toFixed7_def Let_def; simp add: string_of_nat.simps digit_char_def;
      simp add: eval_nat_numeral)

lemma toFixed7_103: "toFixed7 103 = ''103.0000000''"
  by (simp add: toFixed7_def Let_def; simp add: string_of_nat.simps digit_char_def;
      simp add: eval_nat_numeral)

lemma toFixed7_1_1: "toFixed7 (11 / 10) = ''1.1000000''"
  by (simp add: toFixed7_def Let_def; simp add: string_of_nat.simps digit_char_def;
      simp add: eval_nat_numeral)

lemma toFixed7_103_1: "toFixed7 (1031 / 10) = ''103.1000000''"
  by (simp add: toFixed7_def Let_def; simp add: string_of_nat.simps digit_char_def;
      simp add: eval_nat_numeral)

lemma toFixed7_1_2: "toFixed7 (6 / 5) = ''1.2000000''"
  by (simp add: toFixed7_def Let_def; simp add: string_of_nat.simps digit_char_def;
      simp add: eval_nat_numeral)

lemma toFixed7_103_2: "toFixed7 (516 / 5) = ''103.2000000''"
  by (simp add: toFixed7_def Let_def; simp add: string_of_nat.simps digit_char_def;
      simp add: eval_nat_numeral)

lemmas toFixed7_values =
  toFixed7_1 toFixed7_103 toFixed7_1_1 toFixed7_103_1 toFixed7_1_2 toFixed7_103_2

lemma osm_example_nodeMap:
  "buildNodeMap toFixed7 (seq_features osm_example) =
     [(''1.0000000,103.0000000'', \<lparr>node_id = - 1000, lat = 1, lon = 103\<rparr>),
      (''1.1000000,103.1000000'', \<lparr>node_id = - 1001, lat = 1.1, lon = 103.1\<rparr>),
      (''1.2000000,103.2000000'', \<lparr>node_id = - 1002, lat = 1.2, lon = 103.2\<rparr>)]"
  by (simp add: osm_example_def buildNodeMap_def addFeatureNodes_def addNode_def coordKey_def
        Map_has_def toFixed7_values Let_def)

lemma osm_example_nodes:
  "osmNodes toFixed7 osm_example =
     [\<lparr>node_id = - 1000, lat = 1, lon = 103\<rparr>,
      \<lparr>node_id = - 1001, lat = 1.1, lon = 103.1\<rparr>,
      \<lparr>node_id = - 1002, lat = 1.2, lon = 103.2\<rparr>]"
  by (simp add: osmNodes_def osm_example_nodeMap)

lemma osm_example_ways:
  "osmWays toFixed7 osm_example =
     [\<lparr>way_id = - 1000, refs = [- 1000, - 1001], highway = ''residential''\<rparr>,
      \<lparr>way_id = - 1001, refs = [- 1001, - 1002], highway = ''unclassified''\<rparr>]"
  unfolding osmWays_def osm_example_nodeMap
  by (simp add: osm_example_def buildWays_def addWay_def ndRefs_def coordKey_def
        toFixed7_values getProp_def orElse_def Let_def)

subsection \<open>The ways, feature by feature\<close>

lemma osmWays_length:
  "length (osmWays fix7 sequence) = length (filter hasWay (seq_features sequence))"
  using arg_cong[OF osmWays_refs[of fix7 sequence], of length] by simp

lemma osmWays_nth_refs:
  assumes "i < length (osmWays fix7 sequence)"
  shows "refs (osmWays fix7 sequence ! i) =
           map (nodeIdOf fix7 sequence) (coordsOf (filter hasWay (seq_features sequence) ! i))"
proof -
  have "refs (osmWays fix7 sequence ! i) = map refs (osmWays fix7 sequence) ! i"
    using assms by simp
  also have "\<dots> = map (nodeIdOf fix7 sequence) (coordsOf (filter hasWay (seq_features sequence) ! i))"
    using assms by (simp add: osmWays_refs osmWays_length)
  finally show ?thesis .
qed

text \<open>
  A sequence of two LineStrings that share the coordinate \<open>[103.1, 1.1]\<close>, the second with
  that coordinate alone.
\<close>

definition osm_short :: sequence where
  "osm_short =
     \<lparr>seq_id = ''7'',
      seq_features =
        [\<lparr>geometry = Some (LineString [(103, 1), (103.1, 1.1)]), properties = None\<rparr>,
         \<lparr>geometry = Some (LineString [(103.1, 1.1)]), properties = None\<rparr>],
      status = Some [], date = ''1/1/2025'',
      featureCount = 2, nodeCount = 3, wayCount = 2\<rparr>"

lemma osm_short_nodeMap:
  "buildNodeMap toFixed7 (seq_features osm_short) =
     [(''1.0000000,103.0000000'', \<lparr>node_id = - 1000, lat = 1, lon = 103\<rparr>),
      (''1.1000000,103.1000000'', \<lparr>node_id = - 1001, lat = 1.1, lon = 103.1\<rparr>)]"
  by (simp add: osm_short_def buildNodeMap_def addFeatureNodes_def addNode_def coordKey_def
        Map_has_def toFixed7_values Let_def)

subsection \<open>The document, read back\<close>

text \<open>
  What an XML parser finds in the text of a document, as far as the export is concerned.
  \<open>xml_step\<close> reads one character in a mode: character data, a comment (which ends at the
  first \<open>-->\<close>), a processing instruction, a declaration, an end tag, or a start tag with
  its attributes, whose values stand between double or single quotes. It appends the
  events to those read so far: a start tag with its attributes, or an end tag; an
  empty-element tag gives both. The reader does not validate: a text that a parser
  rejects (a comment that contains \<open>--\<close>, say) is read as far as it goes, entity
  references in attribute values are kept as written, and a declaration is skipped to
  the next \<open>>\<close>.
  \<open>xml_events\<close> are the events of a whole text.
\<close>

datatype xml_event = StartTag string "(string \<times> string) list" | EndTag string

datatype xml_mode =
    Content
  | Lt
  | Bang
  | BangDash
  | Comment nat
  | Decl
  | PI bool
  | CloseName string
  | CloseRest string
  | OpenName string
  | Attrs string "(string \<times> string) list"
  | AttrName string "(string \<times> string) list" string
  | AttrAfter string "(string \<times> string) list" string
  | AttrEq string "(string \<times> string) list" string
  | AttrValue char string "(string \<times> string) list" string string
  | Slash string "(string \<times> string) list"

definition xml_space :: "char \<Rightarrow> bool" where
  "xml_space c = (c = CHR '' '' \<or> c = CHR 0x09 \<or> c = CHR 0x0A \<or> c = CHR 0x0D)"

fun xml_step :: "char \<Rightarrow> xml_mode \<times> xml_event list \<Rightarrow> xml_mode \<times> xml_event list" where
  "xml_step c (Content, evs) = (if c = CHR ''<'' then (Lt, evs) else (Content, evs))"
| "xml_step c (Lt, evs) =
     (if c = CHR ''!'' then (Bang, evs)
      else if c = CHR ''?'' then (PI False, evs)
      else if c = CHR ''/'' then (CloseName [], evs)
      else if c = CHR ''>'' then (Content, evs)
      else (OpenName [c], evs))"
| "xml_step c (Bang, evs) =
     (if c = CHR ''-'' then (BangDash, evs)
      else if c = CHR ''>'' then (Content, evs)
      else (Decl, evs))"
| "xml_step c (BangDash, evs) =
     (if c = CHR ''-'' then (Comment 0, evs)
      else if c = CHR ''>'' then (Content, evs)
      else (Decl, evs))"
| "xml_step c (Comment dashes, evs) =
     (if c = CHR ''-'' then (Comment (min 2 (dashes + 1)), evs)
      else if c = CHR ''>'' \<and> dashes = 2 then (Content, evs)
      else (Comment 0, evs))"
| "xml_step c (Decl, evs) = (if c = CHR ''>'' then (Content, evs) else (Decl, evs))"
| "xml_step c (PI question, evs) =
     (if c = CHR ''?'' then (PI True, evs)
      else if c = CHR ''>'' \<and> question then (Content, evs)
      else (PI False, evs))"
| "xml_step c (CloseName name, evs) =
     (if c = CHR ''>'' then (Content, evs @ [EndTag name])
      else if xml_space c then (CloseRest name, evs)
      else (CloseName (name @ [c]), evs))"
| "xml_step c (CloseRest name, evs) =
     (if c = CHR ''>'' then (Content, evs @ [EndTag name]) else (CloseRest name, evs))"
| "xml_step c (OpenName name, evs) =
     (if c = CHR ''>'' then (Content, evs @ [StartTag name []])
      else if c = CHR ''/'' then (Slash name [], evs)
      else if xml_space c then (Attrs name [], evs)
      else (OpenName (name @ [c]), evs))"
| "xml_step c (Attrs name attrs, evs) =
     (if c = CHR ''>'' then (Content, evs @ [StartTag name attrs])
      else if c = CHR ''/'' then (Slash name attrs, evs)
      else if xml_space c then (Attrs name attrs, evs)
      else (AttrName name attrs [c], evs))"
| "xml_step c (AttrName name attrs a, evs) =
     (if c = CHR ''='' then (AttrEq name attrs a, evs)
      else if c = CHR ''>'' then (Content, evs @ [StartTag name attrs])
      else if c = CHR ''/'' then (Slash name attrs, evs)
      else if xml_space c then (AttrAfter name attrs a, evs)
      else (AttrName name attrs (a @ [c]), evs))"
| "xml_step c (AttrAfter name attrs a, evs) =
     (if c = CHR ''='' then (AttrEq name attrs a, evs)
      else if c = CHR ''>'' then (Content, evs @ [StartTag name attrs])
      else if c = CHR ''/'' then (Slash name attrs, evs)
      else if xml_space c then (AttrAfter name attrs a, evs)
      else (AttrName name attrs [c], evs))"
| "xml_step c (AttrEq name attrs a, evs) =
     (if c = CHR 0x22 \<or> c = CHR 0x27 then (AttrValue c name attrs a [], evs)
      else if c = CHR ''>'' then (Content, evs @ [StartTag name attrs])
      else if xml_space c then (AttrEq name attrs a, evs)
      else (Attrs name attrs, evs))"
| "xml_step c (AttrValue quote name attrs a v, evs) =
     (if c = quote then (Attrs name (attrs @ [(a, v)]), evs)
      else (AttrValue quote name attrs a (v @ [c]), evs))"
| "xml_step c (Slash name attrs, evs) =
     (if c = CHR ''>'' then (Content, evs @ [StartTag name attrs, EndTag name])
      else (Attrs name attrs, evs))"

definition xml_events :: "string \<Rightarrow> xml_event list" where
  "xml_events doc = snd (fold xml_step doc (Content, []))"

text \<open>
  \<open>osm_step\<close> builds the elements from the events, as a reader of OSM data does, on the
  stack of the open elements and the elements found so far: a node is a \<open>node\<close> element
  directly inside the root element \<open>osm\<close>, a way is a \<open>way\<close> element directly inside the
  root, and the references of a way are the \<open>ref\<close> attributes of the \<open>nd\<close> elements
  directly inside it, in their order. \<open>readOSM doc\<close> are the nodes and ways of a document
  in the order of their start tags.

  An element is a node or a way; \<open>element_attr\<close> is an attribute of it, \<open>element_refs\<close>
  are the references of a way, and \<open>element_key\<close> is the key \<open>lat,lon\<close> that the \<open>lat\<close> and
  \<open>lon\<close> attributes of a node spell.
\<close>

datatype osm_element =
    NodeElement "(string \<times> string) list"
  | WayElement "(string \<times> string) list" "string list"

fun add_ref :: "string option \<Rightarrow> osm_element list \<Rightarrow> osm_element list" where
  "add_ref None elems = elems"
| "add_ref (Some r) elems =
     (case rev elems of
        WayElement attrs rs # before \<Rightarrow> rev before @ [WayElement attrs (rs @ [r])]
      | _ \<Rightarrow> elems)"

fun osm_step :: "xml_event \<Rightarrow> string list \<times> osm_element list \<Rightarrow> string list \<times> osm_element list" where
  "osm_step (StartTag name attrs) (stack, elems) =
     (name # stack,
      if stack = [''osm''] \<and> name = ''node'' then elems @ [NodeElement attrs]
      else if stack = [''osm''] \<and> name = ''way'' then elems @ [WayElement attrs []]
      else if stack = [''way'', ''osm''] \<and> name = ''nd'' then add_ref (map_of attrs ''ref'') elems
      else elems)"
| "osm_step (EndTag name) (stack, elems) = (drop 1 stack, elems)"

definition readOSM :: "string \<Rightarrow> osm_element list" where
  "readOSM doc = snd (fold osm_step (xml_events doc) ([], []))"

fun is_node_element :: "osm_element \<Rightarrow> bool" where
  "is_node_element (NodeElement attrs) = True"
| "is_node_element (WayElement attrs rs) = False"

fun is_way_element :: "osm_element \<Rightarrow> bool" where
  "is_way_element (NodeElement attrs) = False"
| "is_way_element (WayElement attrs rs) = True"

fun element_attr :: "osm_element \<Rightarrow> string \<Rightarrow> string option" where
  "element_attr (NodeElement attrs) k = map_of attrs k"
| "element_attr (WayElement attrs rs) k = map_of attrs k"

fun element_refs :: "osm_element \<Rightarrow> string list" where
  "element_refs (NodeElement attrs) = []"
| "element_refs (WayElement attrs rs) = rs"

definition element_key :: "osm_element \<Rightarrow> string option" where
  "element_key el =
     (case (element_attr el ''lat'', element_attr el ''lon'') of
        (Some la, Some lo) \<Rightarrow> Some (la @ '','' @ lo)
      | _ \<Rightarrow> None)"

text \<open>
  The events of the text that \<open>renderNode\<close> and \<open>renderWay\<close> write for a node and a way,
  and the elements that they are read as.
\<close>

definition node_events :: "(real \<Rightarrow> string) \<Rightarrow> osm_node \<Rightarrow> xml_event list" where
  "node_events fix7 node =
     [StartTag ''node''
        [(''id'', string_of_int (node_id node)), (''lat'', fix7 (lat node)),
         (''lon'', fix7 (lon node)), (''version'', ''1'')],
      EndTag ''node'']"

definition nd_events :: "int \<Rightarrow> xml_event list" where
  "nd_events r = [StartTag ''nd'' [(''ref'', string_of_int r)], EndTag ''nd'']"

definition way_events :: "osm_way \<Rightarrow> xml_event list" where
  "way_events way =
     [StartTag ''way'' [(''id'', string_of_int (way_id way)), (''version'', ''1'')]] @
     concat (map nd_events (refs way)) @
     [StartTag ''tag'' [(''k'', ''highway''), (''v'', escapeXml (highway way))], EndTag ''tag'',
      EndTag ''way'']"

definition node_element :: "(real \<Rightarrow> string) \<Rightarrow> osm_node \<Rightarrow> osm_element" where
  "node_element fix7 node =
     NodeElement [(''id'', string_of_int (node_id node)), (''lat'', fix7 (lat node)),
                  (''lon'', fix7 (lon node)), (''version'', ''1'')]"

definition way_element :: "osm_way \<Rightarrow> osm_element" where
  "way_element way =
     WayElement [(''id'', string_of_int (way_id way)), (''version'', ''1'')]
       (map string_of_int (refs way))"

text \<open>
  Two more sequences for concrete runs: one with no features whose id ends the comment
  that it is written into and goes on with a way, and one of two LineStrings that start
  at the latitudes \<open>-0.00000001\<close> and \<open>0.00000001\<close> of the same meridian, which are
  equal when rounded to seven decimals.
\<close>

definition osm_injected :: sequence where
  "osm_injected =
     \<lparr>seq_id = ''x --><way id='' @ [CHR 0x27] @ ''1'' @ [CHR 0x27] @ ''><nd ref='' @ [CHR 0x27] @ ''5'' @
                [CHR 0x27] @ '' /></way><!-- '',
      seq_features = [], status = Some [], date = ''1/1/2025'',
      featureCount = 0, nodeCount = 0, wayCount = 0\<rparr>"

definition osm_zero :: sequence where
  "osm_zero =
     \<lparr>seq_id = ''8'',
      seq_features =
        [\<lparr>geometry = Some (LineString [(0, - (1 / 100000000)), (1, 1)]), properties = None\<rparr>,
         \<lparr>geometry = Some (LineString [(0, 1 / 100000000), (1, 1)]), properties = None\<rparr>],
      status = Some [], date = ''1/1/2025'',
      featureCount = 2, nodeCount = 4, wayCount = 2\<rparr>"

paragraph \<open>The events of the generated text\<close>

lemma read_value:
  "q \<notin> set s \<Longrightarrow>
   fold xml_step s (AttrValue q name attrs a v, evs) = (AttrValue q name attrs a (v @ s), evs)"
  by (induction s arbitrary: v) auto

lemma str_includes_append: "str_includes ys sub \<Longrightarrow> str_includes (xs @ ys) sub"
  by (induction xs) (cases ys; auto)+

lemma str_includes_set: "str_includes s sub \<Longrightarrow> set sub \<subseteq> set s"
proof (induction s)
  case Nil
  then show ?case by simp
next
  case (Cons c cs)
  from Cons.prems have "take (length sub) (c # cs) = sub \<or> str_includes cs sub" by simp
  then show ?case
  proof
    assume "take (length sub) (c # cs) = sub"
    then have "set sub = set (take (length sub) (c # cs))" by simp
    also have "\<dots> \<subseteq> set (c # cs)" by (rule set_take_subset)
    finally show ?thesis .
  next
    assume "str_includes cs sub"
    from Cons.IH[OF this] show ?thesis by auto
  qed
qed

lemma read_comment:
  assumes "\<not> str_includes (replicate d CHR ''-'' @ s) ''-->''" "d \<le> 2"
  shows "\<exists>d'. fold xml_step s (Comment d, evs) = (Comment d', evs)"
  using assms
proof (induction s arbitrary: d)
  case Nil
  then show ?case by simp
next
  case (Cons c s)
  have suffix: "\<not> str_includes s ''-->''"
    using Cons.prems(1) str_includes_append[of s "''-->''" "replicate d CHR ''-'' @ [c]"] by auto
  show ?case
  proof (cases "c = CHR ''-''")
    case True
    show ?thesis
    proof (cases "d = 2")
      case False
      with Cons.prems(2) have d: "d < 2" by simp
      have "replicate (d + 1) CHR ''-'' @ s = replicate d CHR ''-'' @ c # s"
        using True by (simp add: replicate_append_same)
      with Cons.prems(1) have "\<not> str_includes (replicate (d + 1) CHR ''-'' @ s) ''-->''" by simp
      from Cons.IH[OF this] d obtain d' where
        "fold xml_step s (Comment (d + 1), evs) = (Comment d', evs)" by auto
      moreover have "min 2 (d + 1) = d + 1" using d by simp
      ultimately show ?thesis using True by simp
    next
      case d2: True
      have "\<not> str_includes (replicate 2 CHR ''-'' @ s) ''-->''"
        using Cons.prems(1) str_includes_append[of "replicate 2 CHR ''-'' @ s" "''-->''" "''-''"]
          True d2 by (auto simp: numeral_2_eq_2)
      from Cons.IH[OF this] obtain d' where
        "fold xml_step s (Comment 2, evs) = (Comment d', evs)" by auto
      then show ?thesis using True d2 by simp
    qed
  next
    case False
    have notclose: "\<not> (c = CHR ''>'' \<and> d = 2)"
    proof
      assume "c = CHR ''>'' \<and> d = 2"
      then have "str_includes (replicate d CHR ''-'' @ c # s) ''-->''"
        by (simp add: numeral_2_eq_2)
      with Cons.prems(1) show False by simp
    qed
    from suffix have "\<not> str_includes (replicate 0 CHR ''-'' @ s) ''-->''" by simp
    from Cons.IH[OF this] obtain d' where
      "fold xml_step s (Comment 0, evs) = (Comment d', evs)" by auto
    then show ?thesis using False notclose by auto
  qed
qed

lemma read_comment_text:
  assumes "\<not> str_includes s ''-->''"
  shows "\<exists>d. fold xml_step s (Comment 0, evs) = (Comment d, evs)"
  using read_comment[of 0 s evs] assms by simp

lemma string_of_nat_no_quote: "CHR 0x22 \<notin> set (string_of_nat n)"
proof -
  have "CHR 0x22 \<notin> set ''0123456789''" by simp
  with string_of_nat_digits[of n] show ?thesis by blast
qed

lemma string_of_int_no_quote: "CHR 0x22 \<notin> set (string_of_int i)"
  by (simp add: string_of_int_def string_of_nat_no_quote)

lemma string_of_nat_no_close: "\<not> str_includes (string_of_nat n) ''-->''"
proof
  assume "str_includes (string_of_nat n) ''-->''"
  from str_includes_set[OF this] have "set ''-->'' \<subseteq> set (string_of_nat n)" .
  moreover have "CHR ''>'' \<in> set ''-->''" by simp
  moreover have "CHR ''>'' \<notin> set ''0123456789''" by simp
  ultimately show False using string_of_nat_digits[of n] by blast
qed

lemma set_replaceAll: "set (replaceAll c r s) \<subseteq> (set s - {c}) \<union> set r"
  by (induction s) (auto simp: replaceAll_def)

lemma escapeXml_no_quote: "CHR 0x22 \<notin> set (escapeXml t)"
proof -
  let ?a = "replaceAll CHR ''>'' ''&gt;'' (replaceAll CHR ''<'' ''&lt;'' (replaceAll CHR ''&'' ''&amp;'' t))"
  have "CHR 0x22 \<notin> set (replaceAll (CHR 0x22) ''&quot;'' ?a)"
    using set_replaceAll[of "CHR 0x22" "''&quot;''" ?a] by auto
  then show ?thesis
    using set_replaceAll[of "CHR 0x27" "''&apos;''" "replaceAll (CHR 0x22) ''&quot;'' ?a"]
    by (auto simp: escapeXml_def)
qed

lemma read_renderNode:
  assumes "CHR 0x22 \<notin> set (fix7 (lat node))" "CHR 0x22 \<notin> set (fix7 (lon node))"
  shows "fold xml_step (renderNode fix7 node) (Content, evs) =
           (Content, evs @ [StartTag ''node''
                              [(''id'', string_of_int (node_id node)), (''lat'', fix7 (lat node)),
                               (''lon'', fix7 (lon node)), (''version'', ''1'')],
                            EndTag ''node''])"
  using assms
  by (simp add: renderNode_def read_value string_of_int_no_quote xml_space_def)

lemma read_nodes:
  assumes "\<forall>node \<in> set ns. CHR 0x22 \<notin> set (fix7 (lat node)) \<and> CHR 0x22 \<notin> set (fix7 (lon node))"
  shows "fold xml_step (concat (map (renderNode fix7) ns)) (Content, evs) =
           (Content, evs @ concat (map (node_events fix7) ns))"
  using assms
proof (induction ns arbitrary: evs)
  case Nil
  then show ?case by simp
next
  case (Cons n ns)
  then show ?case by (simp add: read_renderNode node_events_def)
qed

lemma read_nds:
  "fold xml_step
     (concat (map (\<lambda>r. ''    <nd ref='' @ [CHR 0x22] @ string_of_int r @ [CHR 0x22] @ '' />'' @ [CHR 0x0A]) rs))
     (Content, evs) =
   (Content, evs @ concat (map nd_events rs))"
proof (induction rs arbitrary: evs)
  case Nil
  then show ?case by simp
next
  case (Cons r rs)
  have "fold xml_step (''    <nd ref='' @ [CHR 0x22] @ string_of_int r @ [CHR 0x22] @ '' />'' @ [CHR 0x0A])
          (Content, evs) = (Content, evs @ nd_events r)"
    by (simp add: read_value string_of_int_no_quote xml_space_def nd_events_def)
  then show ?case using Cons.IH by simp
qed

lemma read_renderWay:
  "fold xml_step (renderWay way) (Content, evs) = (Content, evs @ way_events way)"
proof -
  have start: "fold xml_step
      (''  <way id='' @ [CHR 0x22] @ string_of_int (way_id way) @ [CHR 0x22] @
       '' version='' @ [CHR 0x22] @ ''1'' @ [CHR 0x22] @ ''>'' @ [CHR 0x0A]) (Content, evs) =
      (Content, evs @ [StartTag ''way'' [(''id'', string_of_int (way_id way)), (''version'', ''1'')]])"
    by (simp add: read_value string_of_int_no_quote xml_space_def)
  have tag: "fold xml_step
      (''    <tag k='' @ [CHR 0x22] @ ''highway'' @ [CHR 0x22] @ '' v='' @ [CHR 0x22] @
       escapeXml (highway way) @ [CHR 0x22] @ '' />'' @ [CHR 0x0A] @
       ''  </way>'' @ [CHR 0x0A]) (Content, evs') =
      (Content, evs' @ [StartTag ''tag'' [(''k'', ''highway''), (''v'', escapeXml (highway way))],
                        EndTag ''tag'', EndTag ''way''])" for evs'
    by (simp add: read_value escapeXml_no_quote xml_space_def)
  have "fold xml_step (renderWay way) (Content, evs) =
        fold xml_step
          (''    <tag k='' @ [CHR 0x22] @ ''highway'' @ [CHR 0x22] @ '' v='' @ [CHR 0x22] @
           escapeXml (highway way) @ [CHR 0x22] @ '' />'' @ [CHR 0x0A] @
           ''  </way>'' @ [CHR 0x0A])
          (fold xml_step
             (concat (map (\<lambda>r. ''    <nd ref='' @ [CHR 0x22] @ string_of_int r @ [CHR 0x22] @
                                  '' />'' @ [CHR 0x0A]) (refs way)))
             (fold xml_step
                (''  <way id='' @ [CHR 0x22] @ string_of_int (way_id way) @ [CHR 0x22] @
                 '' version='' @ [CHR 0x22] @ ''1'' @ [CHR 0x22] @ ''>'' @ [CHR 0x0A])
                (Content, evs)))"
    by (simp add: renderWay_def)
  also have "\<dots> = (Content, evs @ way_events way)"
    by (simp only: start read_nds tag way_events_def append_assoc)
  finally show ?thesis .
qed

lemma read_ways:
  "fold xml_step (concat (map renderWay ws)) (Content, evs) =
     (Content, evs @ concat (map way_events ws))"
proof (induction ws arbitrary: evs)
  case Nil
  then show ?case by simp
next
  case (Cons w ws)
  then show ?case by (simp add: read_renderWay)
qed

lemma read_header:
  assumes "\<not> str_includes (seq_id sequence) ''-->''" "\<not> str_includes (nowISO e) ''-->''"
  shows "fold xml_step (osmHeader e sequence) (Content, []) =
           (Content, [StartTag ''osm'' [(''version'', ''0.6''), (''generator'', ''OSMAGIC Task Manager'')]])"
proof -
  let ?evs = "[StartTag ''osm'' [(''version'', ''0.6''), (''generator'', ''OSMAGIC Task Manager'')]]"
  have p1: "fold xml_step
      (''<?xml version='' @ [CHR 0x22] @ ''1.0'' @ [CHR 0x22] @ '' encoding='' @ [CHR 0x22] @ ''UTF-8'' @
         [CHR 0x22] @ ''?>'' @ [CHR 0x0A] @
       ''<osm version='' @ [CHR 0x22] @ ''0.6'' @ [CHR 0x22] @ '' generator='' @ [CHR 0x22] @
         ''OSMAGIC Task Manager'' @ [CHR 0x22] @ ''>'' @ [CHR 0x0A] @
       ''  <!-- Sequence ID: '') (Content, []) = (Comment 0, ?evs)"
    by (simp add: xml_space_def)
  from read_comment_text[OF assms(1)] obtain d1 where
    p2: "fold xml_step (seq_id sequence) (Comment 0, ?evs) = (Comment d1, ?evs)" by blast
  have p3: "fold xml_step ('' -->'' @ [CHR 0x0A] @ ''  <!-- Features: '') (Comment d1, ?evs) =
              (Comment 0, ?evs)"
    by simp
  from read_comment_text[OF string_of_nat_no_close] obtain d2 where
    p4: "fold xml_step (string_of_nat (featureCount sequence)) (Comment 0, ?evs) = (Comment d2, ?evs)"
    by blast
  have p5: "fold xml_step ('' -->'' @ [CHR 0x0A] @ ''  <!-- Generated: '') (Comment d2, ?evs) =
              (Comment 0, ?evs)"
    by simp
  from read_comment_text[OF assms(2)] obtain d3 where
    p6: "fold xml_step (nowISO e) (Comment 0, ?evs) = (Comment d3, ?evs)" by blast
  have p7: "fold xml_step ('' -->'' @ [CHR 0x0A, CHR 0x0A]) (Comment d3, ?evs) = (Content, ?evs)"
    by simp
  have "fold xml_step (osmHeader e sequence) (Content, []) =
      fold xml_step ('' -->'' @ [CHR 0x0A, CHR 0x0A])
       (fold xml_step (nowISO e)
         (fold xml_step ('' -->'' @ [CHR 0x0A] @ ''  <!-- Generated: '')
           (fold xml_step (string_of_nat (featureCount sequence))
             (fold xml_step ('' -->'' @ [CHR 0x0A] @ ''  <!-- Features: '')
               (fold xml_step (seq_id sequence)
                 (fold xml_step
                    (''<?xml version='' @ [CHR 0x22] @ ''1.0'' @ [CHR 0x22] @ '' encoding='' @
                       [CHR 0x22] @ ''UTF-8'' @ [CHR 0x22] @ ''?>'' @ [CHR 0x0A] @
                     ''<osm version='' @ [CHR 0x22] @ ''0.6'' @ [CHR 0x22] @ '' generator='' @
                       [CHR 0x22] @ ''OSMAGIC Task Manager'' @ [CHR 0x22] @ ''>'' @ [CHR 0x0A] @
                     ''  <!-- Sequence ID: '') (Content, [])))))))"
    by (simp add: osmHeader_def)
  also have "\<dots> = (Content, ?evs)"
    by (simp only: p1 p2 p3 p4 p5 p6 p7)
  finally show ?thesis .
qed

lemma events_generateJOSM:
  assumes "\<not> str_includes (seq_id sequence) ''-->''" "\<not> str_includes (nowISO e) ''-->''"
      and "\<forall>node \<in> set (osmNodes fix7 sequence).
             CHR 0x22 \<notin> set (fix7 (lat node)) \<and> CHR 0x22 \<notin> set (fix7 (lon node))"
  shows "xml_events (generateJOSM e fix7 sequence) =
           [StartTag ''osm'' [(''version'', ''0.6''), (''generator'', ''OSMAGIC Task Manager'')]] @
           concat (map (node_events fix7) (osmNodes fix7 sequence)) @
           concat (map way_events (osmWays fix7 sequence)) @ [EndTag ''osm'']"
proof -
  have doc: "generateJOSM e fix7 sequence =
     osmHeader e sequence @ concat (map (renderNode fix7) (osmNodes fix7 sequence)) @ [CHR 0x0A] @
     concat (map renderWay (osmWays fix7 sequence)) @ ''</osm>''"
    by (simp add: generateJOSM_def osmNodes_def osmWays_def Let_def)
  have nl: "fold xml_step [CHR 0x0A] (Content, evs) = (Content, evs)" for evs by simp
  have close: "fold xml_step ''</osm>'' (Content, evs) = (Content, evs @ [EndTag ''osm''])" for evs
    by (simp add: xml_space_def)
  have "fold xml_step (generateJOSM e fix7 sequence) (Content, []) =
        fold xml_step ''</osm>''
          (fold xml_step (concat (map renderWay (osmWays fix7 sequence)))
            (fold xml_step [CHR 0x0A]
              (fold xml_step (concat (map (renderNode fix7) (osmNodes fix7 sequence)))
                (fold xml_step (osmHeader e sequence) (Content, [])))))"
    unfolding doc by (simp only: fold_append comp_def)
  also have "\<dots> =
      (Content,
       [StartTag ''osm'' [(''version'', ''0.6''), (''generator'', ''OSMAGIC Task Manager'')]] @
       concat (map (node_events fix7) (osmNodes fix7 sequence)) @
       concat (map way_events (osmWays fix7 sequence)) @ [EndTag ''osm''])"
    by (simp only: read_header[OF assms(1,2)] read_nodes[OF assms(3)] nl read_ways close
          append_assoc)
  finally show ?thesis by (simp add: xml_events_def)
qed

paragraph \<open>The elements of the generated text\<close>

lemma osm_nodes:
  "fold osm_step (concat (map (node_events fix7) ns)) ([''osm''], elems) =
     ([''osm''], elems @ map (node_element fix7) ns)"
  by (induction ns arbitrary: elems) (simp_all add: node_events_def node_element_def)

lemma osm_nds:
  "fold osm_step (concat (map nd_events rs)) ([''way'', ''osm''], elems @ [WayElement attrs rs0]) =
     ([''way'', ''osm''], elems @ [WayElement attrs (rs0 @ map string_of_int rs)])"
  by (induction rs arbitrary: rs0) (simp_all add: nd_events_def)

lemma osm_way:
  "fold osm_step (way_events way) ([''osm''], elems) = ([''osm''], elems @ [way_element way])"
proof -
  have "fold osm_step (way_events way) ([''osm''], elems) =
        fold osm_step
          [StartTag ''tag'' [(''k'', ''highway''), (''v'', escapeXml (highway way))], EndTag ''tag'',
           EndTag ''way'']
          (fold osm_step (concat (map nd_events (refs way)))
             ([''way'', ''osm''],
              elems @ [WayElement [(''id'', string_of_int (way_id way)), (''version'', ''1'')] []]))"
    by (simp add: way_events_def)
  also have "\<dots> = ([''osm''], elems @ [way_element way])"
    by (simp add: osm_nds way_element_def)
  finally show ?thesis .
qed

lemma osm_ways:
  "fold osm_step (concat (map way_events ws)) ([''osm''], elems) =
     ([''osm''], elems @ map way_element ws)"
  by (induction ws arbitrary: elems) (simp_all add: osm_way)

lemma readOSM_generateJOSM:
  assumes "\<not> str_includes (seq_id sequence) ''-->''" "\<not> str_includes (nowISO e) ''-->''"
      and "\<forall>node \<in> set (osmNodes fix7 sequence).
             CHR 0x22 \<notin> set (fix7 (lat node)) \<and> CHR 0x22 \<notin> set (fix7 (lon node))"
  shows "readOSM (generateJOSM e fix7 sequence) =
           map (node_element fix7) (osmNodes fix7 sequence) @ map way_element (osmWays fix7 sequence)"
proof -
  have "fold osm_step (xml_events (generateJOSM e fix7 sequence)) ([], []) =
        fold osm_step [EndTag ''osm'']
          (fold osm_step (concat (map way_events (osmWays fix7 sequence)))
            (fold osm_step (concat (map (node_events fix7) (osmNodes fix7 sequence)))
              (fold osm_step
                 [StartTag ''osm'' [(''version'', ''0.6''), (''generator'', ''OSMAGIC Task Manager'')]]
                 ([], []))))"
    unfolding events_generateJOSM[OF assms] by (simp only: fold_append comp_def)
  also have "\<dots> = ([], map (node_element fix7) (osmNodes fix7 sequence) @
                          map way_element (osmWays fix7 sequence))"
    by (simp add: osm_nodes osm_ways)
  finally show ?thesis by (simp add: readOSM_def)
qed

lemma node_element_simps [simp]:
  "is_node_element (node_element fix7 n)" "\<not> is_way_element (node_element fix7 n)"
  "element_attr (node_element fix7 n) ''id'' = Some (string_of_int (node_id n))"
  "element_key (node_element fix7 n) = Some (nodeKey fix7 n)"
  "element_refs (node_element fix7 n) = []"
  by (simp_all add: node_element_def element_key_def nodeKey_def coordKey_def)

lemma way_element_simps [simp]:
  "is_way_element (way_element w)" "\<not> is_node_element (way_element w)"
  "element_attr (way_element w) ''id'' = Some (string_of_int (way_id w))"
  "element_refs (way_element w) = map string_of_int (refs w)"
  by (simp_all add: way_element_def)

lemma filter_nodes:
  "filter is_node_element (map (node_element fix7) ns @ map way_element ws) =
     map (node_element fix7) ns"
  by (simp add: filter_map comp_def)

lemma filter_ways:
  "filter is_way_element (map (node_element fix7) ns @ map way_element ws) = map way_element ws"
  by (simp add: filter_map comp_def)

lemma toFixed7_no_quote: "CHR 0x22 \<notin> set (toFixed7 x)"
  by (auto simp: toFixed7_def Let_def string_of_nat_no_quote)

lemma readOSM_nodes:
  assumes "\<not> str_includes (seq_id sequence) ''-->''" "\<not> str_includes (nowISO e) ''-->''"
      and "\<forall>node \<in> set (osmNodes fix7 sequence).
             CHR 0x22 \<notin> set (fix7 (lat node)) \<and> CHR 0x22 \<notin> set (fix7 (lon node))"
  shows "filter is_node_element (readOSM (generateJOSM e fix7 sequence)) =
           map (node_element fix7) (osmNodes fix7 sequence)"
  unfolding readOSM_generateJOSM[OF assms] by (rule filter_nodes)

lemma readOSM_ways:
  assumes "\<not> str_includes (seq_id sequence) ''-->''" "\<not> str_includes (nowISO e) ''-->''"
      and "\<forall>node \<in> set (osmNodes fix7 sequence).
             CHR 0x22 \<notin> set (fix7 (lat node)) \<and> CHR 0x22 \<notin> set (fix7 (lon node))"
  shows "filter is_way_element (readOSM (generateJOSM e fix7 sequence)) =
           map way_element (osmWays fix7 sequence)"
  unfolding readOSM_generateJOSM[OF assms] by (rule filter_ways)

lemma readOSM_way_refs:
  assumes "\<not> str_includes (seq_id sequence) ''-->''" "\<not> str_includes (nowISO e) ''-->''"
      and "\<forall>node \<in> set (osmNodes fix7 sequence).
             CHR 0x22 \<notin> set (fix7 (lat node)) \<and> CHR 0x22 \<notin> set (fix7 (lon node))"
      and "j < length (filter hasWay (seq_features sequence))"
  shows "element_refs (filter is_way_element (readOSM (generateJOSM e fix7 sequence)) ! j) =
           map (\<lambda>c. string_of_int (nodeIdOf fix7 sequence c))
             (coordsOf (filter hasWay (seq_features sequence) ! j))"
proof -
  from assms(4) have j: "j < length (osmWays fix7 sequence)" by (simp add: osmWays_length)
  then have "element_refs (filter is_way_element (readOSM (generateJOSM e fix7 sequence)) ! j) =
             map string_of_int (refs (osmWays fix7 sequence ! j))"
    by (simp add: readOSM_ways[OF assms(1-3)])
  then show ?thesis using osmWays_nth_refs[OF j] by simp
qed

lemma readOSM_node_of:
  assumes "\<not> str_includes (seq_id sequence) ''-->''" "\<not> str_includes (nowISO e) ''-->''"
      and "\<forall>node \<in> set (osmNodes fix7 sequence).
             CHR 0x22 \<notin> set (fix7 (lat node)) \<and> CHR 0x22 \<notin> set (fix7 (lon node))"
      and "f \<in> set (seq_features sequence)" "c \<in> set (coordsOf f)"
  shows "\<exists>n \<in> set (filter is_node_element (readOSM (generateJOSM e fix7 sequence))).
           element_attr n ''id'' = Some (string_of_int (nodeIdOf fix7 sequence c)) \<and>
           element_key n = Some (coordKey fix7 c)"
proof -
  from nodeIdOf_in_nodes[OF assms(4,5), of fix7] obtain n0 where
    n0: "n0 \<in> set (osmNodes fix7 sequence)" "nodeKey fix7 n0 = coordKey fix7 c"
        "nodeIdOf fix7 sequence c = node_id n0"
    by blast
  then have "node_element fix7 n0 \<in> set (filter is_node_element (readOSM (generateJOSM e fix7 sequence)))"
    by (simp add: readOSM_nodes[OF assms(1-3)])
  moreover have "element_attr (node_element fix7 n0) ''id'' =
                   Some (string_of_int (nodeIdOf fix7 sequence c))"
    using n0(3) by simp
  moreover have "element_key (node_element fix7 n0) = Some (coordKey fix7 c)"
    using n0(2) by simp
  ultimately show ?thesis by blast
qed

paragraph \<open>Concrete documents\<close>

lemma injected_doc:
  "readOSM (generateJOSM env0 toFixed7 osm_injected) = [WayElement [(''id'', ''1'')] [''5'']]"
  by (simp add: readOSM_def xml_events_def generateJOSM_def osmHeader_def osm_injected_def
        buildNodeMap_def buildWays_def env0_def xml_space_def string_of_nat.simps digit_char_def Let_def)

lemma string_of_int_values:
  "string_of_int (- 1000) = ''-1000''" "string_of_int (- 1001) = ''-1001''"
  "string_of_int (- 1002) = ''-1002''"
  by (simp_all add: string_of_int_def string_of_nat.simps digit_char_def)

lemma osm_example_safe:
  "\<not> str_includes (seq_id osm_example) ''-->''" "\<not> str_includes (nowISO env0) ''-->''"
  "\<forall>node \<in> set (osmNodes toFixed7 osm_example).
     CHR 0x22 \<notin> set (toFixed7 (lat node)) \<and> CHR 0x22 \<notin> set (toFixed7 (lon node))"
  by (simp_all add: osm_example_def env0_def toFixed7_no_quote)

lemma osm_example_document:
  "readOSM (generateJOSM env0 toFixed7 osm_example) =
     [NodeElement [(''id'', ''-1000''), (''lat'', ''1.0000000''), (''lon'', ''103.0000000''),
                   (''version'', ''1'')],
      NodeElement [(''id'', ''-1001''), (''lat'', ''1.1000000''), (''lon'', ''103.1000000''),
                   (''version'', ''1'')],
      NodeElement [(''id'', ''-1002''), (''lat'', ''1.2000000''), (''lon'', ''103.2000000''),
                   (''version'', ''1'')],
      WayElement [(''id'', ''-1000''), (''version'', ''1'')] [''-1000'', ''-1001''],
      WayElement [(''id'', ''-1001''), (''version'', ''1'')] [''-1001'', ''-1002'']]"
  by (simp add: readOSM_generateJOSM[OF osm_example_safe] osm_example_nodes osm_example_ways
        node_element_def way_element_def toFixed7_values string_of_int_values)

lemma toFixed7_0: "toFixed7 0 = ''0.0000000''"
  by (simp add: toFixed7_def Let_def; simp add: string_of_nat.simps digit_char_def;
      simp add: eval_nat_numeral)

lemma toFixed7_tiny: "toFixed7 (1 / 100000000) = ''0.0000000''"
  by (simp add: toFixed7_def Let_def; simp add: string_of_nat.simps digit_char_def;
      simp add: eval_nat_numeral)

lemma toFixed7_minus_tiny: "toFixed7 (- (1 / 100000000)) = ''-0.0000000''"
  by (simp add: toFixed7_def Let_def; simp add: string_of_nat.simps digit_char_def;
      simp add: eval_nat_numeral)

lemma osm_zero_nodeMap:
  "buildNodeMap toFixed7 (seq_features osm_zero) =
     [(''-0.0000000,0.0000000'', \<lparr>node_id = - 1000, lat = - (1 / 100000000), lon = 0\<rparr>),
      (''1.0000000,1.0000000'', \<lparr>node_id = - 1001, lat = 1, lon = 1\<rparr>),
      (''0.0000000,0.0000000'', \<lparr>node_id = - 1002, lat = 1 / 100000000, lon = 0\<rparr>)]"
  by (simp add: osm_zero_def buildNodeMap_def addFeatureNodes_def addNode_def coordKey_def
        Map_has_def toFixed7_0 toFixed7_tiny toFixed7_minus_tiny toFixed7_1 Let_def)

lemma osm_short_safe:
  "\<not> str_includes (seq_id osm_short) ''-->''"
  "\<forall>node \<in> set (osmNodes toFixed7 osm_short).
     CHR 0x22 \<notin> set (toFixed7 (lat node)) \<and> CHR 0x22 \<notin> set (toFixed7 (lon node))"
  by (simp_all add: osm_short_def toFixed7_no_quote)

lemma osm_zero_safe:
  "\<not> str_includes (seq_id osm_zero) ''-->''"
  "\<forall>node \<in> set (osmNodes toFixed7 osm_zero).
     CHR 0x22 \<notin> set (toFixed7 (lat node)) \<and> CHR 0x22 \<notin> set (toFixed7 (lon node))"
  by (simp_all add: osm_zero_def toFixed7_no_quote)

lemma osm_short_document:
  "readOSM (generateJOSM env0 toFixed7 osm_short) =
     [NodeElement [(''id'', ''-1000''), (''lat'', ''1.0000000''), (''lon'', ''103.0000000''),
                   (''version'', ''1'')],
      NodeElement [(''id'', ''-1001''), (''lat'', ''1.1000000''), (''lon'', ''103.1000000''),
                   (''version'', ''1'')],
      WayElement [(''id'', ''-1000''), (''version'', ''1'')] [''-1000'', ''-1001'']]"
proof -
  have ws: "osmWays toFixed7 osm_short =
     [\<lparr>way_id = - 1000, refs = [- 1000, - 1001], highway = ''unclassified''\<rparr>]"
    unfolding osmWays_def osm_short_nodeMap
    by (simp add: osm_short_def buildWays_def addWay_def ndRefs_def coordKey_def
          toFixed7_values getProp_def orElse_def Let_def)
  show ?thesis
    by (simp add: readOSM_generateJOSM[OF osm_short_safe(1) osm_example_safe(2) osm_short_safe(2)]
          osmNodes_def osm_short_nodeMap ws node_element_def way_element_def toFixed7_values
          string_of_int_values)
qed

lemma osm_zero_document:
  "readOSM (generateJOSM env0 toFixed7 osm_zero) =
     [NodeElement [(''id'', ''-1000''), (''lat'', ''-0.0000000''), (''lon'', ''0.0000000''),
                   (''version'', ''1'')],
      NodeElement [(''id'', ''-1001''), (''lat'', ''1.0000000''), (''lon'', ''1.0000000''),
                   (''version'', ''1'')],
      NodeElement [(''id'', ''-1002''), (''lat'', ''0.0000000''), (''lon'', ''0.0000000''),
                   (''version'', ''1'')],
      WayElement [(''id'', ''-1000''), (''version'', ''1'')] [''-1000'', ''-1001''],
      WayElement [(''id'', ''-1001''), (''version'', ''1'')] [''-1002'', ''-1001'']]"
proof -
  have ws: "osmWays toFixed7 osm_zero =
     [\<lparr>way_id = - 1000, refs = [- 1000, - 1001], highway = ''unclassified''\<rparr>,
      \<lparr>way_id = - 1001, refs = [- 1002, - 1001], highway = ''unclassified''\<rparr>]"
    unfolding osmWays_def osm_zero_nodeMap
    by (simp add: osm_zero_def buildWays_def addWay_def ndRefs_def coordKey_def
          toFixed7_0 toFixed7_tiny toFixed7_minus_tiny toFixed7_1 getProp_def orElse_def Let_def)
  show ?thesis
    by (simp add: readOSM_generateJOSM[OF osm_zero_safe(1) osm_example_safe(2) osm_zero_safe(2)]
          osmNodes_def osm_zero_nodeMap ws node_element_def way_element_def
          toFixed7_0 toFixed7_tiny toFixed7_minus_tiny toFixed7_1 string_of_int_values)
qed

subsection \<open>Referential closure\<close>

text \<open>
  Claim C10 fails on the document for a sequence whose id contains \<open>-->\<close>: the id is
  copied as it is into a comment of the header, so the comment ends inside the id and
  the rest of the id is markup of the document. For the id
  \<^verbatim>\<open>x --><way id='1'><nd ref='5' /></way><!-- \<close> and no features, the document has a way
  with a reference to a node \<open>5\<close> and has no node.
\<close>

theorem osm_comment_injection_counterexample:
  "seq_features osm_injected = [] \<and>
   str_includes (seq_id osm_injected) ''-->'' \<and>
   readOSM (generateJOSM env0 toFixed7 osm_injected) = [WayElement [(''id'', ''1'')] [''5'']]"
  by (simp add: injected_doc) (simp add: osm_injected_def)

text \<open>
  Claim C10, for every sequence whose id does not contain \<open>-->\<close> (nor does the time
  stamp, nor has \<open>toFixed(7)\<close> written a double quote for a coordinate). The document
  read back consists of its nodes followed by its ways. Every \<open>nd\<close> reference of every
  way is the id of a node of the document, which stands earlier. There is one way for
  every feature with at least two extracted coordinates, in the order of the features;
  it has one reference for every coordinate, in the order of the geometry, and the
  \<open>k\<close>-th reference is the id of a node whose \<open>lat\<close> and \<open>lon\<close> attributes spell the key
  of the \<open>k\<close>-th coordinate.
\<close>

theorem osm_document_closed:
  assumes "\<not> str_includes (seq_id sequence) ''-->''" "\<not> str_includes (nowISO e) ''-->''"
      and "\<forall>node \<in> set (osmNodes fix7 sequence).
             CHR 0x22 \<notin> set (fix7 (lat node)) \<and> CHR 0x22 \<notin> set (fix7 (lon node))"
  shows "readOSM (generateJOSM e fix7 sequence) =
           filter is_node_element (readOSM (generateJOSM e fix7 sequence)) @
           filter is_way_element (readOSM (generateJOSM e fix7 sequence)) \<and>
         (\<forall>w \<in> set (filter is_way_element (readOSM (generateJOSM e fix7 sequence))).
            \<forall>r \<in> set (element_refs w).
              \<exists>n \<in> set (filter is_node_element (readOSM (generateJOSM e fix7 sequence))).
                element_attr n ''id'' = Some r) \<and>
         length (filter is_way_element (readOSM (generateJOSM e fix7 sequence))) =
           length (filter hasWay (seq_features sequence)) \<and>
         (\<forall>j < length (filter hasWay (seq_features sequence)).
            length (element_refs (filter is_way_element (readOSM (generateJOSM e fix7 sequence)) ! j)) =
              length (coordsOf (filter hasWay (seq_features sequence) ! j)) \<and>
            (\<forall>k < length (coordsOf (filter hasWay (seq_features sequence) ! j)).
               \<exists>n \<in> set (filter is_node_element (readOSM (generateJOSM e fix7 sequence))).
                 element_attr n ''id'' =
                   Some (element_refs
                           (filter is_way_element (readOSM (generateJOSM e fix7 sequence)) ! j) ! k) \<and>
                 element_key n =
                   Some (coordKey fix7 (coordsOf (filter hasWay (seq_features sequence) ! j) ! k))))"
proof -
  let ?fs = "filter hasWay (seq_features sequence)"
  let ?es = "readOSM (generateJOSM e fix7 sequence)"
  note nodes = readOSM_nodes[OF assms] and ways = readOSM_ways[OF assms]
  note refs_j = readOSM_way_refs[OF assms] and node_of = readOSM_node_of[OF assms]
  have order: "?es = filter is_node_element ?es @ filter is_way_element ?es"
    unfolding nodes ways by (rule readOSM_generateJOSM[OF assms])
  have len: "length (filter is_way_element ?es) = length ?fs"
    by (simp add: ways osmWays_length)
  have closed: "\<exists>n \<in> set (filter is_node_element ?es). element_attr n ''id'' = Some r"
    if "w \<in> set (filter is_way_element ?es)" "r \<in> set (element_refs w)" for w r
  proof -
    from that(1) obtain j where j: "j < length (filter is_way_element ?es)"
      "filter is_way_element ?es ! j = w"
      unfolding in_set_conv_nth by blast
    from j(1) have jf: "j < length ?fs" by (simp add: len)
    have "?fs ! j \<in> set ?fs" using jf by (rule nth_mem)
    then have f: "?fs ! j \<in> set (seq_features sequence)" by simp
    from that(2) j(2) refs_j[OF jf] obtain c where
      c: "c \<in> set (coordsOf (?fs ! j))" "r = string_of_int (nodeIdOf fix7 sequence c)"
      by auto
    from node_of[OF f c(1)] c(2) show ?thesis by blast
  qed
  have per_way: "length (element_refs (filter is_way_element ?es ! j)) = length (coordsOf (?fs ! j)) \<and>
                 (\<forall>k < length (coordsOf (?fs ! j)).
                    \<exists>n \<in> set (filter is_node_element ?es).
                      element_attr n ''id'' = Some (element_refs (filter is_way_element ?es ! j) ! k) \<and>
                      element_key n = Some (coordKey fix7 (coordsOf (?fs ! j) ! k)))"
    if jf: "j < length ?fs" for j
  proof -
    have "?fs ! j \<in> set ?fs" using jf by (rule nth_mem)
    then have f: "?fs ! j \<in> set (seq_features sequence)" by simp
    have "\<exists>n \<in> set (filter is_node_element ?es).
            element_attr n ''id'' = Some (element_refs (filter is_way_element ?es ! j) ! k) \<and>
            element_key n = Some (coordKey fix7 (coordsOf (?fs ! j) ! k))"
      if k: "k < length (coordsOf (?fs ! j))" for k
    proof -
      have "coordsOf (?fs ! j) ! k \<in> set (coordsOf (?fs ! j))" using k by (rule nth_mem)
      from node_of[OF f this] show ?thesis using k by (simp add: refs_j[OF jf])
    qed
    then show ?thesis by (simp add: refs_j[OF jf])
  qed
  from order closed len per_way show ?thesis by blast
qed

theorem osm_document_closed_witness:
  "readOSM (generateJOSM env0 toFixed7 osm_example) =
     [NodeElement [(''id'', ''-1000''), (''lat'', ''1.0000000''), (''lon'', ''103.0000000''),
                   (''version'', ''1'')],
      NodeElement [(''id'', ''-1001''), (''lat'', ''1.1000000''), (''lon'', ''103.1000000''),
                   (''version'', ''1'')],
      NodeElement [(''id'', ''-1002''), (''lat'', ''1.2000000''), (''lon'', ''103.2000000''),
                   (''version'', ''1'')],
      WayElement [(''id'', ''-1000''), (''version'', ''1'')] [''-1000'', ''-1001''],
      WayElement [(''id'', ''-1001''), (''version'', ''1'')] [''-1001'', ''-1002'']] \<and>
   map coordsOf (filter hasWay (seq_features osm_example)) =
     [[(103, 1), (103.1, 1.1)], [(103.1, 1.1), (103.2, 1.2)]] \<and>
   map element_refs (filter is_way_element (readOSM (generateJOSM env0 toFixed7 osm_example))) =
     [[''-1000'', ''-1001''], [''-1001'', ''-1002'']] \<and>
   map (\<lambda>n. element_attr n ''id'')
     (filter is_node_element (readOSM (generateJOSM env0 toFixed7 osm_example))) =
     [Some ''-1000'', Some ''-1001'', Some ''-1002'']"
  using osm_document_closed[OF osm_example_safe]
  by (simp add: osm_example_document) (simp add: osm_example_def hasWay_def coordsOf_def)

subsection \<open>One node per coordinate key\<close>

text \<open>
  Claim C6, as stated, fails in two ways. A LineString of a single coordinate, which the
  GPX parser produces for a segment of one point, has a node but no way, because the
  loop over the ways skips a feature with fewer than two coordinates: the document for
  \<open>osm_short\<close> has one node for the shared coordinate and a single way. And the key is
  the text that \<open>toFixed(7)\<close> writes, which keeps the sign of a number that rounds to
  zero: the latitudes \<open>-0.00000001\<close> and \<open>0.00000001\<close> are equal to seven decimals, but
  the document for \<open>osm_zero\<close> has a node \<open>-0.0000000\<close> and a node \<open>0.0000000\<close>, and each of
  the two ways refers to its own.
\<close>

theorem osm_single_coordinate_counterexample:
  "map geometry (seq_features osm_short) =
     [Some (LineString [(103, 1), (103.1, 1.1)]), Some (LineString [(103.1, 1.1)])] \<and>
   readOSM (generateJOSM env0 toFixed7 osm_short) =
     [NodeElement [(''id'', ''-1000''), (''lat'', ''1.0000000''), (''lon'', ''103.0000000''),
                   (''version'', ''1'')],
      NodeElement [(''id'', ''-1001''), (''lat'', ''1.1000000''), (''lon'', ''103.1000000''),
                   (''version'', ''1'')],
      WayElement [(''id'', ''-1000''), (''version'', ''1'')] [''-1000'', ''-1001'']] \<and>
   map geometry (seq_features osm_zero) =
     [Some (LineString [(0, - (1 / 100000000)), (1, 1)]),
      Some (LineString [(0, 1 / 100000000), (1, 1)])] \<and>
   readOSM (generateJOSM env0 toFixed7 osm_zero) =
     [NodeElement [(''id'', ''-1000''), (''lat'', ''-0.0000000''), (''lon'', ''0.0000000''),
                   (''version'', ''1'')],
      NodeElement [(''id'', ''-1001''), (''lat'', ''1.0000000''), (''lon'', ''1.0000000''),
                   (''version'', ''1'')],
      NodeElement [(''id'', ''-1002''), (''lat'', ''0.0000000''), (''lon'', ''0.0000000''),
                   (''version'', ''1'')],
      WayElement [(''id'', ''-1000''), (''version'', ''1'')] [''-1000'', ''-1001''],
      WayElement [(''id'', ''-1001''), (''version'', ''1'')] [''-1002'', ''-1001'']]"
  by (simp add: osm_short_document osm_zero_document) (simp add: osm_short_def osm_zero_def)

text \<open>
  Claim C6, amended. Let the id of a sequence not contain \<open>-->\<close> (nor the time stamp, nor
  has \<open>toFixed(7)\<close> written a double quote for a coordinate), and let the sequence contain
  two LineString features with an endpoint of one and an endpoint of the other that
  have the same key, that is, for which \<open>toFixed(7)\<close> writes the same latitude and the
  same longitude. Then the document has exactly one node whose \<open>lat\<close> and \<open>lon\<close>
  attributes spell that key, and every way of the document that is written for either
  feature has the id of that node among its \<open>nd\<close> references. The ways of the document
  are those of the features with at least two coordinates, in their order, so each of the
  two features has a way exactly when it has at least two coordinates. The ids of the
  nodes, in the order of the document, are \<open>-1000, -1001, -1002, \<dots>\<close>.
\<close>

theorem osm_document_single_node:
  assumes "\<not> str_includes (seq_id sequence) ''-->''" "\<not> str_includes (nowISO e) ''-->''"
      and "\<forall>node \<in> set (osmNodes fix7 sequence).
             CHR 0x22 \<notin> set (fix7 (lat node)) \<and> CHR 0x22 \<notin> set (fix7 (lon node))"
      and "f \<in> set (seq_features sequence)" "geometry f = Some (LineString cs)"
      and "g \<in> set (seq_features sequence)" "geometry g = Some (LineString ds)"
      and "cs \<noteq> []" "ds \<noteq> []"
      and "c = hd cs \<or> c = last cs" "d = hd ds \<or> d = last ds"
      and "coordKey fix7 c = coordKey fix7 d"
  shows "(\<exists>n i. filter (\<lambda>el. is_node_element el \<and> element_key el = Some (coordKey fix7 c))
                   (readOSM (generateJOSM e fix7 sequence)) = [n] \<and>
                element_attr n ''id'' = Some i \<and>
                (\<forall>j < length (filter is_way_element (readOSM (generateJOSM e fix7 sequence))).
                    filter hasWay (seq_features sequence) ! j = f \<or>
                    filter hasWay (seq_features sequence) ! j = g \<longrightarrow>
                    i \<in> set (element_refs
                               (filter is_way_element (readOSM (generateJOSM e fix7 sequence)) ! j)))) \<and>
         length (filter is_way_element (readOSM (generateJOSM e fix7 sequence))) =
           length (filter hasWay (seq_features sequence)) \<and>
         (f \<in> set (filter hasWay (seq_features sequence)) \<longleftrightarrow> 2 \<le> length cs) \<and>
         (g \<in> set (filter hasWay (seq_features sequence)) \<longleftrightarrow> 2 \<le> length ds) \<and>
         map (\<lambda>el. element_attr el ''id'')
           (filter is_node_element (readOSM (generateJOSM e fix7 sequence))) =
           map (\<lambda>i. Some (string_of_int (- 1000 - int i)))
             [0 ..< length (filter is_node_element (readOSM (generateJOSM e fix7 sequence)))]"
proof -
  let ?fs = "filter hasWay (seq_features sequence)"
  let ?es = "readOSM (generateJOSM e fix7 sequence)"
  let ?ns = "osmNodes fix7 sequence"
  note safe = assms(1-3)
  note nodes = readOSM_nodes[OF safe] and ways = readOSM_ways[OF safe]
  note refs_j = readOSM_way_refs[OF safe]
  have es: "?es = map (node_element fix7) ?ns @ map way_element (osmWays fix7 sequence)"
    by (rule readOSM_generateJOSM[OF safe])
  have cf: "coordsOf f = cs" and cg: "coordsOf g = ds"
    using assms(5,7) by (simp_all add: coordsOf_def)
  have wf: "f \<in> set ?fs \<longleftrightarrow> 2 \<le> length cs" and wg: "g \<in> set ?fs \<longleftrightarrow> 2 \<le> length ds"
    using assms(4,6) by (simp_all add: hasWay_def cf cg)
  have c: "c \<in> set cs" and d: "d \<in> set ds"
    using assms(8-11) by (auto simp: hd_in_set last_in_set)
  from single_node_for_key[OF assms(4), of c fix7] c cf obtain n0 where
    n0: "filter (\<lambda>n. nodeKey fix7 n = coordKey fix7 c) ?ns = [n0]"
        "nodeIdOf fix7 sequence c = node_id n0"
    by auto
  have nd: "nodeIdOf fix7 sequence d = node_id n0"
    using nodeIdOf_key[OF assms(12), of sequence] n0(2) by simp
  have single: "filter (\<lambda>el. is_node_element el \<and> element_key el = Some (coordKey fix7 c)) ?es =
                  [node_element fix7 n0]"
  proof -
    have "filter (\<lambda>el. is_node_element el \<and> element_key el = Some (coordKey fix7 c)) ?es =
          map (node_element fix7) (filter (\<lambda>n. nodeKey fix7 n = coordKey fix7 c) ?ns)"
      unfolding es by (simp add: filter_map comp_def)
    then show ?thesis by (simp add: n0(1))
  qed
  have len: "length (filter is_way_element ?es) = length ?fs"
    by (simp add: ways osmWays_length)
  have all: "string_of_int (node_id n0) \<in> set (element_refs (filter is_way_element ?es ! j))"
    if "j < length (filter is_way_element ?es)" "?fs ! j = f \<or> ?fs ! j = g" for j
  proof -
    from that(1) have jf: "j < length ?fs" by (simp add: len)
    from that(2) show ?thesis
    proof
      assume "?fs ! j = f"
      then have "element_refs (filter is_way_element ?es ! j) =
                 map (\<lambda>c. string_of_int (nodeIdOf fix7 sequence c)) cs"
        using refs_j[OF jf] cf by simp
      then show ?thesis using c n0(2) by force
    next
      assume "?fs ! j = g"
      then have "element_refs (filter is_way_element ?es ! j) =
                 map (\<lambda>c. string_of_int (nodeIdOf fix7 sequence c)) ds"
        using refs_j[OF jf] cg by simp
      then show ?thesis using d nd by force
    qed
  qed
  have ids: "map (\<lambda>el. element_attr el ''id'') (filter is_node_element ?es) =
             map (\<lambda>i. Some (string_of_int (- 1000 - int i)))
               [0 ..< length (filter is_node_element ?es)]"
  proof -
    have "map (\<lambda>el. element_attr el ''id'') (filter is_node_element ?es) =
          map (\<lambda>i. Some (string_of_int i)) (map node_id ?ns)"
      by (simp add: nodes comp_def)
    also have "\<dots> = map (\<lambda>i. Some (string_of_int (- 1000 - int i))) [0 ..< length ?ns]"
      by (simp only: osmNodes_ids) (simp add: comp_def)
    finally show ?thesis by (simp add: nodes)
  qed
  have "element_attr (node_element fix7 n0) ''id'' = Some (string_of_int (node_id n0))" by simp
  with single all have first:
    "\<exists>n i. filter (\<lambda>el. is_node_element el \<and> element_key el = Some (coordKey fix7 c)) ?es = [n] \<and>
           element_attr n ''id'' = Some i \<and>
           (\<forall>j < length (filter is_way_element ?es). ?fs ! j = f \<or> ?fs ! j = g \<longrightarrow>
              i \<in> set (element_refs (filter is_way_element ?es ! j)))"
    by blast
  from first len wf wg ids show ?thesis by (intro conjI)
qed

theorem osm_document_single_node_witness:
  "coordKey toFixed7 (103.1, 1.1) = ''1.1000000,103.1000000'' \<and>
   filter (\<lambda>el. is_node_element el \<and> element_key el = Some ''1.1000000,103.1000000'')
     (readOSM (generateJOSM env0 toFixed7 osm_example)) =
     [NodeElement [(''id'', ''-1001''), (''lat'', ''1.1000000''), (''lon'', ''103.1000000''),
                   (''version'', ''1'')]] \<and>
   map element_refs (filter is_way_element (readOSM (generateJOSM env0 toFixed7 osm_example))) =
     [[''-1000'', ''-1001''], [''-1001'', ''-1002'']] \<and>
   map (\<lambda>el. element_attr el ''id'')
     (filter is_node_element (readOSM (generateJOSM env0 toFixed7 osm_example))) =
     [Some ''-1000'', Some ''-1001'', Some ''-1002'']"
proof -
  let ?f = "\<lparr>geometry = Some (LineString [(103, 1), (103.1, 1.1)]),
            properties = Some [''highway'' \<mapsto> JStr ''residential'']\<rparr>"
  let ?g = "\<lparr>geometry = Some (LineString [(103.1, 1.1), (103.2, 1.2)]), properties = None\<rparr>"
  have "?f \<in> set (seq_features osm_example)" "?g \<in> set (seq_features osm_example)"
    by (simp_all add: osm_example_def)
  from osm_document_single_node[OF osm_example_safe this(1) _ this(2), of "[(103, 1), (103.1, 1.1)]"
      "[(103.1, 1.1), (103.2, 1.2)]" "(103.1, 1.1)" "(103.1, 1.1)"]
  show ?thesis
    by (simp add: osm_example_document element_key_def coordKey_def toFixed7_values)
qed

section \<open>CSV parsing\<close>

text \<open>
  A value returned by \<open>JSON.parse\<close>, and the functions of the host that the parser calls:
  \<open>parseFloat\<close> on a string and on a parsed value (\<open>None\<close> for \<open>NaN\<close>), \<open>JSON.parse\<close>
  (\<open>None\<close> when it throws) and \<open>JSON.stringify\<close>.
\<close>

datatype json =
    JsNull | JsBool bool | JsNum real | JsStr string
  | JsArr "json list" | JsObj "(string \<times> json) list"

record host =
  parseFloat :: "string \<Rightarrow> real option"
  parseFloatJ :: "json \<Rightarrow> real option"
  JSON_parse :: "string \<Rightarrow> json option"
  JSON_stringify :: "json \<Rightarrow> string"

text \<open>
  String functions: \<open>trim\<close>, \<open>toLowerCase\<close> (on the letters of ASCII), and \<open>splitOn\<close>
  for \<open>split\<close> with a separator of one character.
\<close>

definition trim :: "string \<Rightarrow> string" where
  "trim s = rev (dropWhile is_space (rev (dropWhile is_space s)))"

definition lowerChar :: "char \<Rightarrow> char" where
  "lowerChar c =
     (case map_of (zip ''ABCDEFGHIJKLMNOPQRSTUVWXYZ'' ''abcdefghijklmnopqrstuvwxyz'') c of
        Some l \<Rightarrow> l
      | None \<Rightarrow> c)"

definition toLowerCase :: "string \<Rightarrow> string" where
  "toLowerCase s = map lowerChar s"

definition split_step :: "char \<Rightarrow> char \<Rightarrow> string list \<times> string \<Rightarrow> string list \<times> string" where
  "split_step sep c acc = (if c = sep then (fst acc @ [snd acc], []) else (fst acc, snd acc @ [c]))"

definition splitOn :: "char \<Rightarrow> string \<Rightarrow> string list" where
  "splitOn sep s = (let acc = fold (split_step sep) s ([], []) in fst acc @ [snd acc])"

text \<open>
  \<open>csvLines\<close> are the lines that are not blank. \<open>parseCSVLine\<close> splits a line at the commas
  outside double quotes; \<open>lineStep\<close> is the body of its loop on \<open>(result, current,
  inQuotes)\<close>.
\<close>

definition csvLines :: "string \<Rightarrow> string list" where
  "csvLines csvText = filter (\<lambda>line. trim line \<noteq> []) (splitOn (CHR 0x0A) csvText)"

definition lineStep :: "char \<Rightarrow> string list \<times> string \<times> bool \<Rightarrow> string list \<times> string \<times> bool" where
  "lineStep char acc =
     (let result = fst acc; current = fst (snd acc); inQuotes = snd (snd acc)
      in if char = CHR 0x22 then (result, current, \<not> inQuotes)
         else if char = CHR '','' \<and> \<not> inQuotes then (result @ [trim current], [], inQuotes)
         else (result, current @ [char], inQuotes))"

definition parseCSVLine :: "string \<Rightarrow> string list" where
  "parseCSVLine line =
     (let acc = fold lineStep line ([], [], False)
      in fst acc @ [trim (fst (snd acc))])"

text \<open>
  The column indices, \<open>None\<close> for \<open>-1\<close>, and the \<open>forEach\<close> over the header that sets each
  of them at the first column that matches.
\<close>

record columns =
  latLongArrayIndex :: "nat option"
  latIndex :: "nat option"
  lonIndex :: "nat option"
  sequenceIdIndex :: "nat option"

definition latLongArrayNames :: "string list" where
  "latLongArrayNames = [''lat_long_array'', ''latlongarray'', ''coordinates'', ''coords'', ''points'']"

definition latNames :: "string list" where
  "latNames = [''lat'', ''latitude'', ''y'', ''ycoord'']"

definition lonNames :: "string list" where
  "lonNames = [''lon'', ''lng'', ''longitude'', ''long'', ''x'', ''xcoord'']"

definition seqIdNames :: "string list" where
  "seqIdNames = [''offroad_sequence_id'', ''sequence_id'', ''sequenceid'', ''sequence'', ''seq'', ''id'']"

definition detectColumn :: "nat \<times> string \<Rightarrow> columns \<Rightarrow> columns" where
  "detectColumn ic cols =
     (let index = fst ic; colLower = trim (toLowerCase (snd ic));
          c1 = (if latLongArrayIndex cols = None \<and> list_ex (\<lambda>name. colLower = name) latLongArrayNames
                then cols\<lparr>latLongArrayIndex := Some index\<rparr> else cols);
          c2 = (if latIndex c1 = None \<and> list_ex (\<lambda>name. str_includes colLower name) latNames
                then c1\<lparr>latIndex := Some index\<rparr> else c1);
          c3 = (if lonIndex c2 = None \<and> list_ex (\<lambda>name. str_includes colLower name) lonNames
                then c2\<lparr>lonIndex := Some index\<rparr> else c2)
      in if sequenceIdIndex c3 = None \<and> list_ex (\<lambda>name. colLower = name) seqIdNames
         then c3\<lparr>sequenceIdIndex := Some index\<rparr> else c3)"

definition detectColumns :: "string list \<Rightarrow> columns" where
  "detectColumns header =
     fold detectColumn (enumerate 0 header)
       \<lparr>latLongArrayIndex = None, latIndex = None, lonIndex = None, sequenceIdIndex = None\<rparr>"

text \<open>
  \<open>cell row idx\<close> is \<open>row[idx]\<close>, \<open>None\<close> when the row is shorter. \<open>filled row idx\<close> is the
  test \<open>row[idx] && row[idx].trim()\<close>. \<open>rowSequenceId\<close> is the key of row \<open>i\<close>: the
  sequence-id column, else the \<open>group\<close> column, else \<open>csv_sequence_i\<close>.
\<close>

definition cell :: "string list \<Rightarrow> nat \<Rightarrow> string option" where
  "cell row idx = (if idx < length row then Some (row ! idx) else None)"

definition filled :: "string list \<Rightarrow> nat \<Rightarrow> bool" where
  "filled row idx = (case cell row idx of None \<Rightarrow> False | Some s \<Rightarrow> s \<noteq> [] \<and> trim s \<noteq> [])"

fun findIndexNat :: "('a \<Rightarrow> bool) \<Rightarrow> 'a list \<Rightarrow> nat option" where
  "findIndexNat P [] = None"
| "findIndexNat P (x # xs) = (if P x then Some 0 else map_option Suc (findIndexNat P xs))"

definition rowSequenceId :: "string list \<Rightarrow> columns \<Rightarrow> string list \<Rightarrow> nat \<Rightarrow> string" where
  "rowSequenceId header cols row i =
     (case sequenceIdIndex cols of
        Some k \<Rightarrow>
          if filled row k then trim (row ! k)
          else (case findIndexNat (\<lambda>col. trim (toLowerCase col) = ''group'') header of
                  Some groupIndex \<Rightarrow>
                    if filled row groupIndex then trim (row ! groupIndex)
                    else ''csv_sequence_'' @ string_of_nat i
                | None \<Rightarrow> ''csv_sequence_'' @ string_of_nat i)
      | None \<Rightarrow>
          (case findIndexNat (\<lambda>col. trim (toLowerCase col) = ''group'') header of
             Some groupIndex \<Rightarrow>
               if filled row groupIndex then trim (row ! groupIndex)
               else ''csv_sequence_'' @ string_of_nat i
           | None \<Rightarrow> ''csv_sequence_'' @ string_of_nat i))"

text \<open>
  The entries of \<open>sequenceMap\<close>. \<open>setValues xs\<close> is \<open>[...new Set(xs)]\<close>: a value is left out
  when an equal primitive value came before; arrays and objects, compared by identity, are
  all kept. \<open>mergeArrayCell\<close> is the \<open>try\<close> block that merges a \<open>bookingcodes\<close> or \<open>wheels\<close>
  cell; when \<open>JSON.parse\<close> throws, the properties stay as they are.
\<close>

record csvSequence =
  csv_id :: string
  coordinates :: "coord list"
  csv_properties :: "string \<Rightarrow> string option"
  rowCount :: nat

fun is_primitive :: "json \<Rightarrow> bool" where
  "is_primitive (JsArr xs) = False"
| "is_primitive (JsObj kvs) = False"
| "is_primitive v = True"

definition setAdd :: "json \<Rightarrow> json list \<Rightarrow> json list" where
  "setAdd x acc = (if is_primitive x \<and> List.member acc x then acc else acc @ [x])"

definition setValues :: "json list \<Rightarrow> json list" where
  "setValues xs = fold setAdd xs []"

definition mergeArrayCell ::
  "host \<Rightarrow> string \<Rightarrow> string \<Rightarrow> (string \<Rightarrow> string option) \<Rightarrow> (string \<Rightarrow> string option)" where
  "mergeArrayCell h colName newText props =
     (case JSON_parse h (case props colName of None \<Rightarrow> ''[]'' | Some s \<Rightarrow> if s = [] then ''[]'' else s) of
        None \<Rightarrow> props
      | Some existing \<Rightarrow>
          (case JSON_parse h newText of
             None \<Rightarrow> props
           | Some newArray \<Rightarrow>
               (case (existing, newArray) of
                  (JsArr es, JsArr ns) \<Rightarrow>
                    props(colName \<mapsto> JSON_stringify h (JsArr (setValues (es @ ns))))
                | _ \<Rightarrow> props)))"

text \<open>
  The two \<open>forEach\<close> loops over the header that fill the properties, for the first row of
  a sequence and for a later one.
\<close>

definition firstRowProperty ::
  "string list \<Rightarrow> nat \<times> string \<Rightarrow> (string \<Rightarrow> string option) \<Rightarrow> (string \<Rightarrow> string option)" where
  "firstRowProperty row ic props =
     (let idx = fst ic; colName = snd ic
      in if filled row idx then props(trim colName \<mapsto> trim (row ! idx)) else props)"

definition laterRowProperty ::
  "host \<Rightarrow> string list \<Rightarrow> nat \<times> string \<Rightarrow> (string \<Rightarrow> string option) \<Rightarrow> (string \<Rightarrow> string option)" where
  "laterRowProperty h row ic props =
     (let idx = fst ic; colName = snd ic; colLower = trim (toLowerCase colName)
      in if filled row idx \<and> (colLower = ''bookingcodes'' \<or> colLower = ''wheels'')
         then mergeArrayCell h colName (trim (row ! idx)) props
         else props)"

text \<open>
  The coordinates of a row: from the array column when the row has a non-empty cell
  there (a pair \<open>[lat, lon]\<close> becomes \<open>[lon, lat]\<close>; entries that are not pairs of numbers
  are dropped; nothing when \<open>JSON.parse\<close> throws or the value is not an array), else from
  the latitude and longitude columns.
\<close>

definition pairCoordinate :: "host \<Rightarrow> json \<Rightarrow> coord option" where
  "pairCoordinate h coord =
     (case coord of
        JsArr (a # b # rest) \<Rightarrow>
          (case (parseFloatJ h b, parseFloatJ h a) of
             (Some x, Some y) \<Rightarrow> Some (x, y)
           | _ \<Rightarrow> None)
      | _ \<Rightarrow> None)"

definition rowCoordinates :: "host \<Rightarrow> columns \<Rightarrow> string list \<Rightarrow> coord list" where
  "rowCoordinates h cols row =
     (let arrayCell = (case latLongArrayIndex cols of
                         None \<Rightarrow> None
                       | Some k \<Rightarrow> (case cell row k of
                                      None \<Rightarrow> None
                                    | Some s \<Rightarrow> if s = [] then None else Some s))
      in case arrayCell of
           Some s \<Rightarrow>
             (case JSON_parse h (trim s) of
                Some (JsArr coordArray) \<Rightarrow> List.map_filter (pairCoordinate h) coordArray
              | _ \<Rightarrow> [])
         | None \<Rightarrow>
             (case (latIndex cols, lonIndex cols) of
                (Some la, Some lo) \<Rightarrow>
                  (case (Option.bind (cell row la) (parseFloat h),
                         Option.bind (cell row lo) (parseFloat h)) of
                     (Some latitude, Some longitude) \<Rightarrow> [(longitude, latitude)]
                   | _ \<Rightarrow> [])
              | _ \<Rightarrow> []))"

text \<open>
  \<open>processRow\<close> is the body of the loop over the rows, at index \<open>i\<close>. It is the same text in
  \<open>parseCSVSync\<close> and in \<open>parseCSVAsync\<close>.
\<close>

definition processRow ::
  "host \<Rightarrow> string list \<Rightarrow> columns \<Rightarrow> string list \<Rightarrow> nat \<Rightarrow>
   (string \<times> csvSequence) list \<Rightarrow> (string \<times> csvSequence) list" where
  "processRow h header cols lines i sequenceMap =
     (let row = parseCSVLine (lines ! i)
      in if length row = 0 then sequenceMap
         else
           let sequenceId = rowSequenceId header cols row i;
               sequenceMap1 =
                 (if \<not> Map_has sequenceMap sequenceId
                  then AList.update sequenceId
                         \<lparr>csv_id = sequenceId, coordinates = [], csv_properties = Map.empty,
                          rowCount = 0\<rparr> sequenceMap
                  else sequenceMap);
               coords = rowCoordinates h cols row
           in AList.map_entry sequenceId
                (\<lambda>sequence.
                   let counted = sequence\<lparr>rowCount := rowCount sequence + 1\<rparr>;
                       merged =
                         (if rowCount counted = 1
                          then counted\<lparr>csv_properties :=
                                 fold (firstRowProperty row) (enumerate 0 header)
                                   (csv_properties counted)\<rparr>
                          else counted\<lparr>csv_properties :=
                                 fold (laterRowProperty h row) (enumerate 0 header)
                                   (csv_properties counted)\<rparr>)
                   in if coords \<noteq> []
                      then merged\<lparr>coordinates := coordinates merged @ coords\<rparr>
                      else merged)
                sequenceMap1)"

text \<open>The features: none for a sequence without coordinates, else a Point or a LineString.\<close>

definition toFeature :: "csvSequence \<Rightarrow> feature list" where
  "toFeature sequence =
     (if coordinates sequence = [] then []
      else
        let props = (csv_properties sequence)(''sequence_id'' \<mapsto> csv_id sequence);
            properties = Some (\<lambda>k. map_option JStr (props k))
        in if length (coordinates sequence) = 1
           then [\<lparr>geometry = Some (Point (coordinates sequence ! 0)), properties = properties\<rparr>]
           else [\<lparr>geometry = Some (LineString (coordinates sequence)), properties = properties\<rparr>])"

definition toFeatures :: "(string \<times> csvSequence) list \<Rightarrow> feature list" where
  "toFeatures sequenceMap = concat (map toFeature (map snd sequenceMap))"

text \<open>
  The two parsers. They throw on fewer than two lines and when neither the array column
  nor both coordinate columns are found.
\<close>

definition parseCSVSync :: "host \<Rightarrow> string \<Rightarrow> error + feature list" where
  "parseCSVSync h csvText =
     (let lines = csvLines csvText
      in if length lines < 2 then Inl CsvTooShort
         else
           let header = parseCSVLine (lines ! 0);
               cols = detectColumns header
           in if latLongArrayIndex cols = None \<and> (latIndex cols = None \<or> lonIndex cols = None)
              then Inl CsvNoCoordinateColumns
              else Inr (toFeatures
                          (fold (processRow h header cols lines) [1 ..< length lines] [])))"

definition parseCSVAsync :: "host \<Rightarrow> string \<Rightarrow> error + feature list" where
  "parseCSVAsync h csvText =
     (let lines = csvLines csvText
      in if length lines < 2 then Inl CsvTooShort
         else
           let header = parseCSVLine (lines ! 0);
               cols = detectColumns header
           in if latLongArrayIndex cols = None \<and> (latIndex cols = None \<or> lonIndex cols = None)
              then Inl CsvNoCoordinateColumns
              else Inr (toFeatures
                          (chunked_for 50 1 (length lines) (processRow h header cols lines) [])))"

definition parseCSV :: "host \<Rightarrow> string \<Rightarrow> error + feature list" where
  "parseCSV h csvText = parseCSVSync h csvText"

subsection \<open>A concrete run\<close>

text \<open>
  \<open>parseFloat\<close> on decimal literals: optional sign, digits with an optional fraction, an
  optional exponent; the value is exact, and the literal \<open>Infinity\<close> is not read. The
  other functions of \<open>host0\<close> fail on every input; the example has no JSON cell.
\<close>

definition is_digit :: "char \<Rightarrow> bool" where
  "is_digit c = (digit_value 10 c \<noteq> None)"

definition parseFloat_dec :: "string \<Rightarrow> real option" where
  "parseFloat_dec s =
     (let t = dropWhile is_space s;
          negative = (take 1 t = ''-'');
          t1 = (if take 1 t = ''-'' \<or> take 1 t = ''+'' then drop 1 t else t);
          intDigits = takeWhile is_digit t1;
          t2 = dropWhile is_digit t1;
          fracDigits = (if take 1 t2 = ''.'' then takeWhile is_digit (drop 1 t2) else []);
          t3 = (if take 1 t2 = ''.'' then dropWhile is_digit (drop 1 t2) else t2);
          hasE = (take 1 t3 = ''e'' \<or> take 1 t3 = ''E'');
          t4 = drop 1 t3;
          expNegative = (take 1 t4 = ''-'');
          t5 = (if take 1 t4 = ''-'' \<or> take 1 t4 = ''+'' then drop 1 t4 else t4);
          expDigits = (if hasE then takeWhile is_digit t5 else []);
          mantissa = real (digits_value 10 intDigits) +
                     real (digits_value 10 fracDigits) / 10 ^ length fracDigits;
          scaled = (if expNegative then mantissa / 10 ^ digits_value 10 expDigits
                    else mantissa * 10 ^ digits_value 10 expDigits)
      in if intDigits = [] \<and> fracDigits = [] then None
         else Some (if negative then - scaled else scaled))"

definition csv_example :: string where
  "csv_example =
     ''sequence_id,lat,lon'' @ [CHR 0x0A] @
     ''A,1.0,103.0'' @ [CHR 0x0A] @
     ''A,1.1,103.1'' @ [CHR 0x0A] @
     ''B,1.2,103.2''"

lemma csv_example_lines:
  "csvLines csv_example = [''sequence_id,lat,lon'', ''A,1.0,103.0'', ''A,1.1,103.1'', ''B,1.2,103.2'']"
  by (simp add: csvLines_def csv_example_def splitOn_def split_step_def trim_def is_space_def)

lemma csv_example_header:
  "parseCSVLine ''sequence_id,lat,lon'' = [''sequence_id'', ''lat'', ''lon'']"
  by (simp add: parseCSVLine_def lineStep_def trim_def is_space_def)

lemma csv_example_rows:
  "parseCSVLine ''A,1.0,103.0'' = [''A'', ''1.0'', ''103.0'']"
  "parseCSVLine ''A,1.1,103.1'' = [''A'', ''1.1'', ''103.1'']"
  "parseCSVLine ''B,1.2,103.2'' = [''B'', ''1.2'', ''103.2'']"
  by (simp_all add: parseCSVLine_def lineStep_def trim_def is_space_def)

lemma csv_example_columns:
  "detectColumns [''sequence_id'', ''lat'', ''lon''] =
     \<lparr>latLongArrayIndex = None, latIndex = Some (Suc 0), lonIndex = Some 2, sequenceIdIndex = Some 0\<rparr>"
  by (simp add: detectColumns_def detectColumn_def trim_def is_space_def toLowerCase_def
        lowerChar_def latLongArrayNames_def latNames_def lonNames_def seqIdNames_def Let_def)

lemma csv_example_numbers:
  "parseFloat_dec ''1.0'' = Some 1" "parseFloat_dec ''103.0'' = Some 103"
  "parseFloat_dec ''1.1'' = Some 1.1" "parseFloat_dec ''103.1'' = Some 103.1"
  "parseFloat_dec ''1.2'' = Some 1.2" "parseFloat_dec ''103.2'' = Some 103.2"
  by (simp_all add: parseFloat_dec_def is_space_def is_digit_def digit_value_def digits_value_def
        Let_def)

lemma csv_example_ids:
  "rowSequenceId [''sequence_id'', ''lat'', ''lon'']
     \<lparr>latLongArrayIndex = None, latIndex = Some (Suc 0), lonIndex = Some 2, sequenceIdIndex = Some 0\<rparr>
     [''A'', x, y] i = ''A''"
  "rowSequenceId [''sequence_id'', ''lat'', ''lon'']
     \<lparr>latLongArrayIndex = None, latIndex = Some (Suc 0), lonIndex = Some 2, sequenceIdIndex = Some 0\<rparr>
     [''B'', x, y] i = ''B''"
  by (simp_all add: rowSequenceId_def filled_def cell_def trim_def is_space_def)

lemma csv_example_coords:
  "rowCoordinates (h\<lparr>parseFloat := parseFloat_dec\<rparr>)
     \<lparr>latLongArrayIndex = None, latIndex = Some (Suc 0), lonIndex = Some 2, sequenceIdIndex = Some 0\<rparr>
     [k, ''1.0'', ''103.0''] = [(103, 1)]"
  "rowCoordinates (h\<lparr>parseFloat := parseFloat_dec\<rparr>)
     \<lparr>latLongArrayIndex = None, latIndex = Some (Suc 0), lonIndex = Some 2, sequenceIdIndex = Some 0\<rparr>
     [k, ''1.1'', ''103.1''] = [(103.1, 1.1)]"
  "rowCoordinates (h\<lparr>parseFloat := parseFloat_dec\<rparr>)
     \<lparr>latLongArrayIndex = None, latIndex = Some (Suc 0), lonIndex = Some 2, sequenceIdIndex = Some 0\<rparr>
     [k, ''1.2'', ''103.2''] = [(103.2, 1.2)]"
  by (simp_all add: rowCoordinates_def cell_def csv_example_numbers)

lemma csv_example_indices: "[1 ..< 4] = [1, 2, 3]"
  by (simp add: upt_rec)

lemma csv_example_result:
  "case parseCSVSync (h\<lparr>parseFloat := parseFloat_dec\<rparr>) csv_example of
     Inl err \<Rightarrow> False
   | Inr fs \<Rightarrow>
       map geometry fs =
         [Some (LineString [(103, 1), (103.1, 1.1)]), Some (Point (103.2, 1.2))] \<and>
       map (\<lambda>f. getProp f ''sequence_id'') fs = [Some (JStr ''A''), Some (JStr ''B'')]"
  by (simp add: parseCSVSync_def csv_example_lines csv_example_header csv_example_rows
        csv_example_columns csv_example_ids csv_example_coords processRow_def Map_has_def
        toFeatures_def toFeature_def getProp_def csv_example_indices firstRowProperty_def laterRowProperty_def
        filled_def cell_def trim_def is_space_def Let_def)

definition host0 :: host where
  "host0 = \<lparr>parseFloat = parseFloat_dec, parseFloatJ = (\<lambda>v. None),
            JSON_parse = (\<lambda>s. None), JSON_stringify = (\<lambda>v. [])\<rparr>"

lemma chunked_rows: "chunked_for 50 1 n body s = fold body [1 ..< n] s"
  by (simp add: chunked_for_fold)

lemma parseCSV_async_sync: "parseCSVAsync h csvText = parseCSVSync h csvText"
  unfolding parseCSVAsync_def parseCSVSync_def chunked_rows ..

text \<open>
  Claim C8. With \<open>parseFloat\<close> reading decimal literals, whatever the other functions of
  the host do, the text of the header \<open>sequence_id,lat,lon\<close> and the rows \<open>A,1.0,103.0\<close>,
  \<open>A,1.1,103.1\<close>, \<open>B,1.2,103.2\<close> parses to exactly two features: a LineString
  \<open>[[103, 1], [103.1, 1.1]]\<close> with \<open>sequence_id\<close> \<open>A\<close>, and a Point \<open>[103.2, 1.2]\<close> with
  \<open>sequence_id\<close> \<open>B\<close>, the coordinates as \<open>[lon, lat]\<close> and in the order of the rows.
\<close>

theorem parseCSV_example:
  "\<exists>fs. parseCSVSync (h\<lparr>parseFloat := parseFloat_dec\<rparr>) csv_example = Inr fs \<and>
        length fs = 2 \<and>
        map geometry fs =
          [Some (LineString [(103, 1), (103.1, 1.1)]), Some (Point (103.2, 1.2))] \<and>
        map (\<lambda>f. getProp f ''sequence_id'') fs = [Some (JStr ''A''), Some (JStr ''B'')]"
proof (cases "parseCSVSync (h\<lparr>parseFloat := parseFloat_dec\<rparr>) csv_example")
  case (Inl err)
  with csv_example_result[of h] show ?thesis by simp
next
  case (Inr fs)
  with csv_example_result[of h] have
    g: "map geometry fs = [Some (LineString [(103, 1), (103.1, 1.1)]), Some (Point (103.2, 1.2))]"
    and k: "map (\<lambda>f. getProp f ''sequence_id'') fs = [Some (JStr ''A''), Some (JStr ''B'')]"
    by simp_all
  from arg_cong[OF g, of length] have "length fs = 2" by simp
  with Inr g k show ?thesis by simp
qed

theorem parseCSV_example_witness:
  "\<exists>fs. parseCSVSync host0 csv_example = Inr fs \<and>
        length fs = 2 \<and>
        map geometry fs =
          [Some (LineString [(103, 1), (103.1, 1.1)]), Some (Point (103.2, 1.2))] \<and>
        map (\<lambda>f. getProp f ''sequence_id'') fs = [Some (JStr ''A''), Some (JStr ''B'')]"
  using parseCSV_example[of host0] by (simp add: host0_def)

subsection \<open>The chunked paths and the plain paths\<close>

text \<open>
  Claim C1. For every text and every host, \<open>parseCSVAsync\<close> returns what \<open>parseCSVSync\<close>
  returns, the same features in the same order or the same error. For every state, every
  feature list and every environment, \<open>processGeoJSON\<close> ends in the state in which
  \<open>processGeoJSONAsync\<close> ends: the same sequences in the same order, with the same
  features, statuses and statistics. The draws of \<open>Math.random\<close> and the clock are part
  of the environment, so the two are compared on the same draws.
\<close>

theorem chunked_paths_equal:
  "parseCSVAsync h csvText = parseCSVSync h csvText \<and>
   processGeoJSON e st (Some fs) = Inr (processGeoJSONAsync e st (Some fs))"
  by (simp add: parseCSV_async_sync processGeoJSON_async_sync)

theorem chunked_paths_equal_witness:
  "parseCSVAsync host0 csv_example = parseCSVSync host0 csv_example \<and>
   processGeoJSON env0 state0
     (Some [feature_of ''C'' (105, 1), feature_of ''A'' (103, 1), feature_of ''A'' (103, 2)]) =
   Inr (processGeoJSONAsync env0 state0
     (Some [feature_of ''C'' (105, 1), feature_of ''A'' (103, 1), feature_of ''A'' (103, 2)]))"
  using chunked_paths_equal[of host0 csv_example env0 state0
      "[feature_of ''C'' (105, 1), feature_of ''A'' (103, 1), feature_of ''A'' (103, 2)]"]
  by simp

section \<open>Geometry simplification\<close>

subsection \<open>Distances\<close>

text \<open>
  A point is the array \<open>[lon, lat]\<close>. \<open>Math.atan2\<close> is written out by quadrant.
  \<open>haversineDistance\<close> and \<open>perpendicularDistance\<close> are the source's formulas over the
  reals.
\<close>

type_synonym point = "real \<times> real"

definition atan2 :: "real \<Rightarrow> real \<Rightarrow> real" where
  "atan2 y x =
     (if 0 < x then arctan (y / x)
      else if x < 0 \<and> 0 \<le> y then arctan (y / x) + pi
      else if x < 0 then arctan (y / x) - pi
      else if 0 < y then pi / 2
      else if y < 0 then - (pi / 2)
      else 0)"

definition haversineDistance :: "point \<Rightarrow> point \<Rightarrow> real" where
  "haversineDistance point1 point2 =
     (let R = 6371000;
          lon1 = fst point1; lat1 = snd point1;
          lon2 = fst point2; lat2 = snd point2;
          dLat = (lat2 - lat1) * pi / 180;
          dLon = (lon2 - lon1) * pi / 180;
          a = sin (dLat / 2) * sin (dLat / 2) +
              cos (lat1 * pi / 180) * cos (lat2 * pi / 180) *
              sin (dLon / 2) * sin (dLon / 2);
          c = 2 * atan2 (sqrt a) (sqrt (1 - a))
      in R * c)"

definition perpendicularDistance :: "point \<Rightarrow> point \<Rightarrow> point \<Rightarrow> real" where
  "perpendicularDistance point lineStart lineEnd =
     (let lon0 = fst point; lat0 = snd point;
          lon1 = fst lineStart; lat1 = snd lineStart;
          lon2 = fst lineEnd; lat2 = snd lineEnd;
          dx = lon2 - lon1;
          dy = lat2 - lat1;
          d = sqrt (dx * dx + dy * dy)
      in if d = 0 then haversineDistance (lon0, lat0) (lon1, lat1)
         else let t = max 0 (min 1 (((lon0 - lon1) * dx + (lat0 - lat1) * dy) / (d * d)));
                  projLon = lon1 + t * dx;
                  projLat = lat1 + t * dy
              in haversineDistance (lon0, lat0) (projLon, projLat))"

subsection \<open>Douglas-Peucker\<close>

text \<open>
  The loop of \<open>douglasPeucker\<close> that looks for the interior point farthest from the chord:
  \<open>farthest_step\<close> is its body at index \<open>i\<close>, on the pair \<open>(maxDistance, maxIndex)\<close>, and
  \<open>farthest\<close> runs it for \<open>i = 1, \<dots>, length - 2\<close> from \<open>(0, 0)\<close>.

  The distance function is a parameter \<open>pd\<close> (for \<open>this.perpendicularDistance\<close>), so that the
  results below also cover the floating-point function: the loop only ever asks whether
  \<open>distance > maxDistance\<close>, which is false for a \<open>NaN\<close>, exactly as for a distance of \<open>0\<close>.
\<close>

definition farthest_step ::
  "('p \<Rightarrow> 'p \<Rightarrow> 'p \<Rightarrow> real) \<Rightarrow> 'p list \<Rightarrow> nat \<Rightarrow> real \<times> nat \<Rightarrow> real \<times> nat" where
  "farthest_step pd points i acc =
     (let first = points ! 0;
          last = points ! (length points - 1);
          distance = pd (points ! i) first last
      in if distance > fst acc then (distance, i) else acc)"

definition farthest :: "('p \<Rightarrow> 'p \<Rightarrow> 'p \<Rightarrow> real) \<Rightarrow> 'p list \<Rightarrow> real \<times> nat" where
  "farthest pd points = fold (farthest_step pd points) [1 ..< length points - 1] (0, 0)"

text \<open>
  The recursion of the source has no guard against a split at index \<open>0\<close> (which a negative
  tolerance causes), where \<open>points.slice(0)\<close> is the whole list again and the call never
  returns. The function is therefore defined in the option monad, \<open>None\<close> meaning that the
  call does not return. \<open>left.slice(0, -1)\<close> is \<open>butlast left\<close>.
\<close>

partial_function (option) douglasPeuckerWith ::
  "('p \<Rightarrow> 'p \<Rightarrow> 'p \<Rightarrow> real) \<Rightarrow> 'p list \<Rightarrow> real \<Rightarrow> 'p list option" where
  "douglasPeuckerWith pd points tolerance =
     (if length points \<le> 2 then Some points
      else if fst (farthest pd points) > tolerance then
        do {
          left \<leftarrow> douglasPeuckerWith pd (take (snd (farthest pd points) + 1) points) tolerance;
          right \<leftarrow> douglasPeuckerWith pd (drop (snd (farthest pd points)) points) tolerance;
          Some (butlast left @ right)
        }
      else Some [points ! 0, points ! (length points - 1)])"

text \<open>The method itself, with the source's distance.\<close>

definition douglasPeucker :: "point list \<Rightarrow> real \<Rightarrow> point list option" where
  "douglasPeucker = douglasPeuckerWith perpendicularDistance"

text \<open>
  A distance that the simplifier can evaluate, for running the algorithm on concrete
  input: the vertical offset from the start of the chord.
\<close>

definition offset_y :: "point \<Rightarrow> point \<Rightarrow> point \<Rightarrow> real" where
  "offset_y p lineStart lineEnd = \<bar>snd p - snd lineStart\<bar>"

subsection \<open>The farthest point as a scan of the interior distances\<close>

text \<open>
  Auxiliary notions for the proofs: \<open>scan\<close> is the loop over a list of distances, and
  \<open>interior\<close> drops the first and the last element of a list.
\<close>

fun scan :: "real list \<Rightarrow> nat \<Rightarrow> real \<times> nat \<Rightarrow> real \<times> nat" where
  "scan [] k acc = acc"
| "scan (d # ds) k acc = scan ds (Suc k) (if d > fst acc then (d, k) else acc)"

definition interior :: "'a list \<Rightarrow> 'a list" where
  "interior xs = butlast (tl xs)"

lemma fold_step_scan:
  "n \<le> length points \<Longrightarrow>
   fold (farthest_step pd points) [k ..< n] acc =
   scan (map (\<lambda>p. pd p (points ! 0) (points ! (length points - 1)))
          (take (n - k) (drop k points))) k acc"
proof (induction "n - k" arbitrary: k acc)
  case 0
  then show ?case by simp
next
  case (Suc m)
  then have kn: "k < n" by simp
  have klen: "k < length points" using kn Suc.prems by simp
  have nk: "n - k = Suc (n - Suc k)" using kn by simp
  have "drop k points = points ! k # drop (Suc k) points"
    using klen by (simp add: Cons_nth_drop_Suc)
  then have tk: "take (n - k) (drop k points) = points ! k # take (n - Suc k) (drop (Suc k) points)"
    by (simp only: nk take_Suc_Cons)
  have m: "m = n - Suc k" using Suc.hyps(2) by simp
  have "fold (farthest_step pd points) [k ..< n] acc =
        fold (farthest_step pd points) [Suc k ..< n] (farthest_step pd points k acc)"
    using kn by (simp add: upt_conv_Cons)
  also have "\<dots> = scan (map (\<lambda>p. pd p (points ! 0) (points ! (length points - 1)))
                        (take (n - Suc k) (drop (Suc k) points))) (Suc k)
                      (farthest_step pd points k acc)"
    by (rule Suc.hyps(1) [OF m Suc.prems])
  finally show ?case
    by (simp add: tk farthest_step_def Let_def)
qed

lemma interior_take_drop: "interior xs = take (length xs - 1 - 1) (drop 1 xs)"
  by (simp add: interior_def butlast_conv_take drop_Suc)

lemma farthest_scan:
  "farthest pd points =
     scan (map (\<lambda>p. pd p (points ! 0) (points ! (length points - 1))) (interior points)) 1 (0, 0)"
proof (cases "length points \<le> 2")
  case True
  then show ?thesis
    by (simp add: farthest_def interior_take_drop)
next
  case False
  show ?thesis
    unfolding farthest_def
    by (subst fold_step_scan) (simp_all add: interior_take_drop)
qed

lemma scan_none: "\<forall>d\<in>set ds. d \<le> fst acc \<Longrightarrow> scan ds k acc = acc"
  by (induction ds arbitrary: k) auto

lemma scan_first_max:
  "\<forall>x\<in>set pre. x < d \<Longrightarrow> \<forall>x\<in>set post. x \<le> d \<Longrightarrow> fst acc < d \<Longrightarrow>
   scan (pre @ d # post) k acc = (d, k + length pre)"
proof (induction pre arbitrary: k acc)
  case Nil
  then show ?case by (simp add: scan_none)
next
  case (Cons x pre)
  have "fst (if x > fst acc then (x, k) else acc) < d"
    using Cons.prems by simp
  from Cons.IH[OF _ Cons.prems(2) this, of "Suc k"] Cons.prems(1)
  show ?case by simp
qed

lemma scan_cases:
  "(scan ds k acc = acc \<and> (\<forall>d\<in>set ds. d \<le> fst acc)) \<or>
   (\<exists>pre d post. ds = pre @ d # post \<and> (\<forall>x\<in>set pre. x < d) \<and> (\<forall>x\<in>set post. x \<le> d) \<and>
      fst acc < d \<and> scan ds k acc = (d, k + length pre))"
proof (cases "\<forall>d\<in>set ds. d \<le> fst acc")
  case True
  then show ?thesis by (simp add: scan_none)
next
  case False
  then have ne: "ds \<noteq> []" by auto
  define d where "d = Max (set ds)"
  have dmax: "\<forall>x\<in>set ds. x \<le> d" by (simp add: d_def)
  have din: "d \<in> set ds" unfolding d_def using ne by (intro Max_in) auto
  have dgt: "fst acc < d" using False dmax by (meson not_le order_less_le_trans)
  define pre where "pre = takeWhile (\<lambda>x. x < d) ds"
  define rest where "rest = dropWhile (\<lambda>x. x < d) ds"
  have split: "ds = pre @ rest" by (simp add: pre_def rest_def)
  have "rest \<noteq> []" using din by (auto simp: rest_def dropWhile_eq_Nil_conv)
  then obtain y post where rest: "rest = y # post" by (cases rest) auto
  have "\<not> y < d" using rest hd_dropWhile[of "\<lambda>x. x < d" ds] \<open>rest \<noteq> []\<close>
    by (simp add: rest_def)
  moreover have "y \<in> set ds" using split rest by simp
  ultimately have y: "y = d" using dmax by fastforce
  have pre_lt: "\<forall>x\<in>set pre. x < d" by (auto simp: pre_def dest: set_takeWhileD)
  have post_le: "\<forall>x\<in>set post. x \<le> d" using dmax split rest by simp
  have "scan ds k acc = (d, k + length pre)"
    using scan_first_max[OF pre_lt post_le dgt] split rest y by simp
  then show ?thesis using split rest y pre_lt post_le dgt by blast
qed

lemma interior_join:
  assumes "2 \<le> length L" "2 \<le> length R"
  shows "interior (butlast L @ R) = interior L @ hd R # interior R"
proof -
  obtain a a' L' where L: "L = a # a' # L'"
    using assms(1) by (cases L; cases "tl L") auto
  obtain b b' R' where R: "R = b # b' # R'"
    using assms(2) by (cases R; cases "tl R") auto
  have "butlast (butlast (a' # L') @ b # b' # R') = butlast (a' # L') @ b # butlast (b' # R')"
    by (simp add: butlast_append)
  then show ?thesis by (simp add: interior_def L R)
qed

lemma interior_take:
  assumes "i < length P" "1 \<le> i"
  shows "interior (take (i + 1) P) = take (i - 1) (interior P)"
proof -
  have "length (take (i + 1) P) = i + 1"
    using assms by simp
  then have "interior (take (i + 1) P) = take (i - 1) (drop 1 (take (i + 1) P))"
    by (simp only: interior_take_drop) simp
  also have "\<dots> = take (i - 1) (take i (drop 1 P))"
    by (simp add: drop_take)
  also have "\<dots> = take (i - 1) (drop 1 P)"
    by (simp add: min_def)
  also have "\<dots> = take (i - 1) (take (length P - 1 - 1) (drop 1 P))"
    using assms by (simp add: min_def)
  finally show ?thesis by (simp add: interior_take_drop)
qed

lemma interior_drop:
  "interior (drop i P) = drop i (interior P)"
  by (simp add: interior_take_drop drop_take drop_Suc)

lemma interior_nth:
  "k < length P - 2 \<Longrightarrow> interior P ! k = P ! Suc k"
  by (simp add: interior_take_drop)

lemma length_interior: "length (interior P) = length P - 2"
  by (simp add: interior_def)

lemma farthest_cases:
  "(farthest pd P = (0, 0) \<and>
      (\<forall>p\<in>set (interior P). pd p (P ! 0) (P ! (length P - 1)) \<le> 0)) \<or>
   (\<exists>pre d post.
      map (\<lambda>p. pd p (P ! 0) (P ! (length P - 1))) (interior P) = pre @ d # post \<and>
      (\<forall>x\<in>set pre. x < d) \<and> (\<forall>x\<in>set post. x \<le> d) \<and> 0 < d \<and>
      farthest pd P = (d, 1 + length pre))"
  using scan_cases[of "map (\<lambda>p. pd p (P ! 0) (P ! (length P - 1))) (interior P)" 1 "(0, 0)"]
  by (simp add: farthest_scan)

lemma dp_short: "length P \<le> 2 \<Longrightarrow> douglasPeuckerWith pd P t = Some P"
  by (subst douglasPeuckerWith.simps) simp

lemma dp_flat:
  "\<not> length P \<le> 2 \<Longrightarrow> \<not> fst (farthest pd P) > t \<Longrightarrow>
   douglasPeuckerWith pd P t = Some [P ! 0, P ! (length P - 1)]"
  by (subst douglasPeuckerWith.simps) simp

lemma dp_split:
  "\<not> length P \<le> 2 \<Longrightarrow> fst (farthest pd P) > t \<Longrightarrow>
   douglasPeuckerWith pd (take (snd (farthest pd P) + 1) P) t = Some L \<Longrightarrow>
   douglasPeuckerWith pd (drop (snd (farthest pd P)) P) t = Some R \<Longrightarrow>
   douglasPeuckerWith pd P t = Some (butlast L @ R)"
  by (subst douglasPeuckerWith.simps) simp

lemma dp_main:
  assumes t: "0 \<le> t"
  shows "\<exists>Q. douglasPeuckerWith pd P t = Some Q \<and>
             (2 \<le> length P \<longrightarrow> 2 \<le> length Q) \<and> length Q \<le> length P \<and>
             hd Q = hd P \<and> last Q = last P \<and>
             set (interior Q) \<subseteq> set (interior P) \<and>
             douglasPeuckerWith pd Q t = Some Q"
proof (induction "length P" arbitrary: P rule: less_induct)
  case less
  let ?n = "length P"
  define g where "g = (\<lambda>p. pd p (P ! 0) (P ! (length P - 1)))"
  show ?case
  proof (cases "?n \<le> 2")
    case True
    then show ?thesis by (simp add: dp_short)
  next
    case long: False
    then have Pne: "P \<noteq> []" by auto
    show ?thesis
    proof (cases "fst (farthest pd P) > t")
      case False
      let ?Q = "[P ! 0, P ! (?n - 1)]"
      have "douglasPeuckerWith pd P t = Some ?Q"
        using long False by (rule dp_flat)
      moreover have "douglasPeuckerWith pd ?Q t = Some ?Q"
        by (simp add: dp_short)
      moreover have "hd ?Q = hd P" "last ?Q = last P"
        using Pne by (simp_all add: hd_conv_nth last_conv_nth)
      moreover have "interior ?Q = []" by (simp add: interior_def)
      ultimately show ?thesis using long by auto
    next
      case True
      with t have pos: "0 < fst (farthest pd P)" by simp
      from farthest_cases[of pd P, folded g_def] pos
      obtain pre d post where
        dec: "map g (interior P) = pre @ d # post" and
        pre: "\<forall>x\<in>set pre. x < d" and post: "\<forall>x\<in>set post. x \<le> d" and
        d: "0 < d" and far: "farthest pd P = (d, 1 + length pre)"
        by auto
      define i where "i = 1 + length pre"
      have "length (map g (interior P)) = length pre + 1 + length post"
        by (simp only: dec) simp
      then have "length (interior P) = length pre + 1 + length post"
        by simp
      then have len: "?n - 2 = length pre + 1 + length post"
        by (simp only: length_interior)
      have i1: "1 \<le> i" and i2: "i < ?n - 1" and i3: "i < ?n"
        using len by (simp_all add: i_def)
      let ?Lp = "take (i + 1) P" and ?Rp = "drop i P"
      have lenLp: "length ?Lp = i + 1" using i3 by simp
      have lenRp: "length ?Rp = ?n - i" by simp
      have gi: "g (P ! i) = d"
      proof -
        have "map g (interior P) ! length pre = d" by (simp add: dec)
        moreover have "length pre < length (interior P)"
          using len by (simp add: length_interior)
        ultimately have "g (interior P ! length pre) = d" by simp
        moreover have "interior P ! length pre = P ! Suc (length pre)"
          using len by (intro interior_nth) simp
        ultimately show ?thesis by (simp add: i_def)
      qed
      have intL: "map g (interior ?Lp) = pre"
      proof -
        have "interior ?Lp = take (length pre) (interior P)"
          using interior_take[OF i3 i1] by (simp add: i_def)
        then have "map g (interior ?Lp) = take (length pre) (map g (interior P))"
          by (simp add: take_map)
        then show ?thesis by (simp add: dec)
      qed
      have intR: "map g (interior ?Rp) = post"
      proof -
        have "map g (interior ?Rp) = drop i (map g (interior P))"
          by (simp add: interior_drop drop_map)
        then show ?thesis by (simp add: dec i_def)
      qed
      have ltL: "length ?Lp < length P" using lenLp i2 by simp
      have geL: "2 \<le> length ?Lp" using lenLp i1 by simp
      have ltR: "length ?Rp < length P" using lenRp i1 i3 by simp
      have geR: "2 \<le> length ?Rp" using lenRp i2 by simp
      from less[OF ltL] geL obtain L where
        L: "douglasPeuckerWith pd ?Lp t = Some L" and L2: "2 \<le> length L" and
        Llen: "length L \<le> length ?Lp" and
        Lhd: "hd L = hd ?Lp" and Llast: "last L = last ?Lp" and
        Lint: "set (interior L) \<subseteq> set (interior ?Lp)" and
        Lfix: "douglasPeuckerWith pd L t = Some L"
        by blast
      from less[OF ltR] geR obtain R where
        R: "douglasPeuckerWith pd ?Rp t = Some R" and R2: "2 \<le> length R" and
        Rlen: "length R \<le> length ?Rp" and
        Rhd: "hd R = hd ?Rp" and Rlast: "last R = last ?Rp" and
        Rint: "set (interior R) \<subseteq> set (interior ?Rp)" and
        Rfix: "douglasPeuckerWith pd R t = Some R"
        by blast
      let ?Q = "butlast L @ R"
      have Lne: "L \<noteq> []" and bLne: "butlast L \<noteq> []" and Rne: "R \<noteq> []"
        using L2 R2 by (auto simp: butlast_conv_take)
      have hdLp: "hd ?Lp = P ! 0" using Pne by (simp add: hd_conv_nth)
      have lastLp: "last ?Lp = P ! i"
      proof -
        have "?Lp \<noteq> []" using geL by auto
        then have "last ?Lp = ?Lp ! (length ?Lp - 1)" by (rule last_conv_nth)
        also have "\<dots> = ?Lp ! i" by (simp only: lenLp) simp
        finally show ?thesis by simp
      qed
      have hdRp: "hd ?Rp = P ! i" using i3 by (simp add: hd_drop_conv_nth)
      have lastRp: "last ?Rp = P ! (?n - 1)" using i3 Pne by (simp add: last_conv_nth)
      have Q: "douglasPeuckerWith pd P t = Some ?Q"
        using long True L R by (intro dp_split) (simp_all add: far i_def)
      have lenQ: "length ?Q = length L - 1 + length R" by simp
      have Qlong: "\<not> length ?Q \<le> 2" using L2 R2 by simp
      have Qne: "?Q \<noteq> []" using Rne by simp
      have hdQ: "hd ?Q = P ! 0"
      proof -
        have "hd ?Q = hd (butlast L)" using bLne by simp
        also have "\<dots> = hd L" using L2 by (cases L; cases "tl L") auto
        finally show ?thesis using Lhd hdLp by simp
      qed
      have lastQ: "last ?Q = P ! (?n - 1)"
        using Rne Rlast lastRp by simp
      have Q0: "?Q ! 0 = P ! 0" using hdQ Qne by (simp add: hd_conv_nth)
      have Qn: "?Q ! (length ?Q - 1) = P ! (?n - 1)"
        using lastQ Qne by (simp add: last_conv_nth)
      have intQ: "interior ?Q = interior L @ P ! i # interior R"
        using interior_join[OF L2 R2] Rhd hdRp by simp
      have preL: "\<forall>x\<in>set (map g (interior L)). x < d"
        using Lint intL pre by (metis image_mono image_set subsetD)
      have postR: "\<forall>x\<in>set (map g (interior R)). x \<le> d"
        using Rint intR post by (metis image_mono image_set subsetD)
      have "farthest pd ?Q = scan (map g (interior ?Q)) 1 (0, 0)"
        by (simp only: farthest_scan Q0 Qn g_def)
      also have "\<dots> = scan (map g (interior L) @ d # map g (interior R)) 1 (0, 0)"
        by (simp only: intQ map_append list.map gi)
      also have "\<dots> = (d, 1 + length (map g (interior L)))"
        by (rule scan_first_max[OF preL postR]) (simp add: d)
      finally have farQ: "farthest pd ?Q = (d, length L - 1)"
        using L2 by (simp add: length_interior)
      have takeQ: "take (snd (farthest pd ?Q) + 1) ?Q = L"
      proof -
        have "length L - (length L - Suc 0) = Suc 0" using L2 by simp
        then have "take (length L) ?Q = butlast L @ take 1 R"
          by simp
        also have "take 1 R = [hd R]" using Rne by (cases R) simp_all
        also have "hd R = last L" using Rhd hdRp Llast lastLp by simp
        finally show ?thesis using Lne L2 by (simp add: farQ)
      qed
      have dropQ: "drop (snd (farthest pd ?Q)) ?Q = R"
        by (simp add: farQ)
      have Qfix: "douglasPeuckerWith pd ?Q t = Some ?Q"
        using Qlong by (rule dp_split) (use True far farQ takeQ dropQ Lfix Rfix in simp_all)
      have sub: "set (interior ?Q) \<subseteq> set (interior P)"
      proof -
        have "set (interior ?Lp) \<subseteq> set (interior P)"
          using interior_take[OF i3 i1] by (simp add: set_take_subset)
        moreover have "set (interior ?Rp) \<subseteq> set (interior P)"
          by (simp add: interior_drop set_drop_subset)
        moreover have "P ! i \<in> set (interior P)"
        proof -
          have "interior P ! (i - 1) = P ! i"
            using interior_nth[of "i - 1" P] i1 i2 by simp
          moreover have "i - 1 < length (interior P)"
            using i1 i2 by (simp add: length_interior)
          ultimately show ?thesis by (metis nth_mem)
        qed
        ultimately show ?thesis using Lint Rint by (auto simp: intQ)
      qed
      have "length ?Q \<le> ?n"
        using Llen Rlen lenLp lenRp i3 L2 by simp
      moreover have "hd ?Q = hd P" using hdQ Pne by (simp add: hd_conv_nth)
      moreover have "last ?Q = last P" using lastQ Pne by (simp add: last_conv_nth)
      ultimately show ?thesis using Q Qfix sub Qlong by auto
    qed
  qed
qed

lemma farthest_inner:
  assumes "0 < fst (farthest pd P)"
  shows "1 \<le> snd (farthest pd P) \<and> snd (farthest pd P) < length P - 1"
proof -
  from farthest_cases[of pd P] assms
  obtain pre d post where
    dec: "map (\<lambda>p. pd p (P ! 0) (P ! (length P - 1))) (interior P) = pre @ d # post" and
    far: "farthest pd P = (d, 1 + length pre)"
    by auto
  have "length (map (\<lambda>p. pd p (P ! 0) (P ! (length P - 1))) (interior P)) =
        length pre + 1 + length post"
    by (simp only: dec) simp
  then have "length P - 2 = length pre + 1 + length post"
    by (simp add: length_interior)
  then show ?thesis by (simp add: far)
qed

subsection \<open>A run on concrete input\<close>

lemma farthest_example:
  "farthest offset_y [(0, 0), (1, 2), (2, 2), (3, 0)] = (2, 1)"
  by (simp add: farthest_def farthest_step_def offset_y_def upt_rec)

lemma farthest_example_right:
  "farthest offset_y [(1, 2), (2, 2), (3, 0)] = (0, 0)"
  by (simp add: farthest_def farthest_step_def offset_y_def upt_rec)

lemma farthest_example_result:
  "farthest offset_y [(0, 0), (1, 2), (3, 0)] = (2, 1)"
  by (simp add: farthest_def farthest_step_def offset_y_def upt_rec)

lemma douglasPeucker_example:
  "douglasPeuckerWith offset_y [(0, 0), (1, 2), (2, 2), (3, 0)] 1 = Some [(0, 0), (1, 2), (3, 0)]"
proof -
  have "douglasPeuckerWith offset_y [(1, 2), (2, 2), (3, 0)] 1 = Some [(1, 2), (3, 0)]"
    using dp_flat[of "[(1, 2), (2, 2), (3, 0)]" 1 offset_y]
    by (simp add: farthest_example_right)
  moreover have "douglasPeuckerWith offset_y [(0, 0), (1, 2)] 1 = Some [(0, 0), (1, 2)]"
    by (simp add: dp_short)
  ultimately show ?thesis
    using dp_split[of "[(0, 0), (1, 2), (2, 2), (3, 0)]" 1 offset_y "[(0, 0), (1, 2)]" "[(1, 2), (3, 0)]"]
    by (simp add: farthest_example)
qed

lemma douglasPeucker_example_again:
  "douglasPeuckerWith offset_y [(0, 0), (1, 2), (3, 0)] 1 = Some [(0, 0), (1, 2), (3, 0)]"
  using dp_split[of "[(0, 0), (1, 2), (3, 0)]" 1 offset_y "[(0, 0), (1, 2)]" "[(1, 2), (3, 0)]"]
  by (simp add: farthest_example_result dp_short)

lemma douglasPeucker_example_source:
  "douglasPeucker [(0, 0), (0, 0), (1, 0)] 1 = Some [(0, 0), (1, 0)]"
  unfolding douglasPeucker_def
  by (subst douglasPeuckerWith.simps)
     (simp add: farthest_def farthest_step_def perpendicularDistance_def
        haversineDistance_def atan2_def Let_def)

subsection \<open>Idempotence\<close>

text \<open>
  Claim C5. For every finite point list and every tolerance \<open>t > 0\<close>, simplifying returns a
  list \<open>Q\<close>, and simplifying \<open>Q\<close> again with the same tolerance returns \<open>Q\<close> itself. This
  holds for every distance function (first conjunct), in particular for the source's
  \<open>perpendicularDistance\<close> (second conjunct).
\<close>

theorem douglasPeucker_idempotent:
  assumes "0 < t"
  shows "(\<exists>Q. douglasPeuckerWith pd P t = Some Q \<and> douglasPeuckerWith pd Q t = Some Q) \<and>
         (\<exists>Q. douglasPeucker P' t = Some Q \<and> douglasPeucker Q t = Some Q)"
proof -
  from assms have t: "0 \<le> t" by simp
  from dp_main[OF t, of pd P]
  have "\<exists>Q. douglasPeuckerWith pd P t = Some Q \<and> douglasPeuckerWith pd Q t = Some Q"
    by blast
  moreover from dp_main[OF t, of perpendicularDistance P']
  have "\<exists>Q. douglasPeucker P' t = Some Q \<and> douglasPeucker Q t = Some Q"
    unfolding douglasPeucker_def by blast
  ultimately show ?thesis by simp
qed

theorem douglasPeucker_idempotent_witness:
  "(0 :: real) < 1 \<and>
   douglasPeuckerWith offset_y [(0, 0), (1, 2), (2, 2), (3, 0)] 1 = Some [(0, 0), (1, 2), (3, 0)] \<and>
   douglasPeuckerWith offset_y [(0, 0), (1, 2), (3, 0)] 1 = Some [(0, 0), (1, 2), (3, 0)] \<and>
   douglasPeucker [(0, 0), (0, 0), (1, 0)] 1 = Some [(0, 0), (1, 0)] \<and>
   douglasPeucker [(0, 0), (1, 0)] 1 = Some [(0, 0), (1, 0)]"
  using douglasPeucker_idempotent[of 1 offset_y "[(0, 0), (1, 2), (2, 2), (3, 0)]"
          "[(0, 0), (0, 0), (1, 0)]"]
  by (simp add: douglasPeucker_example douglasPeucker_example_source)

subsection \<open>Termination\<close>

text \<open>
  Claim C9. For every tolerance \<open>t > 0\<close> the call returns on every finite list, for every
  distance function and for the source's. A list of at most two points is returned at
  once. Whenever the recursive branch is taken (more than two points and a maximum
  distance above \<open>t\<close>), the split index is a strict interior index, and both recursive
  calls receive a list strictly shorter than the input.
\<close>

theorem douglasPeucker_terminates:
  assumes "0 < t"
  shows "(\<exists>Q. douglasPeuckerWith pd P t = Some Q) \<and>
         (\<exists>Q. douglasPeucker P' t = Some Q) \<and>
         (length P \<le> 2 \<longrightarrow> douglasPeuckerWith pd P t = Some P) \<and>
         (2 < length P \<and> t < fst (farthest pd P) \<longrightarrow>
            0 < snd (farthest pd P) \<and> snd (farthest pd P) < length P - 1 \<and>
            length (take (snd (farthest pd P) + 1) P) < length P \<and>
            length (drop (snd (farthest pd P)) P) < length P)"
proof -
  from assms have t: "0 \<le> t" by simp
  from dp_main[OF t, of pd P] have "\<exists>Q. douglasPeuckerWith pd P t = Some Q"
    by blast
  moreover from dp_main[OF t, of perpendicularDistance P'] have "\<exists>Q. douglasPeucker P' t = Some Q"
    unfolding douglasPeucker_def by blast
  moreover have "length P \<le> 2 \<longrightarrow> douglasPeuckerWith pd P t = Some P"
    by (simp add: dp_short)
  moreover have "0 < snd (farthest pd P) \<and> snd (farthest pd P) < length P - 1 \<and>
            length (take (snd (farthest pd P) + 1) P) < length P \<and>
            length (drop (snd (farthest pd P)) P) < length P"
    if "2 < length P" "t < fst (farthest pd P)"
  proof -
    from that(2) assms have "0 < fst (farthest pd P)" by simp
    from farthest_inner[OF this] that(1) show ?thesis by auto
  qed
  ultimately show ?thesis by blast
qed

theorem douglasPeucker_terminates_witness:
  "(0 :: real) < 1 \<and>
   (\<exists>Q. douglasPeuckerWith offset_y [(0, 0), (1, 2), (2, 2), (3, 0)] 1 = Some Q) \<and>
   (\<exists>Q. douglasPeucker [(0, 0), (0, 0), (1, 0)] 1 = Some Q) \<and>
   2 < length [(0, 0), (1, 2), (2, 2), (3, 0 :: real) :: point] \<and>
   1 < fst (farthest offset_y [(0, 0), (1, 2), (2, 2), (3, 0)]) \<and>
   snd (farthest offset_y [(0, 0), (1, 2), (2, 2), (3, 0)]) = 1 \<and>
   length (take (snd (farthest offset_y [(0, 0), (1, 2), (2, 2), (3, 0)]) + 1)
             [(0, 0), (1, 2), (2, 2), (3, 0 :: real) :: point]) < 4 \<and>
   length (drop (snd (farthest offset_y [(0, 0), (1, 2), (2, 2), (3, 0)]))
             [(0, 0), (1, 2), (2, 2), (3, 0 :: real) :: point]) < 4"
  using douglasPeucker_terminates[of 1 offset_y "[(0, 0), (1, 2), (2, 2), (3, 0)]"
          "[(0, 0), (0, 0), (1, 0)]"]
  by (simp add: farthest_example)

end
